(* ===== verification/Prelude.thy ===== *)
theory Prelude
  imports Complex_Main "HOL-Library.Option_ord"
begin

text \<open>
  Shared vocabulary of the development of \<^verbatim>\<open>src/main.py\<close>: calendar days, the
  Python exceptions the program can raise, an exception-carrying outcome type for the
  statements of \<^verbatim>\<open>StockParser.run\<close> that run inside \<^verbatim>\<open>try\<close>, and the two
  Python string methods the column-coalescing step relies on
  (\<^verbatim>\<open>str.startswith\<close> and \<^verbatim>\<open>str.rsplit('_', 1)[0]\<close>), with the lemmas about them
  that several components share.
\<close>

named_theorems frame_simps "characteristic equations of the DataFrame model"

type_synonym day = int \<comment> \<open>a calendar date as a day number; \<^verbatim>\<open>timedelta(days=1)\<close> is 1\<close>

text \<open>Exceptions that reach a handler (or escape) in \<^verbatim>\<open>main.py\<close>.\<close>

datatype pyerr =
    KeyError "string list"   \<comment> \<open>pandas: a column label that is not in the frame\<close>
  | MergeError "string list" \<comment> \<open>pandas: merge suffixes would duplicate these labels\<close>
  | IndexError               \<comment> \<open>a positional index out of range (\<^verbatim>\<open>[-1]\<close>, \<^verbatim>\<open>iloc\<close>)\<close>
  | ValueError               \<comment> \<open>\<^verbatim>\<open>datetime.strptime\<close> on a malformed date\<close>
  | OtherError               \<comment> \<open>any other exception of the API client (not \<^verbatim>\<open>RequestError\<close>)\<close>

text \<open>
  The state reached by a sequence of statements: either it ran to the end, or an
  exception was raised after the state had been changed as far as it had got.
\<close>

datatype 's outcome = Normal 's | Raised pyerr 's

fun outcome_state :: "'s outcome \<Rightarrow> 's" where
  "outcome_state (Normal s) = s"
| "outcome_state (Raised e s) = s"

fun outcome_map :: "('s \<Rightarrow> 't) \<Rightarrow> 's outcome \<Rightarrow> 't outcome" where
  "outcome_map f (Normal s) = Normal (f s)"
| "outcome_map f (Raised e s) = Raised e (f s)"

subsection \<open>Python string methods\<close>

text \<open>\<^verbatim>\<open>s.startswith(p)\<close>.\<close>

definition startswith :: "string \<Rightarrow> string \<Rightarrow> bool" where
  "startswith s p \<longleftrightarrow> take (length p) s = p"

text \<open>
  \<^verbatim>\<open>s.rsplit('_', 1)[0]\<close>: everything before the last underscore, or the whole string
  when it has none.
\<close>

definition rsplit_head :: "string \<Rightarrow> string" where
  "rsplit_head s =
     (case dropWhile (\<lambda>c. c \<noteq> CHR ''_'') (rev s) of
        [] \<Rightarrow> s
      | _ # r \<Rightarrow> rev r)"

subsection \<open>Shared list lemmas\<close>

lemma concat_map_singleton:
  "(\<And>x. x \<in> set xs \<Longrightarrow> f x = [g x]) \<Longrightarrow> concat (map f xs) = map g xs"
  by (induction xs) auto

lemma map2_map_same: "map2 f (map g xs) xs = map (\<lambda>x. f (g x) x) xs"
  by (induction xs) auto

lemma filter_eq_single: "distinct xs \<Longrightarrow> u \<in> set xs \<Longrightarrow> filter (\<lambda>x. x = u) xs = [u]"
  by (induction xs) (auto simp: filter_empty_conv)

lemma filter_fst_distinct:
  "distinct (map fst f) \<Longrightarrow> (l, X) \<in> set f \<Longrightarrow> filter (\<lambda>c. fst c = l) f = [(l, X)]"
  by (induction f) (auto simp: filter_empty_conv rev_image_eqI)

lemma outcome_state_map [simp]: "outcome_state (outcome_map f r) = f (outcome_state r)"
  by (cases r) simp_all

subsection \<open>Lemmas on the string methods\<close>

lemma startswith_refl [simp]: "startswith s s"
  by (simp add: startswith_def)

lemma startswith_append [simp]: "startswith (p @ t) p"
  by (simp add: startswith_def)

lemma startswith_iff: "startswith s p \<longleftrightarrow> (\<exists>t. s = p @ t)"
  unfolding startswith_def by (metis append_eq_conv_conj append_take_drop_id)

lemma startswith_trans: "startswith s p \<Longrightarrow> startswith p q \<Longrightarrow> startswith s q"
  by (auto simp: startswith_iff)

lemma rsplit_head_no_underscore [simp]:
  "CHR ''_'' \<notin> set s \<Longrightarrow> rsplit_head s = s"
proof -
  assume "CHR ''_'' \<notin> set s"
  then have h: "dropWhile (\<lambda>c. c \<noteq> CHR ''_'') (rev s) = []"
    by (auto simp: dropWhile_eq_Nil_conv)
  show ?thesis unfolding rsplit_head_def h by simp
qed

lemma rsplit_head_suffix [simp]:
  "CHR ''_'' \<notin> set t \<Longrightarrow> rsplit_head (s @ CHR ''_'' # t) = s"
proof -
  assume "CHR ''_'' \<notin> set t"
  then have h: "dropWhile (\<lambda>c. c \<noteq> CHR ''_'') (rev t @ CHR ''_'' # rev s) = CHR ''_'' # rev s"
    by (subst dropWhile_append2) auto
  show ?thesis unfolding rsplit_head_def rev_append by (simp add: h)
qed

lemma startswith_underscore:
  assumes "CHR ''_'' \<notin> set p" "startswith (n @ CHR ''_'' # s) p"
  shows "startswith n p"
proof (cases "length p \<le> length n")
  case True
  with assms(2) show ?thesis by (simp add: startswith_def)
next
  case False
  with assms(2) have "p = n @ CHR ''_'' # take (length p - Suc (length n)) s"
    by (simp add: startswith_def take_Cons' split: if_splits)
  then have "CHR ''_'' \<in> set p" by (metis in_set_conv_decomp)
  with assms(1) show ?thesis by contradiction
qed

lemma rsplit_head_prefix [simp]: "startswith s (rsplit_head s)"
proof (cases "CHR ''_'' \<in> set s")
  case True
  then obtain p t where s: "s = p @ CHR ''_'' # t" and t: "CHR ''_'' \<notin> set t"
    using split_list_last by fastforce
  then show ?thesis by simp
next
  case False
  then show ?thesis by simp
qed

end
