(* ===== verification/DateRange.thy ===== *)
theory DateRange
  imports Prelude "HOL-Library.While_Combinator"
begin

text \<open>
  RangeSplitter: \<^verbatim>\<open>StockParser.split_date_range\<close> (\<^verbatim>\<open>src/main.py\<close>, lines 46--61).
  The \<^verbatim>\<open>while\<close> loop over \<^verbatim>\<open>current_start\<close> and \<^verbatim>\<open>current_end\<close> is
  \<open>split_loop\<close>, the accumulated list \<^verbatim>\<open>date_ranges\<close> its last argument.
  \<open>chunks_ref\<close> is a closed-form reference; \<open>split_date_range_eq_ref\<close> shows the loop
  computes it, and every other property is read off the closed form.
\<close>

definition span_days :: int where
  "span_days = 350" \<comment> \<open>\<^verbatim>\<open>timedelta(days=350)\<close>\<close>

function split_loop :: "day \<Rightarrow> day \<Rightarrow> day \<Rightarrow> (day \<times> day) list \<Rightarrow> (day \<times> day) list" where
  "split_loop end_date current_start current_end date_ranges =
     (if current_start < end_date then
        (let current_end' = (if current_end > end_date then end_date else current_end)
         in split_loop end_date (current_end' + 1) (current_end' + 1 + span_days)
              (date_ranges @ [(current_start, current_end')]))
      else date_ranges)"
  by pat_completeness auto
termination
  by (relation "measure (\<lambda>(e, s, c, _). nat (e - s) + nat (s - c))")
    (auto simp: span_days_def)

declare split_loop.simps [simp del]

definition split_date_range :: "day \<Rightarrow> day \<Rightarrow> (day \<times> day) list" where
  "split_date_range start_date end_date =
     split_loop end_date start_date (start_date + span_days) []"

text \<open>
  The same loop written with the library's \<open>while_option\<close>, which is \<open>None\<close> when the
  loop does not terminate: one application of \<open>split_step\<close> is one execution of the
  body (lines 53--59), the state the triple \<^verbatim>\<open>(current_start, current_end, date_ranges)\<close>.
\<close>

definition split_step :: "day \<Rightarrow> day \<times> day \<times> (day \<times> day) list \<Rightarrow> day \<times> day \<times> (day \<times> day) list" where
  "split_step end_date =
     (\<lambda>(current_start, current_end, date_ranges).
        let current_end' = (if current_end > end_date then end_date else current_end)
        in (current_end' + 1, current_end' + 1 + span_days, date_ranges @ [(current_start, current_end')]))"

definition split_date_range_while :: "day \<Rightarrow> day \<Rightarrow> (day \<times> day) list option" where
  "split_date_range_while start_date end_date =
     map_option (\<lambda>(_, _, date_ranges). date_ranges)
       (while_option (\<lambda>st. fst st < end_date) (split_step end_date)
          (start_date, start_date + span_days, []))"

text \<open>The reference: chunk \<open>k\<close> starts at \<open>s + 351 k\<close> and ends 350 days later or at \<open>e\<close>.\<close>

definition chunk_count :: "day \<Rightarrow> day \<Rightarrow> nat" where
  "chunk_count s e = nat ((e - s + span_days) div (span_days + 1))"

definition chunks_ref :: "day \<Rightarrow> day \<Rightarrow> (day \<times> day) list" where
  "chunks_ref s e =
     map (\<lambda>k. (s + (span_days + 1) * int k, min (s + (span_days + 1) * int k + span_days) e))
       [0..<chunk_count s e]"

definition covered :: "(day \<times> day) list \<Rightarrow> day set" where
  "covered rs = (\<Union>(a, b) \<in> set rs. {a..b})"

subsection \<open>The loop computes the reference\<close>

lemma chunk_count_step:
  assumes "s < e"
  shows "chunk_count s e = Suc (chunk_count (min (s + span_days) e + 1) e)"
proof (cases "s + span_days < e")
  case True
  then have "(e - s + span_days) div (span_days + 1)
             = (e - (s + span_days + 1) + span_days) div (span_days + 1) + 1"
    by (simp add: span_days_def)
  moreover have "0 \<le> (e - (s + span_days + 1) + span_days) div (span_days + 1)"
    using True by (simp add: span_days_def)
  ultimately show ?thesis using True by (simp add: chunk_count_def)
next
  case False
  then show ?thesis using assms by (simp add: chunk_count_def span_days_def)
qed

lemma chunks_ref_step:
  assumes "s < e"
  shows "chunks_ref s e = (s, min (s + span_days) e) # chunks_ref (min (s + span_days) e + 1) e"
proof -
  show ?thesis
  proof (cases "s + span_days < e")
    case True
    then show ?thesis
      using chunk_count_step [OF assms]
      by (simp add: chunks_ref_def upt_conv_Cons map_Suc_upt [symmetric] algebra_simps
          del: upt_Suc)
  next
    case False
    then have "chunk_count (min (s + span_days) e + 1) e = 0"
      by (simp add: chunk_count_def span_days_def)
    then show ?thesis
      using chunk_count_step [OF assms] by (simp add: chunks_ref_def)
  qed
qed

lemma chunks_ref_empty: "\<not> s < e \<Longrightarrow> chunks_ref s e = []"
  by (simp add: chunks_ref_def chunk_count_def span_days_def)

lemma split_loop_ref:
  "current_end = current_start + span_days \<Longrightarrow>
   split_loop end_date current_start current_end acc = acc @ chunks_ref current_start end_date"
proof (induction end_date current_start current_end acc rule: split_loop.induct)
  case (1 e s c acc)
  show ?case
  proof (cases "s < e")
    case True
    let ?c' = "min (s + span_days) e"
    from "1.prems" have c: "c = s + span_days" .
    have "split_loop e s c acc = split_loop e (?c' + 1) (?c' + 1 + span_days) (acc @ [(s, ?c')])"
      unfolding c using True
      by (simp add: split_loop.simps [of e s "s + span_days" acc] min_def Let_def)
    also have "\<dots> = (acc @ [(s, ?c')]) @ chunks_ref (?c' + 1) e"
      using "1.IH" True "1.prems" by (simp add: min_def Let_def split: if_splits)
    finally show ?thesis using chunks_ref_step [OF True] by simp
  next
    case False
    then show ?thesis by (simp add: split_loop.simps [of e s c acc] chunks_ref_empty)
  qed
qed

lemma while_split_loop:
  "\<exists>x y. while_option (\<lambda>st. fst st < e) (split_step e) (s, c, acc)
         = Some (x, y, split_loop e s c acc)"
proof (induction e s c acc rule: split_loop.induct)
  case (1 e s c acc)
  show ?case
  proof (cases "s < e")
    case True
    with "1.IH" show ?thesis
      by (subst while_option_unfold, subst split_loop.simps) (simp add: split_step_def Let_def split: if_splits)
  next
    case False
    then show ?thesis
      by (subst while_option_unfold, subst split_loop.simps) simp
  qed
qed

lemma split_date_range_ref: "split_date_range s e = chunks_ref s e"
  by (simp add: split_date_range_def split_loop_ref)

lemma length_chunks_ref: "length (chunks_ref s e) = chunk_count s e"
  by (simp add: chunks_ref_def)

lemma nth_chunks_ref:
  "i < chunk_count s e \<Longrightarrow>
   chunks_ref s e ! i = (s + 351 * int i, min (s + 351 * int i + 350) e)"
  by (simp add: chunks_ref_def span_days_def)

lemma chunk_count_less_iff:
  "i < chunk_count s e \<longleftrightarrow> s + 351 * int i < e"
  by (auto simp: chunk_count_def span_days_def)

lemma in_set_chunks_ref:
  "(a, b) \<in> set (chunks_ref s e) \<longleftrightarrow>
   (\<exists>i. s + 351 * int i < e \<and> a = s + 351 * int i \<and> b = min (s + 351 * int i + 350) e)"
  by (auto simp: in_set_conv_nth length_chunks_ref nth_chunks_ref chunk_count_less_iff)

lemma in_covered: "d \<in> covered rs \<longleftrightarrow> (\<exists>a b. (a, b) \<in> set rs \<and> a \<le> d \<and> d \<le> b)"
  unfolding covered_def by force

lemma last_chunk_end:
  assumes "s + 351 * int i < e" "e \<le> s + 351 * int i + 350"
  shows "(e - s) mod 351 \<noteq> 0"
proof
  assume "(e - s) mod 351 = 0"
  then obtain k where k: "e - s = 351 * k" by (auto simp: mod_eq_0_iff_dvd dvd_def)
  with assms have "int i < k" "k \<le> int i" by linarith+
  then show False by simp
qed

lemma covered_chunks_ref:
  "d \<in> covered (chunks_ref s e) \<longleftrightarrow>
   (\<exists>i. s + 351 * int i < e \<and> s + 351 * int i \<le> d \<and> d \<le> min (s + 351 * int i + 350) e)"
  unfolding in_covered in_set_chunks_ref by blast

lemma covered_chunks_ref_iff:
  "d \<in> covered (chunks_ref s e) \<longleftrightarrow> s \<le> d \<and> (d < e \<or> d = e \<and> (e - s) mod 351 \<noteq> 0)"
proof
  assume "d \<in> covered (chunks_ref s e)"
  then obtain i where i: "s + 351 * int i < e" "s + 351 * int i \<le> d"
    "d \<le> min (s + 351 * int i + 350) e"
    by (auto simp: covered_chunks_ref)
  show "s \<le> d \<and> (d < e \<or> d = e \<and> (e - s) mod 351 \<noteq> 0)"
  proof (cases "d = e")
    case True
    with i show ?thesis using last_chunk_end [of s i e] by simp
  next
    case False
    with i show ?thesis by simp
  qed
next
  assume d: "s \<le> d \<and> (d < e \<or> d = e \<and> (e - s) mod 351 \<noteq> 0)"
  define i where "i = nat ((d - s) div 351)"
  have i: "351 * int i = (d - s) - (d - s) mod 351"
    using d by (simp add: i_def minus_mod_eq_mult_div)
  have m: "0 \<le> (d - s) mod 351" by simp
  have "s + 351 * int i < e"
  proof (cases "d = e")
    case True
    with d have "(d - s) mod 351 \<noteq> 0" by simp
    with m i True show ?thesis by linarith
  next
    case False
    with d m i show ?thesis by linarith
  qed
  moreover have "s + 351 * int i \<le> d" "d \<le> min (s + 351 * int i + 350) e"
    using d i by auto
  ultimately show "d \<in> covered (chunks_ref s e)"
    by (auto simp: covered_chunks_ref)
qed

lemma split_date_range_0_400: "split_date_range 0 400 = [(0, 350), (351, 400)]"
  by (simp add: split_date_range_def split_loop.simps span_days_def)

lemma split_date_range_0_351: "split_date_range 0 351 = [(0, 350)]"
  by (simp add: split_date_range_def split_loop.simps span_days_def)

subsection \<open>Properties of \<^verbatim>\<open>split_date_range\<close>\<close>

text \<open>
  C4. The \<^verbatim>\<open>while\<close> loop of \<^verbatim>\<open>split_date_range\<close> terminates for every pair of
  dates, and returns the list the recursive model computes.
\<close>

theorem split_date_range_terminates:
  "split_date_range_while s e = Some (split_date_range s e)"
proof -
  obtain x y where "while_option (\<lambda>st. fst st < e) (split_step e) (s, s + span_days, [])
                    = Some (x, y, split_loop e s (s + span_days) [])"
    using while_split_loop by blast
  then show ?thesis by (simp add: split_date_range_while_def split_date_range_def)
qed

text \<open>
  C3. The loop of \<^verbatim>\<open>split_date_range\<close> returns exactly the chunks
  \<open>(s + 351 k, min (s + 351 k + 350) e)\<close> for \<open>k = 0, 1, \<dots>\<close> while the chunk start is
  before \<open>e\<close>: the while loop is equivalent to a closed-form reference.
\<close>

theorem split_date_range_closed_form:
  "split_date_range s e =
     map (\<lambda>k. (s + 351 * int k, min (s + 351 * int k + 350) e)) [0..<nat ((e - s + 350) div 351)]"
  by (simp add: split_date_range_ref chunks_ref_def chunk_count_def span_days_def)

text \<open>
  C19. Every chunk lies inside \<open>[start, end]\<close>, starts strictly before \<open>end\<close>, is
  non-empty, and spans at most 350 days (its end is at most 350 days after its start).
\<close>

theorem split_date_range_bounds:
  assumes "(a, b) \<in> set (split_date_range s e)"
  shows "s \<le> a \<and> a < e \<and> a \<le> b \<and> b \<le> e \<and> b - a \<le> 350"
  using assms by (auto simp: split_date_range_ref in_set_chunks_ref)

theorem split_date_range_bounds_witness:
  "(351, 400) \<in> set (split_date_range 0 400) \<and>
   0 \<le> (351::int) \<and> (351::int) < 400 \<and> (351::int) \<le> 400 \<and> (400::int) \<le> 400 \<and> (400::int) - 351 \<le> 350"
  using split_date_range_bounds [of 351 400 0 400] by (simp add: split_date_range_0_400)

text \<open>
  C20. Consecutive chunks are contiguous: the next chunk starts the day after the
  previous one ends.
\<close>

theorem split_date_range_contiguous:
  assumes "Suc i < length (split_date_range s e)"
  shows "fst (split_date_range s e ! Suc i) = snd (split_date_range s e ! i) + 1"
  using assms
  by (simp add: split_date_range_ref length_chunks_ref nth_chunks_ref chunk_count_less_iff)

theorem split_date_range_contiguous_witness:
  "Suc 0 < length (split_date_range 0 400) \<and>
   fst (split_date_range 0 400 ! Suc 0) = snd (split_date_range 0 400 ! 0) + 1"
  using split_date_range_contiguous [of 0 0 400] by (simp add: split_date_range_0_400)

text \<open>
  C21. The chunks are ordered and pairwise disjoint: every chunk ends before any later
  chunk starts.
\<close>

theorem split_date_range_disjoint:
  "sorted_wrt (\<lambda>(a, b) (c, d). b < c) (split_date_range s e)"
proof -
  have "b < c" if "i < j" "j < chunk_count s e" "chunks_ref s e ! i = (a, b)"
    "chunks_ref s e ! j = (c, d)" for i j a b c d
    using that by (auto simp: nth_chunks_ref)
  then show ?thesis
    by (force simp: split_date_range_ref sorted_wrt_iff_nth_less length_chunks_ref
        split: prod.splits)
qed

text \<open>
  C22. The number of chunks is \<open>\<lceil>(end - start) / 351\<rceil>\<close> (zero when
  \<open>end \<le> start\<close>), not the \<open>\<lceil>(end - start + 1) / 351\<rceil>\<close> of the specification.
\<close>

theorem split_date_range_length:
  "length (split_date_range s e) = nat ((e - s + 350) div 351)"
  by (simp add: split_date_range_ref length_chunks_ref chunk_count_def span_days_def)

text \<open>
  C11. The chunks cover every day from \<open>start\<close> to the day before \<open>end\<close>; the day
  \<open>end\<close> itself is covered only when \<open>end - start\<close> is not a multiple of 351. When it is,
  the loop stops with \<open>current_start = end\<close> and the last day is never requested.
\<close>

theorem split_date_range_coverage:
  "d \<in> covered (split_date_range s e) \<longleftrightarrow>
   s \<le> d \<and> (d < e \<or> d = e \<and> (e - s) mod 351 \<noteq> 0)"
  by (simp add: split_date_range_ref covered_chunks_ref_iff)

theorem split_date_range_coverage_witness:
  "350 \<in> covered (split_date_range 0 351) \<and> 351 \<notin> covered (split_date_range 0 351)"
  using split_date_range_coverage [of 350 0 351] split_date_range_coverage [of 351 0 351] by simp

text \<open>
  C23. A range with \<open>end \<le> start\<close>, in particular a one-day range, yields no chunk at
  all, so \<^verbatim>\<open>run\<close> requests nothing for it.
\<close>

theorem split_date_range_empty:
  assumes "\<not> s < e"
  shows "split_date_range s e = []"
  using assms by (simp add: split_date_range_ref chunks_ref_empty)

theorem split_date_range_empty_witness: "\<not> (5::int) < 5 \<and> split_date_range 5 5 = []"
  using split_date_range_empty [of 5 5] by simp

end
