(* ===== verification/Frame.thy ===== *)
theory Frame
  imports Prelude
begin

text \<open>
  The part of pandas that \<^verbatim>\<open>src/main.py\<close> relies on, modelled from pandas' documented
  behaviour (it is a library the program calls, not code of the repository). A
  \<^verbatim>\<open>DataFrame\<close> is a list of labelled columns, in column order; a cell is a value
  or \<open>None\<close> for NaN. The operations are the ones \<^verbatim>\<open>run\<close> uses:
  \<^item> \<open>frame_empty\<close>: \<^verbatim>\<open>df.empty\<close>;
  \<^item> \<open>get_columns\<close>: \<^verbatim>\<open>df[[l1, l2, ...]]\<close>, \<open>KeyError\<close> on a missing label;
  \<^item> \<open>rename_col\<close>: \<^verbatim>\<open>df.rename(columns={old: new})\<close>;
  \<^item> \<open>set_column\<close>: \<^verbatim>\<open>df[l] = values\<close> (overwrite in place, or append);
  \<^item> \<open>drop_columns\<close>: \<^verbatim>\<open>df.drop(labels, axis=1)\<close>, \<open>KeyError\<close> on a missing label;
  \<^item> \<open>merge_outer\<close>: \<^verbatim>\<open>left.merge(right, on='date', how='outer')\<close>: the right key
    column is dropped, labels present on both sides get the suffixes \<^verbatim>\<open>_x\<close> and
    \<^verbatim>\<open>_y\<close>, a suffix that creates a new duplicate label raises \<open>MergeError\<close>,
    and the rows are the keys of both sides in sorted order, one row per matching pair
    of rows and one NaN-padded row per unmatched row.
\<close>

datatype val = VDate day | VInt int | VNum real

text \<open>
  Join keys are sorted. Only dates occur as keys in the program; the order across
  constructors is arbitrary (Python would refuse to compare a date with a number).
\<close>

instantiation val :: linorder
begin

fun less_eq_val :: "val \<Rightarrow> val \<Rightarrow> bool" where
  "less_eq_val (VDate a) (VDate b) = (a \<le> b)"
| "less_eq_val (VDate _) _ = True"
| "less_eq_val (VInt _) (VDate _) = False"
| "less_eq_val (VInt a) (VInt b) = (a \<le> b)"
| "less_eq_val (VInt _) (VNum _) = True"
| "less_eq_val (VNum a) (VNum b) = (a \<le> b)"
| "less_eq_val (VNum _) _ = False"

definition less_val :: "val \<Rightarrow> val \<Rightarrow> bool" where
  "less_val a b \<longleftrightarrow> a \<le> b \<and> \<not> b \<le> a"

instance
proof
  fix x y z :: val
  show "x < y \<longleftrightarrow> x \<le> y \<and> \<not> y \<le> x" by (simp add: less_val_def)
  show "x \<le> x" by (cases x) simp_all
  show "x \<le> y \<Longrightarrow> y \<le> z \<Longrightarrow> x \<le> z" by (cases x; cases y; cases z) simp_all
  show "x \<le> y \<Longrightarrow> y \<le> x \<Longrightarrow> x = y" by (cases x; cases y) simp_all
  show "x \<le> y \<or> y \<le> x" by (cases x; cases y) auto
qed

end

type_synonym cell = "val option"
type_synonym column = "string \<times> cell list"
type_synonym frame = "column list"

definition date_label :: string where
  "date_label = ''date''"

definition columns :: "frame \<Rightarrow> string list" where
  "columns f = map fst f"

definition nrows :: "frame \<Rightarrow> nat" where
  "nrows f = (case f of [] \<Rightarrow> 0 | c # _ \<Rightarrow> length (snd c))"

definition frame_wf :: "frame \<Rightarrow> bool" where
  "frame_wf f \<longleftrightarrow> list_all (\<lambda>c. length (snd c) = nrows f) f"

definition frame_empty :: "frame \<Rightarrow> bool" where
  "frame_empty f \<longleftrightarrow> f = [] \<or> nrows f = 0"

definition missing_labels :: "frame \<Rightarrow> string list \<Rightarrow> string list" where
  "missing_labels f ls = filter (\<lambda>l. l \<notin> set (columns f)) ls"

definition get_columns :: "frame \<Rightarrow> string list \<Rightarrow> pyerr + frame" where
  "get_columns f ls =
     (if missing_labels f ls \<noteq> [] then Inl (KeyError (missing_labels f ls))
      else Inr (concat (map (\<lambda>l. filter (\<lambda>c. fst c = l) f) ls)))"

definition rename_col :: "string \<Rightarrow> string \<Rightarrow> frame \<Rightarrow> frame" where
  "rename_col old new f = map (\<lambda>(l, c). (if l = old then new else l, c)) f"

definition set_column :: "string \<Rightarrow> cell list \<Rightarrow> frame \<Rightarrow> frame" where
  "set_column l vs f =
     (if l \<in> set (columns f) then map (\<lambda>(l', c). if l' = l then (l', vs) else (l', c)) f
      else f @ [(l, vs)])"

definition drop_columns :: "string list \<Rightarrow> frame \<Rightarrow> pyerr + frame" where
  "drop_columns ls f =
     (if missing_labels f ls \<noteq> [] then Inl (KeyError (missing_labels f ls))
      else Inr (filter (\<lambda>c. fst c \<notin> set ls) f))"

subsection \<open>The outer merge on \<^verbatim>\<open>date\<close>\<close>

text \<open>The cells of the (first) \<^verbatim>\<open>date\<close> column: the join keys.\<close>

definition key_cells :: "frame \<Rightarrow> cell list" where
  "key_cells f = (case filter (\<lambda>c. fst c = date_label) f of [] \<Rightarrow> [] | c # _ \<Rightarrow> snd c)"

definition value_columns :: "frame \<Rightarrow> frame" where
  "value_columns f = filter (\<lambda>c. fst c \<noteq> date_label) f"

definition positions :: "cell \<Rightarrow> cell list \<Rightarrow> nat list" where
  "positions k ks = filter (\<lambda>i. ks ! i = k) [0..<length ks]"

definition join_key :: "cell \<Rightarrow> nat list \<Rightarrow> nat list \<Rightarrow> (cell \<times> nat option \<times> nat option) list" where
  "join_key k ls rs =
     (if rs = [] then map (\<lambda>i. (k, Some i, None)) ls
      else if ls = [] then map (\<lambda>j. (k, None, Some j)) rs
      else concat (map (\<lambda>i. map (\<lambda>j. (k, Some i, Some j)) rs) ls))"

text \<open>
  One output row per pair of matching rows, keys in sorted order; a row carries its key
  and the row index it takes from each side (\<open>None\<close>: padded with NaN).
\<close>

definition join_rows :: "cell list \<Rightarrow> cell list \<Rightarrow> (cell \<times> nat option \<times> nat option) list" where
  "join_rows lk rk =
     concat (map (\<lambda>k. join_key k (positions k lk) (positions k rk)) (sort (remdups (lk @ rk))))"

definition pick :: "cell list \<Rightarrow> nat option list \<Rightarrow> cell list" where
  "pick c idx = map (\<lambda>i. case i of None \<Rightarrow> None | Some i \<Rightarrow> c ! i) idx"

definition suffix_labels :: "string list \<Rightarrow> string list \<Rightarrow> string \<Rightarrow> string list" where
  "suffix_labels ls overlap sfx = map (\<lambda>l. if l \<in> set overlap then l @ sfx else l) ls"

text \<open>
  pandas' check on the suffixed labels: a label that is a duplicate after suffixing
  (a later occurrence of an earlier label) but was not one before.
\<close>

definition new_dups :: "string list \<Rightarrow> string list \<Rightarrow> string list" where
  "new_dups orig renamed =
     map (\<lambda>i. renamed ! i)
       (filter (\<lambda>i. renamed ! i \<in> set (take i renamed) \<and> orig ! i \<notin> set (take i orig))
          [0..<length renamed])"

definition merge_overlap :: "frame \<Rightarrow> frame \<Rightarrow> string list" where
  "merge_overlap L R = filter (\<lambda>l. l \<in> set (columns (value_columns R))) (columns L)"

definition merge_rows :: "frame \<Rightarrow> frame \<Rightarrow> (cell \<times> nat option \<times> nat option) list" where
  "merge_rows L R = join_rows (key_cells L) (key_cells R)"

definition merge_outer :: "frame \<Rightarrow> frame \<Rightarrow> pyerr + frame" where
  "merge_outer L R =
     (if date_label \<notin> set (columns L) \<or> date_label \<notin> set (columns R)
      then Inl (KeyError [date_label])
      else
        let R' = value_columns R;
            overlap = merge_overlap L R;
            ll = suffix_labels (columns L) overlap ''_x'';
            rl = suffix_labels (columns R') overlap ''_y'';
            dups = new_dups (columns L) ll @ new_dups (columns R') rl
        in if dups \<noteq> [] then Inl (MergeError dups)
           else
             let rows = merge_rows L R;
                 keys = map fst rows;
                 li = map (fst \<circ> snd) rows;
                 ri = map (snd \<circ> snd) rows
             in Inr (map2 (\<lambda>l c. (l, if fst c = date_label then keys else pick (snd c) li)) ll L
                     @ map2 (\<lambda>l c. (l, pick (snd c) ri)) rl R'))"

text \<open>Reading a table through its key column: the row index of a key, and the cell of a column there.\<close>

definition key_index :: "cell \<Rightarrow> cell list \<Rightarrow> nat option" where
  "key_index k ks = (case positions k ks of [] \<Rightarrow> None | i # _ \<Rightarrow> Some i)"

definition cell_in :: "cell list \<Rightarrow> cell list \<Rightarrow> cell \<Rightarrow> cell option" where
  "cell_in ks c k = (case key_index k ks of None \<Rightarrow> None | Some i \<Rightarrow> Some (c ! i))"

text \<open>The two frames of the specification's merge example (section 8).\<close>

abbreviation ex_left :: frame where
  "ex_left \<equiv> [(''date'', [Some (VDate 1), Some (VDate 2)]), (''A'', [Some (VNum 10), Some (VNum 20)])]"

abbreviation ex_right :: frame where
  "ex_right \<equiv> [(''date'', [Some (VDate 2), Some (VDate 3)]), (''B'', [Some (VNum 21), Some (VNum 30)])]"

subsection \<open>Lemmas on keys and positions\<close>

lemma set_positions: "set (positions k ks) = {i. i < length ks \<and> ks ! i = k}"
  by (auto simp: positions_def)

lemma positions_notin: "k \<notin> set ks \<Longrightarrow> positions k ks = []"
  by (auto simp: positions_def filter_empty_conv in_set_conv_nth)

lemma filter_eq_upt: "filter (\<lambda>j. j = i) [0..<n] = (if i < n then [i] else [])"
  by (induction n) auto

lemma positions_nth_distinct:
  assumes "distinct ks" "i < length ks"
  shows "positions (ks ! i) ks = [i]"
proof -
  have "positions (ks ! i) ks = filter (\<lambda>j. j = i) [0..<length ks]"
    unfolding positions_def
    by (rule filter_cong) (use assms in \<open>auto simp: nth_eq_iff_index_eq\<close>)
  with assms show ?thesis by (simp add: filter_eq_upt)
qed

lemma key_index_None [simp]: "key_index k ks = None \<longleftrightarrow> k \<notin> set ks"
proof
  assume "key_index k ks = None"
  then have "positions k ks = []" by (simp add: key_index_def split: list.splits)
  then show "k \<notin> set ks" by (auto simp: positions_def filter_empty_conv in_set_conv_nth)
next
  assume "k \<notin> set ks"
  then show "key_index k ks = None" by (simp add: key_index_def positions_notin)
qed

lemma key_index_None_sym [simp]: "None = key_index k ks \<longleftrightarrow> k \<notin> set ks"
  by (metis key_index_None)

lemma key_index_Some: "key_index k ks = Some i \<Longrightarrow> i < length ks \<and> ks ! i = k"
proof -
  assume "key_index k ks = Some i"
  then have "i \<in> set (positions k ks)" by (auto simp: key_index_def split: list.splits)
  then show ?thesis by (simp add: set_positions)
qed

lemma key_index_Some_in: "key_index k ks = Some i \<Longrightarrow> k \<in> set ks"
  using key_index_Some nth_mem by metis

lemma key_index_nth_distinct:
  "distinct ks \<Longrightarrow> i < length ks \<Longrightarrow> key_index (ks ! i) ks = Some i"
  by (simp add: key_index_def positions_nth_distinct)

lemma positions_distinct:
  assumes "distinct ks"
  shows "positions k ks = (case key_index k ks of None \<Rightarrow> [] | Some i \<Rightarrow> [i])"
proof (cases "k \<in> set ks")
  case True
  then obtain i where "i < length ks" "k = ks ! i" by (auto simp: in_set_conv_nth)
  with assms show ?thesis by (simp add: positions_nth_distinct key_index_nth_distinct)
next
  case False
  then show ?thesis by (simp add: positions_notin key_index_def)
qed

lemma join_rows_distinct:
  assumes "distinct lk" "distinct rk"
  shows "join_rows lk rk = map (\<lambda>k. (k, key_index k lk, key_index k rk)) (sort (remdups (lk @ rk)))"
proof -
  have "join_key k (positions k lk) (positions k rk) = [(k, key_index k lk, key_index k rk)]"
    if "k \<in> set (lk @ rk)" for k
    using that assms
    by (auto simp: join_key_def positions_distinct split: option.splits)
  then show ?thesis
    unfolding join_rows_def by (intro concat_map_singleton) simp
qed

lemma merge_outer_ex:
  "merge_outer ex_left ex_right =
   Inr [(''date'', [Some (VDate 1), Some (VDate 2), Some (VDate 3)]),
        (''A'', [Some (VNum 10), Some (VNum 20), None]),
        (''B'', [None, Some (VNum 21), Some (VNum 30)])]"
  by (simp add: merge_outer_def merge_overlap_def merge_rows_def columns_def value_columns_def
      date_label_def suffix_labels_def new_dups_def join_rows_def key_cells_def positions_def
      join_key_def pick_def)

lemma key_cells_ex [simp]:
  "key_cells ex_left = [Some (VDate 1), Some (VDate 2)]"
  "key_cells ex_right = [Some (VDate 2), Some (VDate 3)]"
  "key_cells [(''date'', [Some (VDate 1), Some (VDate 2), Some (VDate 3)]),
        (''A'', [Some (VNum 10), Some (VNum 20), None]),
        (''B'', [None, Some (VNum 21), Some (VNum 30)])] = [Some (VDate 1), Some (VDate 2), Some (VDate 3)]"
  by (simp_all add: key_cells_def date_label_def)

subsection \<open>Shape of a successful merge\<close>

lemma suffix_ne_date [simp]: "l @ ''_x'' \<noteq> date_label" "l @ ''_y'' \<noteq> date_label"
proof -
  have "last (l @ ''_x'') \<noteq> last date_label" "last (l @ ''_y'') \<noteq> last date_label"
    by (simp_all add: date_label_def)
  then show "l @ ''_x'' \<noteq> date_label" "l @ ''_y'' \<noteq> date_label" by metis+
qed

lemma date_ne_suffix [simp]: "date_label \<noteq> l @ ''_x''" "date_label \<noteq> l @ ''_y''"
  using suffix_ne_date by metis+

lemma date_ne_suffix_assoc [simp]:
  "date_label \<noteq> l @ m @ ''_x''" "date_label \<noteq> l @ m @ ''_y''"
  "l @ m @ ''_x'' \<noteq> date_label" "l @ m @ ''_y'' \<noteq> date_label"
  using date_ne_suffix [of "l @ m"] suffix_ne_date [of "l @ m"] by simp_all

lemma date_notin_value_columns [simp]: "date_label \<notin> set (columns (value_columns R))"
  by (auto simp: columns_def value_columns_def)

lemma date_notin_overlap [simp]: "date_label \<notin> set (merge_overlap L R)"
  by (simp add: merge_overlap_def)

lemma merge_outer_Inr:
  "merge_outer L R = Inr M \<longleftrightarrow>
   date_label \<in> set (columns L) \<and> date_label \<in> set (columns R) \<and>
   new_dups (columns L) (suffix_labels (columns L) (merge_overlap L R) ''_x'') = [] \<and>
   new_dups (columns (value_columns R))
     (suffix_labels (columns (value_columns R)) (merge_overlap L R) ''_y'') = [] \<and>
   M = map (\<lambda>c. (if fst c \<in> set (merge_overlap L R) then fst c @ ''_x'' else fst c,
                  if fst c = date_label then map fst (merge_rows L R)
                  else pick (snd c) (map (fst \<circ> snd) (merge_rows L R)))) L
     @ map (\<lambda>c. (if fst c \<in> set (merge_overlap L R) then fst c @ ''_y'' else fst c,
                  pick (snd c) (map (snd \<circ> snd) (merge_rows L R)))) (value_columns R)"
  by (auto simp: merge_outer_def suffix_labels_def columns_def map2_map_same Let_def)

lemma merge_outer_length:
  "merge_outer L R = Inr M \<Longrightarrow> length M = length L + length (value_columns R)"
  by (simp add: merge_outer_Inr)

lemma merge_outer_nth_left:
  "merge_outer L R = Inr M \<Longrightarrow> p < length L \<Longrightarrow> fst (L ! p) \<noteq> date_label \<Longrightarrow>
   snd (M ! p) = pick (snd (L ! p)) (map (fst \<circ> snd) (merge_rows L R))"
  by (simp add: merge_outer_Inr nth_append)

lemma merge_outer_nth_right:
  "merge_outer L R = Inr M \<Longrightarrow> q < length (value_columns R) \<Longrightarrow>
   snd (M ! (length L + q)) = pick (snd (value_columns R ! q)) (map (snd \<circ> snd) (merge_rows L R))"
  by (simp add: merge_outer_Inr nth_append)

lemma merge_outer_cell_lengths:
  "merge_outer L R = Inr M \<Longrightarrow> c \<in> set M \<Longrightarrow> length (snd c) = length (merge_rows L R)"
  by (auto simp: merge_outer_Inr pick_def)

lemma merge_outer_nonempty: "merge_outer L R = Inr M \<Longrightarrow> M \<noteq> []"
  by (auto simp: merge_outer_Inr columns_def)

lemma merge_outer_nrows: "merge_outer L R = Inr M \<Longrightarrow> nrows M = length (merge_rows L R)"
  using merge_outer_nonempty merge_outer_cell_lengths
  by (fastforce simp: nrows_def split: list.splits)

lemma merge_outer_key_cells:
  assumes M: "merge_outer L R = Inr M"
  shows "key_cells M = map fst (merge_rows L R)"
proof -
  let ?ov = "merge_overlap L R" and ?rows = "merge_rows L R"
  let ?h = "\<lambda>c. (if fst c \<in> set ?ov then fst c @ ''_x'' else fst c,
                  if fst c = date_label then map fst ?rows
                  else pick (snd c) (map (fst \<circ> snd) ?rows))"
  let ?g = "\<lambda>c. (if fst c \<in> set ?ov then fst c @ ''_y'' else fst c,
                  pick (snd c) (map (snd \<circ> snd) ?rows))"
  from M have Meq: "M = map ?h L @ map ?g (value_columns R)" and d: "date_label \<in> set (columns L)"
    by (simp_all add: merge_outer_Inr)
  have left: "filter (\<lambda>c. fst c = date_label) (map ?h L) = map ?h (filter (\<lambda>c. fst c = date_label) L)"
    unfolding filter_map by (rule arg_cong [where f = "map ?h"], rule filter_cong) auto
  have right: "filter (\<lambda>c. fst c = date_label) (map ?g (value_columns R)) = []"
    by (auto simp: filter_empty_conv value_columns_def)
  from d have "filter (\<lambda>c. fst c = date_label) L \<noteq> []"
    by (force simp: columns_def filter_empty_conv)
  then obtain c0 cs where c0: "filter (\<lambda>c. fst c = date_label) L = c0 # cs"
    by (meson neq_Nil_conv)
  then have "c0 \<in> set (filter (\<lambda>c. fst c = date_label) L)" by simp
  then have "fst c0 = date_label" by simp
  with c0 show ?thesis by (simp add: key_cells_def Meq left right)
qed

text \<open>
  A successful merge is always rectangular: every column of the result has one
  cell per output row, whatever the shapes of the inputs.
\<close>

lemma merge_outer_frame_wf:
  "merge_outer L R = Inr M \<Longrightarrow> frame_wf M"
  by (simp add: frame_wf_def list_all_iff merge_outer_nrows merge_outer_cell_lengths)

lemma merge_rows_distinct:
  "distinct (key_cells L) \<Longrightarrow> distinct (key_cells R) \<Longrightarrow>
   merge_rows L R = map (\<lambda>k. (k, key_index k (key_cells L), key_index k (key_cells R)))
                      (sort (remdups (key_cells L @ key_cells R)))"
  by (simp add: merge_rows_def join_rows_distinct)

lemma cell_in_pick:
  assumes "distinct K"
  shows "cell_in K (pick c (map (\<lambda>k. key_index k ks) K)) k =
         (if k \<in> set K then Some (case key_index k ks of None \<Rightarrow> None | Some i \<Rightarrow> c ! i) else None)"
proof (cases "k \<in> set K")
  case True
  then obtain q where q: "q < length K" "K ! q = k" by (auto simp: in_set_conv_nth)
  with assms have "key_index k K = Some q" using key_index_nth_distinct by blast
  with q True show ?thesis by (simp add: cell_in_def pick_def)
next
  case False
  then show ?thesis by (simp add: cell_in_def key_index_def positions_notin)
qed

lemma cell_in_as_case:
  "cell_in ks c k = (case key_index k ks of None \<Rightarrow> None | Some i \<Rightarrow> Some (c ! i))"
  by (simp add: cell_in_def)

subsection \<open>Properties of the outer merge\<close>

text \<open>
  When both sides have unique dates, the merged key column is the sorted list of
  the dates of either side, each once: an outer join on \<open>date\<close>.
\<close>

lemma merge_outer_keys:
  assumes "distinct (key_cells L)" "distinct (key_cells R)" "merge_outer L R = Inr M"
  shows "key_cells M = sort (remdups (key_cells L @ key_cells R))"
  using assms by (simp add: merge_outer_key_cells merge_rows_distinct comp_def)

text \<open>
  A value column of the left frame keeps its value at every date of the left
  frame, is missing (NaN) at dates only the right frame has, and has no row for
  other dates.
\<close>

lemma merge_outer_left_values:
  assumes "distinct (key_cells L)" "distinct (key_cells R)" "merge_outer L R = Inr M"
    and "p < length L" "fst (L ! p) \<noteq> date_label"
  shows "cell_in (key_cells M) (snd (M ! p)) k =
         (if k \<in> set (key_cells L) then cell_in (key_cells L) (snd (L ! p)) k
          else if k \<in> set (key_cells R) then Some None else None)"
proof -
  let ?K = "sort (remdups (key_cells L @ key_cells R))"
  have "cell_in (key_cells M) (snd (M ! p)) k =
        cell_in ?K (pick (snd (L ! p)) (map (\<lambda>k. key_index k (key_cells L)) ?K)) k"
    using assms by (simp add: merge_outer_key_cells merge_outer_nth_left merge_rows_distinct comp_def)
  also have "\<dots> = (if k \<in> set ?K then Some (case key_index k (key_cells L) of None \<Rightarrow> None
                                         | Some i \<Rightarrow> snd (L ! p) ! i) else None)"
    by (simp add: cell_in_pick)
  finally show ?thesis by (auto simp: cell_in_as_case dest: key_index_Some_in split: option.splits)
qed

text \<open>
  Symmetrically, a value column of the right frame (placed after all left columns)
  keeps its value at every date of the right frame and is NaN at dates only the left
  frame has.
\<close>

lemma merge_outer_right_values:
  assumes "distinct (key_cells L)" "distinct (key_cells R)" "merge_outer L R = Inr M"
    and "q < length (value_columns R)"
  shows "cell_in (key_cells M) (snd (M ! (length L + q))) k =
         (if k \<in> set (key_cells R) then cell_in (key_cells R) (snd (value_columns R ! q)) k
          else if k \<in> set (key_cells L) then Some None else None)"
proof -
  let ?K = "sort (remdups (key_cells L @ key_cells R))"
  have "cell_in (key_cells M) (snd (M ! (length L + q))) k =
        cell_in ?K (pick (snd (value_columns R ! q)) (map (\<lambda>k. key_index k (key_cells R)) ?K)) k"
    using assms by (simp add: merge_outer_key_cells merge_outer_nth_right merge_rows_distinct comp_def)
  also have "\<dots> = (if k \<in> set ?K then Some (case key_index k (key_cells R) of None \<Rightarrow> None
                                         | Some i \<Rightarrow> snd (value_columns R ! q) ! i) else None)"
    by (simp add: cell_in_pick)
  finally show ?thesis by (auto simp: cell_in_as_case dest: key_index_Some_in split: option.splits)
qed

text \<open>
  The labels of a merge: the left labels in order, then the right labels without
  \<^verbatim>\<open>date\<close>; a label present on both sides is renamed with \<^verbatim>\<open>_x\<close> on the left
  and \<^verbatim>\<open>_y\<close> on the right, so both columns survive.
\<close>

lemma merge_outer_columns:
  assumes "merge_outer L R = Inr M"
  shows "columns M = suffix_labels (columns L) (merge_overlap L R) ''_x''
                     @ suffix_labels (columns (value_columns R)) (merge_overlap L R) ''_y''"
  using assms by (simp add: merge_outer_Inr columns_def suffix_labels_def comp_def)

text \<open>
  A merge fails exactly when a side has no \<^verbatim>\<open>date\<close> column (\<open>KeyError\<close>) or
  when suffixing creates a label that duplicates an earlier one (\<open>MergeError\<close>).
\<close>

lemma merge_outer_error:
  "merge_outer L R = Inl e \<longleftrightarrow>
   (if date_label \<notin> set (columns L) \<or> date_label \<notin> set (columns R)
    then e = KeyError [date_label]
    else (let dups = new_dups (columns L) (suffix_labels (columns L) (merge_overlap L R) ''_x'')
                     @ new_dups (columns (value_columns R))
                         (suffix_labels (columns (value_columns R)) (merge_overlap L R) ''_y'')
          in dups \<noteq> [] \<and> e = MergeError dups))"
  by (auto simp: merge_outer_def Let_def)

subsection \<open>Merges of non-empty frames\<close>

lemma join_rows_nonempty: "lk \<noteq> [] \<Longrightarrow> join_rows lk rk \<noteq> []"
proof -
  assume "lk \<noteq> []"
  then obtain k where k: "k \<in> set lk" by (cases lk) auto
  then have "positions k lk \<noteq> []" by (auto simp: set_positions in_set_conv_nth simp flip: set_empty)
  then have "join_key k (positions k lk) (positions k rk) \<noteq> []"
    by (auto simp: join_key_def neq_Nil_conv)
  with k show ?thesis by (auto simp: join_rows_def)
qed

lemma merge_outer_not_empty:
  "merge_outer L R = Inr M \<Longrightarrow> key_cells L \<noteq> [] \<Longrightarrow> \<not> frame_empty M \<and> key_cells M \<noteq> []"
  by (simp add: frame_empty_def merge_outer_nrows merge_outer_key_cells merge_rows_def join_rows_nonempty
      merge_outer_nonempty)

lemma columns_three:
  "columns M = [a, b, c] \<Longrightarrow> \<exists>x y z. M = [(a, x), (b, y), (c, z)]"
  by (cases M rule: remdups_adj.cases; cases "tl (tl M)") (auto simp: columns_def)

lemma columns_four:
  "columns M = [a, b, c, d] \<Longrightarrow> \<exists>x y z w. M = [(a, x), (b, y), (c, z), (d, w)]"
  by (cases M rule: remdups_adj.cases; cases "tl (tl M)") (auto simp: columns_def)

lemma columns_five:
  "columns M = [a, b, c, d, e] \<Longrightarrow> \<exists>x y z w v. M = [(a, x), (b, y), (c, z), (d, w), (e, v)]"
  by (cases M rule: remdups_adj.cases; cases "tl (tl M)"; cases "tl (tl (tl M))") (auto simp: columns_def)

lemma key_cells_date_first [simp]: "key_cells ((date_label, K) # f) = K"
  by (simp add: key_cells_def)

end
