(* ===== verification/Float64.thy ===== *)
theory Float64
  imports Main "HOL-Library.Log_Nat"
begin

text \<open>
  Python's \<^verbatim>\<open>float\<close> is an IEEE 754 binary64 number: every arithmetic operation and
  every conversion from \<^verbatim>\<open>int\<close> returns the exact result rounded to the nearest
  number with a 53-bit significand, ties to the even significand. The operands of the
  program are rationals, so the rounding is an executable function on \<open>rat\<close>: the
  binary exponent \<open>fexp q\<close> of a positive \<open>q\<close> comes from the bit lengths of its
  numerator and denominator, the spacing of the doubles there is
  \<open>ulp q = 2 powi (fexp q - 52)\<close>, and \<open>q / ulp q\<close> is rounded to an integer.
  Overflow and subnormals are not modelled: the values converted here (an
  \<^verbatim>\<open>int64\<close> and a fraction of at least \<open>10\<^sup>-\<^sup>9\<close>) are far from both limits.
\<close>

definition fexp :: "rat \<Rightarrow> int" where
  "fexp q = (let (a, b) = quotient_of q; e = bitlen a - bitlen b
             in if 2 powi e \<le> q then e else e - 1)"

definition round_even :: "rat \<Rightarrow> int" where
  "round_even q = (let f = \<lfloor>q\<rfloor>; d = q - of_int f
     in if d < 1/2 then f else if 1/2 < d then f + 1 else if even f then f else f + 1)"

definition ulp :: "rat \<Rightarrow> rat" where
  "ulp q = 2 powi (fexp q - 52)"

definition round_pos :: "rat \<Rightarrow> rat" where
  "round_pos q = of_int (round_even (q / ulp q)) * ulp q"

definition round_double :: "rat \<Rightarrow> rat" where
  "round_double q = (if q = 0 then 0 else if 0 < q then round_pos q else - round_pos (- q))"

subsection \<open>The exponent\<close>

lemma powi_bitlen:
  assumes "0 < a"
  shows "2 powi (bitlen a - 1) \<le> (of_int a :: rat) \<and> (of_int a :: rat) < 2 powi bitlen a"
proof -
  have b: "2 ^ nat (bitlen a - 1) \<le> a" "a < 2 ^ nat (bitlen a)" using bitlen_bounds [OF assms] by auto
  have "1 \<le> bitlen a" using assms by (simp add: bitlen_alt_def)
  then have "2 powi (bitlen a - 1) = (of_int (2 ^ nat (bitlen a - 1)) :: rat)"
    "2 powi bitlen a = (of_int (2 ^ nat (bitlen a)) :: rat)"
    by (simp_all add: power_int_def)
  with b show ?thesis by (simp only: of_int_le_iff of_int_less_iff)
qed

lemma fexp_bounds:
  assumes "0 < q"
  shows "2 powi fexp q \<le> q \<and> q < 2 powi (fexp q + 1)"
proof -
  obtain a b where ab: "quotient_of q = (a, b)" by (cases "quotient_of q")
  then have q: "q = of_int a / of_int b" and b: "0 < b"
    by (simp_all add: quotient_of_div quotient_of_denom_pos)
  with assms have a: "0 < a" by (simp add: zero_less_divide_iff)
  note pa = powi_bitlen [OF a] and pb = powi_bitlen [OF b]
  let ?e = "bitlen a - bitlen b"
  have lo: "2 powi (?e - 1) \<le> q"
  proof -
    have "2 powi (?e - 1) = (2 powi (bitlen a - 1) / 2 powi bitlen b :: rat)"
      by (simp add: power_int_diff)
    also have "\<dots> \<le> of_int a / of_int b"
      using pa pb a b by (intro frac_le) auto
    finally show ?thesis by (simp add: q)
  qed
  have hi: "q < 2 powi (?e + 1)"
  proof -
    have "(of_int a / of_int b :: rat) < 2 powi bitlen a / 2 powi (bitlen b - 1)"
      using pa pb a b by (intro frac_less) auto
    also have "\<dots> = 2 powi (?e + 1)"
      by (simp add: power_int_diff power_int_add algebra_simps)
    finally show ?thesis by (simp add: q)
  qed
  have f: "fexp q = (if 2 powi ?e \<le> q then ?e else ?e - 1)"
    by (simp add: fexp_def ab)
  show ?thesis
  proof (cases "2 powi ?e \<le> q")
    case True
    with hi f show ?thesis by simp
  next
    case False
    with lo f show ?thesis by simp
  qed
qed

lemma fexp_unique:
  assumes "2 powi e \<le> q" "q < 2 powi (e + 1)"
  shows "fexp q = e"
proof -
  have q: "0 < q" using assms(1) by (rule less_le_trans [rotated]) simp
  note fb = fexp_bounds [OF q]
  have "\<not> fexp q < e"
  proof
    assume "fexp q < e"
    then have "(2::rat) powi (fexp q + 1) \<le> 2 powi e" by (intro power_int_increasing) auto
    with fb assms show False by simp
  qed
  moreover have "\<not> e < fexp q"
  proof
    assume "e < fexp q"
    then have "(2::rat) powi (e + 1) \<le> 2 powi fexp q" by (intro power_int_increasing) auto
    with fb assms show False by simp
  qed
  ultimately show ?thesis by simp
qed

subsection \<open>Rounding to an integer\<close>

lemma round_even_err: "\<bar>of_int (round_even q) - q\<bar> \<le> 1/2"
proof -
  have "of_int \<lfloor>q\<rfloor> \<le> q" "q < of_int \<lfloor>q\<rfloor> + 1" by linarith+
  then show ?thesis by (auto simp: round_even_def Let_def)
qed

lemma round_even_near:
  assumes "\<bar>q - of_int m\<bar> < 1/2"
  shows "round_even q = m"
proof -
  have "\<bar>of_int (round_even q) - of_int m\<bar> < (1 :: rat)"
    using round_even_err [of q] assms by linarith
  then have "\<bar>round_even q - m\<bar> < 1" by linarith
  then show ?thesis by simp
qed

lemma round_even_mono:
  assumes "q \<le> r"
  shows "round_even q \<le> round_even r"
proof (cases "q = r")
  case False
  with assms have "q < r" by simp
  then have "of_int (round_even q) < (of_int (round_even r) + 1 :: rat)"
    using round_even_err [of q] round_even_err [of r] by linarith
  then show ?thesis by linarith
qed simp

subsection \<open>Rounding to a double\<close>

lemma ulp_pos [simp]: "0 < ulp q"
  by (simp add: ulp_def)

lemma ulp_nonzero [simp]: "ulp q \<noteq> 0"
  by (simp add: ulp_def)

lemma ulp_eq: "2 powi fexp q = 2 ^ 52 * ulp q"
  by (simp add: ulp_def power_int_diff)

lemma round_pos_eq:
  assumes "\<bar>x - of_int m * ulp x\<bar> < ulp x / 2"
  shows "round_pos x = of_int m * ulp x"
proof -
  have "x / ulp x - of_int m = (x - of_int m * ulp x) / ulp x"
    by (simp add: diff_divide_distrib)
  then have "\<bar>x / ulp x - of_int m\<bar> = \<bar>x - of_int m * ulp x\<bar> / ulp x"
    by (simp add: abs_divide less_imp_le)
  also have "\<dots> < 1/2" using assms by (simp add: divide_less_eq)
  finally show ?thesis by (simp add: round_pos_def round_even_near)
qed

lemma round_pos_bounds:
  assumes "0 < x"
  shows "2 powi fexp x \<le> round_pos x \<and> round_pos x \<le> 2 powi (fexp x + 1)"
proof -
  note fb = fexp_bounds [OF assms]
  have u: "2 powi (fexp x + 1) = 2 ^ 53 * ulp x" by (simp add: ulp_eq power_int_add)
  have "2 ^ 52 \<le> x / ulp x" "x / ulp x \<le> 2 ^ 53"
    using fb by (simp_all add: ulp_eq u le_divide_eq divide_le_eq)
  then have "round_even (2 ^ 52) \<le> round_even (x / ulp x)" "round_even (x / ulp x) \<le> round_even (2 ^ 53)"
    by (simp_all add: round_even_mono)
  moreover have "round_even (2 ^ 52) = 2 ^ 52" "round_even (2 ^ 53) = 2 ^ 53"
    using round_even_near [of "2 ^ 52" "2 ^ 52"] round_even_near [of "2 ^ 53" "2 ^ 53"] by simp_all
  ultimately have "2 ^ 52 \<le> round_even (x / ulp x)" "round_even (x / ulp x) \<le> 2 ^ 53" by simp_all
  then have "(2 ^ 52 :: rat) \<le> of_int (round_even (x / ulp x))" "of_int (round_even (x / ulp x)) \<le> (2 ^ 53 :: rat)"
    by (metis of_int_le_iff of_int_numeral of_int_power)+
  then have "2 ^ 52 * ulp x \<le> of_int (round_even (x / ulp x)) * ulp x"
    "of_int (round_even (x / ulp x)) * ulp x \<le> 2 ^ 53 * ulp x"
    by (simp_all add: mult_right_mono less_imp_le)
  then show ?thesis
    unfolding round_pos_def ulp_eq u by simp
qed

lemma round_pos_pos: "0 < x \<Longrightarrow> 0 < round_pos x"
  using round_pos_bounds [of x] by (meson less_le_trans zero_less_power_int zero_less_numeral)

lemma fexp_mono:
  assumes "0 < x" "x \<le> y"
  shows "fexp x \<le> fexp y"
proof (rule ccontr)
  assume "\<not> fexp x \<le> fexp y"
  then have "(2::rat) powi (fexp y + 1) \<le> 2 powi fexp x" by (intro power_int_increasing) auto
  with fexp_bounds [OF assms(1)] fexp_bounds [of y] assms show False by simp
qed

lemma round_pos_mono:
  assumes "0 < x" "x \<le> y"
  shows "round_pos x \<le> round_pos y"
proof (cases "fexp x = fexp y")
  case True
  then have u: "ulp x = ulp y" by (simp add: ulp_def)
  have "x / ulp x \<le> y / ulp x" by (intro divide_right_mono) (simp_all add: assms less_imp_le)
  then have "of_int (round_even (x / ulp x)) \<le> (of_int (round_even (y / ulp x)) :: rat)"
    by (simp add: round_even_mono)
  then show ?thesis by (simp add: round_pos_def u)
next
  case False
  with fexp_mono [OF assms] have "fexp x + 1 \<le> fexp y" by simp
  then have "(2::rat) powi (fexp x + 1) \<le> 2 powi fexp y" by (intro power_int_increasing) auto
  with round_pos_bounds [OF assms(1)] round_pos_bounds [of y] assms show ?thesis by simp
qed

lemma round_double_zero [simp]: "round_double 0 = 0"
  by (simp add: round_double_def)

lemma round_double_nonneg: "0 \<le> x \<Longrightarrow> 0 \<le> round_double x"
  using round_pos_pos [of x] by (auto simp: round_double_def)

lemma round_double_mono:
  assumes "0 \<le> x" "x \<le> y"
  shows "round_double x \<le> round_double y"
  using assms round_pos_mono [of x y] round_pos_pos [of y] by (auto simp: round_double_def)

text \<open>Near a multiple of the spacing, rounding returns that multiple.\<close>

lemma ulp_multiple:
  assumes "fexp x \<le> 52"
  shows "of_int (n * 2 ^ nat (52 - fexp x)) * ulp x = (of_int n :: rat)"
proof -
  have "(2::rat) ^ nat (52 - fexp x) = 2 powi (52 - fexp x)"
    using assms by (simp add: power_int_def)
  then have "ulp x * 2 ^ nat (52 - fexp x) = 1"
    by (simp add: ulp_def flip: power_int_add)
  then show ?thesis by (simp add: mult.assoc [symmetric] mult.commute [of "ulp x"])
qed

lemma round_double_near_int:
  assumes "0 < x" "fexp x \<le> 52" "\<bar>x - of_int n\<bar> < ulp x / 2"
  shows "round_double x = of_int n"
proof -
  note m = ulp_multiple [OF assms(2), of n]
  have "round_pos x = of_int (n * 2 ^ nat (52 - fexp x)) * ulp x"
    by (rule round_pos_eq) (simp only: m assms(3))
  with assms(1) show ?thesis by (simp only: m round_double_def) simp
qed

lemma fexp_le_52: "0 < x \<Longrightarrow> x < 2 ^ 53 \<Longrightarrow> fexp x \<le> 52"
proof -
  assume "0 < x" "x < 2 ^ 53"
  with fexp_bounds [of x] have "(2::rat) powi fexp x < 2 powi 53" by simp
  then show ?thesis using power_int_le_imp_less_exp [of "2::rat" "fexp x" 53] by simp
qed

lemma round_double_int:
  assumes "0 \<le> n" "n < 2 ^ 53"
  shows "round_double (of_int n) = of_int n"
proof (cases "n = 0")
  case False
  with assms have p: "0 < (of_int n :: rat)" "(of_int n :: rat) < 2 ^ 53"
    by (simp_all add: of_int_less_iff [symmetric])
  show ?thesis by (rule round_double_near_int [OF p(1) fexp_le_52 [OF p]]) simp
qed (simp add: round_double_def)

text \<open>
  Between \<open>2\<^sup>2\<^sup>4\<close> and \<open>2\<^sup>5\<^sup>3\<close> the doubles are spaced at least \<open>2\<^sup>-\<^sup>2\<^sup>8\<close> apart,
  so a value closer than \<open>2\<^sup>-\<^sup>2\<^sup>9\<close> to an integer rounds to that integer.
\<close>

lemma round_double_coarse:
  assumes "2 ^ 24 \<le> x" "x < 2 ^ 53" "\<bar>x - of_int n\<bar> < 1 / 2 ^ 29"
  shows "round_double x = of_int n"
proof -
  have x: "0 < x" using assms(1) by (rule less_le_trans [rotated]) simp
  have e: "24 \<le> fexp x"
  proof (rule ccontr)
    assume "\<not> 24 \<le> fexp x"
    then have "(2::rat) powi (fexp x + 1) \<le> 2 powi 24" by (intro power_int_increasing) auto
    with assms(1) fexp_bounds [OF x] show False by simp
  qed
  have "(2::rat) powi (-28) \<le> ulp x"
    unfolding ulp_def using e by (intro power_int_increasing) simp_all
  then have "1 / 2 ^ 28 \<le> ulp x" by (simp add: power_int_def power_one_over)
  then have "1 / 2 ^ 29 \<le> ulp x / 2" by simp
  with assms(3) have "\<bar>x - of_int n\<bar> < ulp x / 2" by linarith
  then show ?thesis by (rule round_double_near_int [OF x fexp_le_52 [OF x assms(2)]])
qed

end
