(* ===== verification/Candles.thy ===== *)
theory Candles
  imports Frame Float64
begin

text \<open>
  CandleConverter: \<^verbatim>\<open>StockParser.cast_money\<close> (lines 27--29) and
  \<^verbatim>\<open>StockParser.create_df\<close> (lines 14--25) of \<^verbatim>\<open>src/main.py\<close>. A
  \<^verbatim>\<open>Quotation\<close> of the API is a record of integer units and nanos; a
  \<^verbatim>\<open>HistoricCandle\<close> is a record of the fields \<^verbatim>\<open>create_df\<close> reads, its
  \<^verbatim>\<open>time\<close> a UTC timestamp in seconds. \<^verbatim>\<open>cast_money\<close> computes
  \<^verbatim>\<open>units + nano / 1e9\<close> in Python floats: \<^verbatim>\<open>nano\<close> is converted to a double and
  divided by the double \<open>10\<^sup>9\<close>, \<^verbatim>\<open>units\<close> is converted to a double and the two are
  added, each step rounded to the nearest double (theory \<open>Float64\<close>); the result is
  the exact value of that double. \<^verbatim>\<open>create_df\<close> builds a frame with one row per candle;
  on an empty candle list pandas builds a frame with no columns at all.
\<close>

record quotation =
  units :: int
  nano :: int

record candle =
  c_open :: quotation
  c_high :: quotation
  c_low :: quotation
  c_close :: quotation
  volume :: int
  time :: int

definition cast_money :: "quotation \<Rightarrow> real" where
  "cast_money v =
     real_of_rat (round_double (round_double (of_int (units v))
                               + round_double (round_double (of_int (nano v)) / 1000000000)))"

text \<open>\<^verbatim>\<open>c.time.date()\<close>: the UTC calendar day of the timestamp.\<close>

definition candle_date :: "candle \<Rightarrow> day" where
  "candle_date c = time c div 86400"

definition create_df :: "candle list \<Rightarrow> frame" where
  "create_df candles =
     (if candles = [] then []
      else [(date_label, map (\<lambda>c. Some (VDate (candle_date c))) candles),
            (''volume'', map (\<lambda>c. Some (VInt (volume c))) candles),
            (''open'', map (\<lambda>c. Some (VNum (cast_money (c_open c)))) candles),
            (''close'', map (\<lambda>c. Some (VNum (cast_money (c_close c)))) candles),
            (''high'', map (\<lambda>c. Some (VNum (cast_money (c_high c)))) candles),
            (''low'', map (\<lambda>c. Some (VNum (cast_money (c_low c)))) candles)])"

subsection \<open>Lemmas\<close>

lemma cast_money_whole [simp]:
  assumes "0 \<le> units v" "units v < 2 ^ 53" "nano v = 0"
  shows "cast_money v = of_int (units v)"
  using assms by (simp add: cast_money_def round_double_int)

lemma nano_fraction_bounds:
  assumes "0 \<le> n" "n < 1000000000"
  shows "0 \<le> round_double (round_double (of_int n) / 1000000000)
         \<and> round_double (round_double (of_int n) / 1000000000) \<le> 1"
proof -
  have r: "round_double (of_int n) = of_int n" using assms by (simp add: round_double_int)
  have "round_double (of_int n / 1000000000) \<le> round_double 1"
    using assms by (intro round_double_mono) simp_all
  moreover have "round_double 1 = 1" using round_double_int [of 1] by simp
  ultimately show ?thesis using assms by (simp add: r round_double_nonneg)
qed

text \<open>The double nearest to \<open>10\<^sup>-\<^sup>9\<close> and the one nearest to \<open>1 - 10\<^sup>-\<^sup>9\<close>.\<close>

lemma cast_money_quarter: "cast_money \<lparr>units = 11, nano = 250000000\<rparr> = 11.25"
  unfolding cast_money_def by code_simp

lemma double_one_nano: "0 < round_double (round_double 1 / 1000000000) \<and> round_double (round_double 1 / 1000000000) < 1 / 2 ^ 29"
  by code_simp

lemma double_max_nano:
  "1 - 1 / 2 ^ 29 < round_double (round_double 999999999 / 1000000000) \<and> round_double (round_double 999999999 / 1000000000) < 1"
  by code_simp

lemma create_df_Cons_columns:
  "candles \<noteq> [] \<Longrightarrow> columns (create_df candles) = [''date'', ''volume'', ''open'', ''close'', ''high'', ''low'']"
  by (simp add: create_df_def columns_def date_label_def)

subsection \<open>Properties of the conversion\<close>

text \<open>
  C27. For a quotation with \<open>0 \<le> units\<close>, \<open>units + 1 < 2\<^sup>5\<^sup>3\<close> and
  \<open>0 \<le> nano < 10\<^sup>9\<close>, the converted price lies in \<open>[units, units + 1]\<close>. The upper
  end is reached: in doubles the nanos can round the price up to the next unit.
\<close>

theorem cast_money_bounds:
  assumes "0 \<le> units q" "units q + 1 < 2 ^ 53" "0 \<le> nano q" "nano q < 1000000000"
  shows "real_of_int (units q) \<le> cast_money q \<and> cast_money q \<le> real_of_int (units q) + 1"
proof -
  let ?u = "of_int (units q) :: rat" and ?f = "round_double (round_double (of_int (nano q)) / 1000000000)"
  have f: "0 \<le> ?f" "?f \<le> 1" using nano_fraction_bounds [OF assms(3,4)] by simp_all
  have u: "round_double ?u = ?u" "round_double (?u + 1) = ?u + 1"
    using assms round_double_int [of "units q"] round_double_int [of "units q + 1"] by simp_all
  have "round_double ?u \<le> round_double (?u + ?f)" "round_double (?u + ?f) \<le> round_double (?u + 1)"
    using assms f by (simp_all add: round_double_mono)
  then have "?u \<le> round_double (?u + ?f)" "round_double (?u + ?f) \<le> ?u + 1"
    by (simp_all only: u)
  then have "real_of_rat ?u \<le> real_of_rat (round_double (?u + ?f))"
    "real_of_rat (round_double (?u + ?f)) \<le> real_of_rat (?u + 1)"
    by (simp_all only: of_rat_less_eq)
  then show ?thesis
    by (simp add: cast_money_def u(1) of_rat_add)
qed

theorem cast_money_bounds_witness:
  "0 \<le> units \<lparr>units = 16777216, nano = 999999999\<rparr> \<and> units \<lparr>units = 16777216, nano = 999999999\<rparr> + 1 < 2 ^ 53 \<and>
   0 \<le> nano \<lparr>units = 16777216, nano = 999999999\<rparr> \<and> nano \<lparr>units = 16777216, nano = 999999999\<rparr> < 1000000000 \<and>
   16777216 \<le> cast_money \<lparr>units = 16777216, nano = 999999999\<rparr> \<and>
   cast_money \<lparr>units = 16777216, nano = 999999999\<rparr> \<le> 16777217 \<and>
   cast_money \<lparr>units = 16777216, nano = 999999999\<rparr> = 16777217"
proof -
  have "cast_money \<lparr>units = 16777216, nano = 999999999\<rparr> = 16777217"
    unfolding cast_money_def by code_simp
  then show ?thesis using cast_money_bounds [of "\<lparr>units = 16777216, nano = 999999999\<rparr>"] by simp
qed

text \<open>
  C26. From \<open>2\<^sup>2\<^sup>4\<close> units upwards the doubles are too coarse for nanos: one nano is
  lost (the price equals that of nano 0) and 999999999 nanos give exactly one more unit.
\<close>

theorem cast_money_coarse:
  assumes "2 ^ 24 \<le> u" "u + 1 < 2 ^ 53"
  shows "cast_money \<lparr>units = u, nano = 1\<rparr> = cast_money \<lparr>units = u, nano = 0\<rparr> \<and>
         cast_money \<lparr>units = u, nano = 0\<rparr> = real_of_int u \<and>
         cast_money \<lparr>units = u, nano = 999999999\<rparr> = real_of_int u + 1"
proof -
  let ?u = "of_int u :: rat"
  have ru: "round_double ?u = ?u" using assms by (simp add: round_double_int)
  have big: "2 ^ 24 \<le> ?u" "?u + 1 < 2 ^ 53"
    using assms by (simp_all add: of_int_le_iff [symmetric] of_int_less_iff [symmetric])
  note c1 = double_one_nano and c9 = double_max_nano
  have "round_double (?u + round_double (round_double 1 / 1000000000)) = ?u"
    using big c1 by (intro round_double_coarse) simp_all
  moreover have "round_double (?u + round_double (round_double 999999999 / 1000000000)) = of_int (u + 1)"
    using big c9 by (intro round_double_coarse) simp_all
  ultimately show ?thesis
    using assms by (simp add: cast_money_def ru of_rat_add)
qed

theorem cast_money_coarse_witness:
  "2 ^ 24 \<le> (16777216::int) \<and> 16777216 + 1 < (2 ^ 53::int) \<and>
   cast_money \<lparr>units = 16777216, nano = 1\<rparr> = cast_money \<lparr>units = 16777216, nano = 0\<rparr> \<and>
   cast_money \<lparr>units = 16777216, nano = 999999999\<rparr> = 16777217"
  using cast_money_coarse [of 16777216] by simp



text \<open>
  C29. \<^verbatim>\<open>create_df\<close> makes one row per candle, in the order received: row \<open>i\<close> holds
  the date, volume and the four converted prices of candle \<open>i\<close>.
\<close>

theorem create_df_rows:
  assumes "i < length candles"
  shows "map (\<lambda>c. snd c ! i) (create_df candles) =
         [Some (VDate (candle_date (candles ! i))), Some (VInt (volume (candles ! i))),
          Some (VNum (cast_money (c_open (candles ! i)))), Some (VNum (cast_money (c_close (candles ! i)))),
          Some (VNum (cast_money (c_high (candles ! i)))), Some (VNum (cast_money (c_low (candles ! i))))]"
  using assms by (auto simp: create_df_def)

theorem create_df_rows_witness:
  "0 < length [\<lparr>c_open = \<lparr>units = 10, nano = 0\<rparr>, c_high = \<lparr>units = 12, nano = 0\<rparr>,
                c_low = \<lparr>units = 9, nano = 0\<rparr>, c_close = \<lparr>units = 11, nano = 250000000\<rparr>,
                volume = 7, time = 86400\<rparr>] \<and>
   map (\<lambda>c. snd c ! 0) (create_df [\<lparr>c_open = \<lparr>units = 10, nano = 0\<rparr>, c_high = \<lparr>units = 12, nano = 0\<rparr>,
                c_low = \<lparr>units = 9, nano = 0\<rparr>, c_close = \<lparr>units = 11, nano = 250000000\<rparr>,
                volume = 7, time = 86400\<rparr>]) =
   [Some (VDate 1), Some (VInt 7), Some (VNum 10), Some (VNum 11.25), Some (VNum 12), Some (VNum 9)]"
  using create_df_rows [of 0 "[\<lparr>c_open = \<lparr>units = 10, nano = 0\<rparr>, c_high = \<lparr>units = 12, nano = 0\<rparr>,
                c_low = \<lparr>units = 9, nano = 0\<rparr>, c_close = \<lparr>units = 11, nano = 250000000\<rparr>,
                volume = 7, time = 86400\<rparr>]"]
    cast_money_quarter by (simp add: candle_date_def)

text \<open>
  C30. For a non-empty candle list the frame has the columns \<^verbatim>\<open>date, volume, open,
  close, high, low\<close>, all of the length of the list; for an empty list it has no
  column at all (not even \<^verbatim>\<open>date\<close>).
\<close>

theorem create_df_shape:
  "(candles \<noteq> [] \<longrightarrow> columns (create_df candles) = [''date'', ''volume'', ''open'', ''close'', ''high'', ''low'']
      \<and> frame_wf (create_df candles) \<and> nrows (create_df candles) = length candles)
   \<and> (candles = [] \<longrightarrow> columns (create_df candles) = [])"
  by (simp add: create_df_def columns_def date_label_def frame_wf_def nrows_def)

theorem create_df_shape_witness:
  "columns (create_df [\<lparr>c_open = \<lparr>units = 1, nano = 0\<rparr>, c_high = \<lparr>units = 1, nano = 0\<rparr>,
                       c_low = \<lparr>units = 1, nano = 0\<rparr>, c_close = \<lparr>units = 1, nano = 0\<rparr>,
                       volume = 1, time = 0\<rparr>]) = [''date'', ''volume'', ''open'', ''close'', ''high'', ''low''] \<and>
   columns (create_df []) = []"
  using create_df_shape [of "[\<lparr>c_open = \<lparr>units = 1, nano = 0\<rparr>, c_high = \<lparr>units = 1, nano = 0\<rparr>,
                       c_low = \<lparr>units = 1, nano = 0\<rparr>, c_close = \<lparr>units = 1, nano = 0\<rparr>,
                       volume = 1, time = 0\<rparr>]"] create_df_shape [of "[]"]
  by simp

end
