(* ===== verification/Pipeline.thy ===== *)
theory Pipeline
  imports DateRange Candles
begin

text \<open>
  SeriesFetcher and SeriesMerger: the body of \<^verbatim>\<open>StockParser.run\<close> between the
  catalog lookup and the column coalescing (\<^verbatim>\<open>src/main.py\<close>, lines 63--115), and
  \<^verbatim>\<open>StockParser.get_candles\<close> (lines 31--44).
  \<^item> The API call \<^verbatim>\<open>client.market_data.get_candles\<close> is a parameter \<open>fetch\<close>:
    for a FIGI and a range it returns candles, a \<^verbatim>\<open>RequestError\<close> (with its text) or
    some other exception. \<open>get_candles\<close> prints and swallows the first kind of
    failure (returning \<^verbatim>\<open>None\<close>) and lets the second propagate.
  \<^item> The mutable locals of \<^verbatim>\<open>run\<close> that survive a loop iteration are the record
    \<open>run_state\<close>: the accumulated \<^verbatim>\<open>merged_df\<close> and the lines printed so far.
  \<^item> One iteration of the chunk loop is \<open>chunk_step\<close>: fetch, convert
    (\<open>chunk_table\<close>: \<^verbatim>\<open>create_df\<close>, \<^verbatim>\<open>rename\<close>, \<^verbatim>\<open>[['date', asset_name]]\<close>)
    and merge into the accumulator (\<open>merge_step\<close>). An exception leaves the state as
    it was when it was raised (\<open>Raised\<close>), and \<open>run_chunks\<close> stops there.
  \<^item> One iteration of the ticker loop is \<open>ticker_step\<close>: look the ticker up in the
    selected catalog rows, run its chunks inside the \<^verbatim>\<open>try\<close>, and on any exception
    print the failure and go on with the next ticker (\<open>run_tickers\<close>).
\<close>

datatype fetch_result = Candles "candle list" | RequestErr string | FetchFailed

type_synonym fetcher = "string \<Rightarrow> day option \<Rightarrow> day option \<Rightarrow> fetch_result"

text \<open>What \<^verbatim>\<open>run\<close> prints, as data (the texts themselves are Russian).\<close>

datatype message =
    Printed string              \<comment> \<open>\<^verbatim>\<open>print(str(e))\<close> of a \<^verbatim>\<open>RequestError\<close>\<close>
  | TickerNotFound string       \<comment> \<open>line 90\<close>
  | TickerFailed string         \<comment> \<open>line 114\<close>
  | BlankLine                   \<comment> \<open>line 115\<close>
  | NoTickers "string list"     \<comment> \<open>line 82\<close>
  | FrameInfo                   \<comment> \<open>line 127, \<^verbatim>\<open>print(merged_df.info())\<close>\<close>
  | TokenEcho string            \<comment> \<open>line 128, \<^verbatim>\<open>print(token)\<close>\<close>
  | PrintedFrame "frame option" \<comment> \<open>line 145, \<^verbatim>\<open>print(df)\<close> in \<^verbatim>\<open>main\<close>\<close>

record run_state =
  merged :: frame
  out :: "message list"

definition get_candles ::
  "fetcher \<Rightarrow> string \<Rightarrow> day option \<Rightarrow> day option \<Rightarrow> string list \<times> (pyerr + candle list option)" where
  "get_candles fetch figi start_date end_date =
     (case fetch figi start_date end_date of
        Candles r \<Rightarrow> ([], Inr (Some r))
      | RequestErr e \<Rightarrow> ([e], Inr None)
      | FetchFailed \<Rightarrow> ([], Inl OtherError))"

text \<open>Lines 105--107: convert, rename \<^verbatim>\<open>close\<close>, keep \<^verbatim>\<open>date\<close> and the price.\<close>

definition chunk_table :: "string \<Rightarrow> candle list \<Rightarrow> pyerr + frame" where
  "chunk_table asset_name candles =
     get_columns (rename_col ''close'' asset_name (create_df candles)) [date_label, asset_name]"

text \<open>Lines 109--112: the first table is adopted, later ones are outer-merged on \<^verbatim>\<open>date\<close>.\<close>

definition merge_step :: "frame \<Rightarrow> frame \<Rightarrow> pyerr + frame" where
  "merge_step merged_df temp_df =
     (if frame_empty merged_df then Inr temp_df else merge_outer merged_df temp_df)"

definition chunk_step ::
  "fetcher \<Rightarrow> string \<Rightarrow> string \<Rightarrow> run_state \<Rightarrow> day option \<times> day option \<Rightarrow> run_state outcome" where
  "chunk_step fetch figi asset_name st rng =
     (let (msgs, r) = get_candles fetch figi (fst rng) (snd rng);
          st' = st\<lparr>out := out st @ map Printed msgs\<rparr>
      in case r of
           Inl err \<Rightarrow> Raised err st'
         | Inr None \<Rightarrow> Normal st'
         | Inr (Some candles) \<Rightarrow>
             (case chunk_table asset_name candles of
                Inl err \<Rightarrow> Raised err st'
              | Inr temp_df \<Rightarrow>
                  (case merge_step (merged st') temp_df of
                     Inl err \<Rightarrow> Raised err st'
                   | Inr m \<Rightarrow> Normal (st'\<lparr>merged := m\<rparr>))))"

fun run_chunks ::
  "fetcher \<Rightarrow> string \<Rightarrow> string \<Rightarrow> run_state \<Rightarrow> (day option \<times> day option) list \<Rightarrow> run_state outcome" where
  "run_chunks fetch figi asset_name st [] = Normal st"
| "run_chunks fetch figi asset_name st (rng # rngs) =
     (case chunk_step fetch figi asset_name st rng of
        Normal st' \<Rightarrow> run_chunks fetch figi asset_name st' rngs
      | Raised e st' \<Rightarrow> Raised e st')"

text \<open>Lines 97--100: chunked only when both dates are given.\<close>

definition date_ranges :: "day option \<Rightarrow> day option \<Rightarrow> (day option \<times> day option) list" where
  "date_ranges start_date end_date =
     (case (start_date, end_date) of
        (Some s, Some e) \<Rightarrow> map (\<lambda>(a, b). (Some a, Some b)) (split_date_range s e)
      | _ \<Rightarrow> [(start_date, end_date)])"

subsection \<open>The instrument catalog\<close>

text \<open>An instrument as listed by \<^verbatim>\<open>instruments.shares()\<close> or \<^verbatim>\<open>instruments.bonds()\<close>.\<close>

record instrument =
  inst_ticker :: string
  inst_figi :: string
  inst_name :: string

record catalog_row =
  row_ticker :: string
  row_figi :: string
  row_type :: string
  row_name :: string

text \<open>Lines 69--77: the list \<^verbatim>\<open>l\<close>, shares first, then bonds.\<close>

definition catalog :: "instrument list \<Rightarrow> instrument list \<Rightarrow> catalog_row list" where
  "catalog shares bonds =
     map (\<lambda>i. \<lparr>row_ticker = inst_ticker i, row_figi = inst_figi i, row_type = ''shares'',
               row_name = inst_name i\<rparr>) shares
     @ map (\<lambda>i. \<lparr>row_ticker = inst_ticker i, row_figi = inst_figi i, row_type = ''bonds'',
               row_name = inst_name i\<rparr>) bonds"

text \<open>
  Lines 79--80: \<^verbatim>\<open>DataFrame(l)\<close> filtered by \<^verbatim>\<open>isin(tickers)\<close>; with no instrument at
  all the frame has no \<^verbatim>\<open>ticker\<close> column and the lookup raises \<open>KeyError\<close>.
\<close>

definition select_tickers :: "catalog_row list \<Rightarrow> string list \<Rightarrow> pyerr + catalog_row list" where
  "select_tickers rows tickers =
     (if rows = [] then Inl (KeyError [''ticker''])
      else Inr (filter (\<lambda>r. row_ticker r \<in> set tickers) rows))"

text \<open>Lines 87--115: one ticker; \<^verbatim>\<open>.values[0]\<close> takes the first matching row.\<close>

definition ticker_step ::
  "fetcher \<Rightarrow> day option \<Rightarrow> day option \<Rightarrow> catalog_row list \<Rightarrow> run_state \<Rightarrow> string \<Rightarrow> run_state" where
  "ticker_step fetch start_date end_date df st ticker =
     (case filter (\<lambda>r. row_ticker r = ticker) df of
        [] \<Rightarrow> st\<lparr>out := out st @ [TickerNotFound ticker]\<rparr>
      | asset # _ \<Rightarrow>
          (case run_chunks fetch (row_figi asset) (row_name asset) st (date_ranges start_date end_date) of
             Normal st' \<Rightarrow> st'
           | Raised e st' \<Rightarrow> st'\<lparr>out := out st' @ [TickerFailed (row_name asset), BlankLine]\<rparr>))"

fun run_tickers ::
  "fetcher \<Rightarrow> day option \<Rightarrow> day option \<Rightarrow> catalog_row list \<Rightarrow> run_state \<Rightarrow> string list \<Rightarrow> run_state" where
  "run_tickers fetch start_date end_date df st [] = st"
| "run_tickers fetch start_date end_date df st (t # ts) =
     run_tickers fetch start_date end_date df (ticker_step fetch start_date end_date df st t) ts"

definition acc_inv :: "frame \<Rightarrow> bool" where
  "acc_inv f \<longleftrightarrow> frame_wf f \<and> distinct (key_cells f)"

text \<open>
  The contract of SeriesMerger (specification, section 4.4) on one column, read as a
  partial function from dates to cells: a column of one side keeps its cells at that
  side's dates, is NaN (\<open>Some None\<close>) at dates only the other side has, and has no
  row elsewhere.
\<close>

definition outer_extend :: "cell list \<Rightarrow> cell list \<Rightarrow> (cell \<Rightarrow> cell option) \<Rightarrow> (cell \<Rightarrow> cell option)" where
  "outer_extend own other s = (\<lambda>k. if k \<in> set own then s k else if k \<in> set other then Some None else None)"

subsection \<open>Lemmas\<close>

lemma chunk_table_Nil: "chunk_table asset_name [] = Inl (KeyError [''date'', asset_name])"
  by (simp add: chunk_table_def get_columns_def missing_labels_def rename_col_def create_df_def
      columns_def date_label_def)

lemma chunk_table_Inr:
  assumes "chunk_table asset_name candles = Inr t"
  shows "frame_wf t \<and> key_cells t = map (\<lambda>c. Some (VDate (candle_date c))) candles"
proof -
  let ?f = "rename_col ''close'' asset_name (create_df candles)"
  from assms have ne: "candles \<noteq> []" by (auto simp: chunk_table_Nil)
  from assms have t: "t = concat (map (\<lambda>l. filter (\<lambda>c. fst c = l) ?f) [date_label, asset_name])"
    by (simp add: chunk_table_def get_columns_def split: if_splits)
  have cols: "\<forall>c\<in>set ?f. length (snd c) = length candles"
    by (simp add: rename_col_def create_df_def)
  have "t \<noteq> []" "\<forall>c\<in>set t. length (snd c) = length candles"
    using ne cols by (auto simp: t rename_col_def create_df_def date_label_def)
  then have wf: "frame_wf t"
    by (auto simp: frame_wf_def list_all_iff nrows_def split: list.splits)
  have "key_cells t = map (\<lambda>c. Some (VDate (candle_date c))) candles"
    using ne by (simp add: t key_cells_def rename_col_def create_df_def date_label_def)
  with wf show ?thesis by simp
qed

lemma chunk_step_RequestErr:
  "fetch figi (fst rng) (snd rng) = RequestErr e \<Longrightarrow>
   chunk_step fetch figi asset_name st rng = Normal (st\<lparr>out := out st @ [Printed e]\<rparr>)"
  by (simp add: chunk_step_def get_candles_def)

lemma chunk_step_merged_only:
  "merged st1 = merged st2 \<Longrightarrow>
   outcome_map merged (chunk_step fetch figi asset_name st1 rng)
   = outcome_map merged (chunk_step fetch figi asset_name st2 rng)"
  by (simp add: chunk_step_def get_candles_def split: fetch_result.splits sum.splits)

lemma run_chunks_merged_only:
  "merged st1 = merged st2 \<Longrightarrow>
   outcome_map merged (run_chunks fetch figi asset_name st1 rngs)
   = outcome_map merged (run_chunks fetch figi asset_name st2 rngs)"
proof (induction rngs arbitrary: st1 st2)
  case Nil
  then show ?case by simp
next
  case (Cons rng rngs)
  from chunk_step_merged_only [OF Cons.prems, of fetch figi asset_name rng]
  show ?case
    by (cases "chunk_step fetch figi asset_name st1 rng";
        cases "chunk_step fetch figi asset_name st2 rng") (auto intro: Cons.IH)
qed

lemma run_chunks_append:
  "run_chunks fetch figi asset_name st (xs @ ys) =
   (case run_chunks fetch figi asset_name st xs of
      Normal st' \<Rightarrow> run_chunks fetch figi asset_name st' ys
    | Raised e st' \<Rightarrow> Raised e st')"
  by (induction xs arbitrary: st) (auto split: outcome.splits)

lemma merge_step_inv:
  assumes m: "acc_inv m" and t: "frame_wf t" "distinct (key_cells t)"
    and r: "merge_step m t = Inr r"
  shows "acc_inv r"
proof (cases "frame_empty m")
  case True
  with r have "r = t" by (simp add: merge_step_def)
  with t show ?thesis by (simp add: acc_inv_def)
next
  case False
  with r have M: "merge_outer m t = Inr r" by (simp add: merge_step_def)
  from m have dm: "distinct (key_cells m)" by (simp add: acc_inv_def)
  have "key_cells r = sort (remdups (key_cells m @ key_cells t))"
    by (rule merge_outer_keys [OF dm t(2) M])
  then have "distinct (key_cells r)" by simp
  moreover from M have "frame_wf r" by (rule merge_outer_frame_wf)
  ultimately show ?thesis by (simp add: acc_inv_def)
qed

lemma chunk_step_inv:
  assumes "acc_inv (merged st)"
    and "\<And>cs. fetch figi (fst rng) (snd rng) = Candles cs \<Longrightarrow> distinct (map candle_date cs)"
  shows "acc_inv (merged (outcome_state (chunk_step fetch figi asset_name st rng)))"
proof (cases "fetch figi (fst rng) (snd rng)")
  case (Candles cs)
  show ?thesis
  proof (cases "chunk_table asset_name cs")
    case (Inr t)
    with chunk_table_Inr have t: "frame_wf t" "key_cells t = map (\<lambda>c. Some (VDate (candle_date c))) cs"
      by blast+
    from assms(2) Candles have "distinct (map candle_date cs)" by blast
    then have "distinct (key_cells t)" by (simp add: t distinct_map inj_on_def)
    with t assms(1) Candles Inr show ?thesis
      by (auto simp: chunk_step_def get_candles_def split: sum.splits intro: merge_step_inv)
  qed (use assms Candles in \<open>simp add: chunk_step_def get_candles_def\<close>)
qed (use assms in \<open>simp_all add: chunk_step_def get_candles_def\<close>)

lemma run_chunks_acc_inv:
  assumes "acc_inv (merged st)"
    and "\<forall>rng\<in>set rngs. \<forall>cs. fetch figi (fst rng) (snd rng) = Candles cs \<longrightarrow> distinct (map candle_date cs)"
  shows "acc_inv (merged (outcome_state (run_chunks fetch figi asset_name st rngs)))"
  using assms
proof (induction rngs arbitrary: st)
  case Nil
  then show ?case by simp
next
  case (Cons rng rngs)
  have step: "acc_inv (merged (outcome_state (chunk_step fetch figi asset_name st rng)))"
    using Cons.prems by (intro chunk_step_inv) auto
  show ?case
  proof (cases "chunk_step fetch figi asset_name st rng")
    case (Normal st')
    with step Cons.prems show ?thesis by (simp add: Cons.IH)
  next
    case (Raised e st')
    with step show ?thesis by simp
  qed
qed

lemma ticker_step_acc_inv:
  assumes "acc_inv (merged st)"
    and "\<forall>figi s e cs. fetch figi s e = Candles cs \<longrightarrow> distinct (map candle_date cs)"
  shows "acc_inv (merged (ticker_step fetch start_date end_date df st ticker))"
proof (cases "filter (\<lambda>r. row_ticker r = ticker) df")
  case Nil
  with assms show ?thesis by (simp add: ticker_step_def)
next
  case (Cons asset rest)
  have "acc_inv (merged (outcome_state (run_chunks fetch (row_figi asset) (row_name asset) st
          (date_ranges start_date end_date))))"
    using assms by (intro run_chunks_acc_inv) auto
  with Cons show ?thesis
    by (cases "run_chunks fetch (row_figi asset) (row_name asset) st (date_ranges start_date end_date)")
      (simp_all add: ticker_step_def)
qed

lemma merged_ticker_step:
  "merged (ticker_step fetch start_date end_date df st t) =
   (case filter (\<lambda>r. row_ticker r = t) df of
      [] \<Rightarrow> merged st
    | asset # _ \<Rightarrow> merged (outcome_state (run_chunks fetch (row_figi asset) (row_name asset) st
                                           (date_ranges start_date end_date))))"
  by (simp add: ticker_step_def split: list.splits outcome.splits)

lemma ticker_step_merged_only:
  assumes "merged st1 = merged st2"
  shows "merged (ticker_step fetch start_date end_date df st1 t) = merged (ticker_step fetch start_date end_date df st2 t)"
proof -
  have "merged (outcome_state (run_chunks fetch figi n st1 rngs))
        = merged (outcome_state (run_chunks fetch figi n st2 rngs))" for figi n rngs
    using run_chunks_merged_only [OF assms, of fetch figi n rngs]
    by (metis outcome_state_map)
  with assms show ?thesis by (simp add: merged_ticker_step split: list.splits)
qed

lemma run_tickers_merged_only:
  "merged st1 = merged st2 \<Longrightarrow>
   merged (run_tickers fetch start_date end_date df st1 ts) = merged (run_tickers fetch start_date end_date df st2 ts)"
proof (induction ts arbitrary: st1 st2)
  case Nil
  then show ?case by simp
next
  case (Cons t ts)
  show ?case using Cons.IH [OF ticker_step_merged_only [OF Cons.prems]] by simp
qed

lemma run_tickers_append:
  "run_tickers fetch start_date end_date df st (xs @ ys)
   = run_tickers fetch start_date end_date df (run_tickers fetch start_date end_date df st xs) ys"
  by (induction xs arbitrary: st) simp_all

text \<open>
  The merges of the chunk loop, from the labels of the accumulator: a non-empty
  accumulator is merged (not adopted), and the result is again non-empty and rectangular.
\<close>

lemma merge_step_acc:
  assumes "K \<noteq> []" "merge_outer ((date_label, K) # L) R = Inr M"
  shows "merge_step ((date_label, K) # L) R = Inr M \<and> key_cells M \<noteq> [] \<and> frame_wf M"
  using assms merge_outer_not_empty [OF assms(2)]
  by (simp add: merge_step_def frame_empty_def nrows_def merge_outer_frame_wf)

lemma merge_second_chunk:
  assumes "n \<noteq> date_label" "D \<noteq> []"
  shows "\<exists>K P Q. K \<noteq> [] \<and>
           merge_step [(date_label, D), (n, A)] [(date_label, E), (n, B)]
           = Inr [(date_label, K), (n @ ''_x'', P), (n @ ''_y'', Q)]"
proof -
  obtain M where M: "merge_outer [(date_label, D), (n, A)] [(date_label, E), (n, B)] = Inr M"
    using assms by (simp add: merge_outer_def columns_def value_columns_def merge_overlap_def
        suffix_labels_def new_dups_def nth_Cons' Let_def)
  have "columns M = [date_label, n @ ''_x'', n @ ''_y'']"
    unfolding merge_outer_columns [OF M]
    using assms by (simp add: columns_def value_columns_def merge_overlap_def suffix_labels_def)
  with merge_step_acc [OF assms(2) M] show ?thesis by (auto dest: columns_three)
qed

lemma merge_third_chunk:
  assumes "n \<noteq> date_label" "K \<noteq> []"
  shows "\<exists>K' P' Q' Z. K' \<noteq> [] \<and>
           merge_step [(date_label, K), (n @ ''_x'', P), (n @ ''_y'', Q)] [(date_label, E), (n, C)]
           = Inr [(date_label, K'), (n @ ''_x'', P'), (n @ ''_y'', Q'), (n, Z)]"
proof -
  obtain M where M: "merge_outer [(date_label, K), (n @ ''_x'', P), (n @ ''_y'', Q)] [(date_label, E), (n, C)] = Inr M"
    using assms by (simp add: merge_outer_def columns_def value_columns_def merge_overlap_def
        suffix_labels_def new_dups_def nth_Cons' Let_def)
  have "columns M = [date_label, n @ ''_x'', n @ ''_y'', n]"
    unfolding merge_outer_columns [OF M]
    using assms by (simp add: columns_def value_columns_def merge_overlap_def suffix_labels_def)
  with merge_step_acc [OF assms(2) M] show ?thesis by (auto dest: columns_four)
qed

lemma merge_new_instrument:
  assumes "b \<noteq> date_label" "b \<noteq> a @ ''_x''" "b \<noteq> a @ ''_y''" "K \<noteq> []"
  shows "\<exists>K' P' Q' Z. K' \<noteq> [] \<and>
           merge_step [(date_label, K), (a @ ''_x'', P), (a @ ''_y'', Q)] [(date_label, E), (b, C)]
           = Inr [(date_label, K'), (a @ ''_x'', P'), (a @ ''_y'', Q'), (b, Z)]"
proof -
  obtain M where M: "merge_outer [(date_label, K), (a @ ''_x'', P), (a @ ''_y'', Q)] [(date_label, E), (b, C)] = Inr M"
    using assms by (simp add: merge_outer_def columns_def value_columns_def merge_overlap_def
        suffix_labels_def new_dups_def nth_Cons' Let_def)
  have "columns M = [date_label, a @ ''_x'', a @ ''_y'', b]"
    unfolding merge_outer_columns [OF M]
    using assms by (simp add: columns_def value_columns_def merge_overlap_def suffix_labels_def)
  with merge_step_acc [OF assms(4) M] show ?thesis by (auto dest: columns_four)
qed

lemma merge_second_chunk_after:
  assumes "b \<noteq> date_label" "b \<noteq> a @ ''_x''" "b \<noteq> a @ ''_y''" "a \<noteq> b" "K \<noteq> []"
  shows "\<exists>M. merge_step [(date_label, K), (a @ ''_x'', P), (a @ ''_y'', Q), (b, Z)] [(date_label, E), (b, C)]
              = Inr M \<and> frame_wf M \<and>
              columns M = [date_label, a @ ''_x'', a @ ''_y'', b @ ''_x'', b @ ''_y'']"
proof -
  have ab: "a @ ''_x'' \<noteq> b @ ''_x''" "a @ ''_y'' \<noteq> b @ ''_x''" using assms(4) by auto
  obtain M where M: "merge_outer [(date_label, K), (a @ ''_x'', P), (a @ ''_y'', Q), (b, Z)] [(date_label, E), (b, C)] = Inr M"
    using assms ab by (simp add: merge_outer_def columns_def value_columns_def merge_overlap_def
        suffix_labels_def new_dups_def nth_Cons' Let_def)
  have "columns M = [date_label, a @ ''_x'', a @ ''_y'', b @ ''_x'', b @ ''_y'']"
    unfolding merge_outer_columns [OF M]
    using assms by (simp add: columns_def value_columns_def merge_overlap_def suffix_labels_def)
  with merge_step_acc [OF assms(5) M] show ?thesis by auto
qed

lemma merge_fourth_chunk:
  assumes "n \<noteq> date_label" "K \<noteq> []"
  shows "merge_step [(date_label, K), (n @ ''_x'', P), (n @ ''_y'', Q), (n, Z)] [(date_label, E), (n, C)]
         = Inl (MergeError [n @ ''_x''])"
  using assms by (simp add: merge_step_def merge_outer_def frame_empty_def nrows_def columns_def
      value_columns_def merge_overlap_def suffix_labels_def new_dups_def nth_Cons' eq_commute [of n])

lemma chunk_table_shape:
  assumes "candles \<noteq> []" "asset_name \<notin> set [''date'', ''volume'', ''open'', ''high'', ''low'']"
  shows "\<exists>D C. D \<noteq> [] \<and> chunk_table asset_name candles = Inr [(date_label, D), (asset_name, C)]"
  using assms by (auto simp: chunk_table_def get_columns_def missing_labels_def rename_col_def
      create_df_def columns_def date_label_def)

lemma run_chunks_fourth_chunk:
  assumes n: "n \<notin> set [''date'', ''volume'', ''open'', ''high'', ''low'']"
    and f: "fetch figi (fst ra) (snd ra) = Candles ca" "fetch figi (fst rb) (snd rb) = Candles cb"
      "fetch figi (fst rc) (snd rc) = Candles cc" "fetch figi (fst rd) (snd rd) = Candles cd"
    and c: "ca \<noteq> []" "cb \<noteq> []" "cc \<noteq> []" "cd \<noteq> []"
  shows "\<exists>m. run_chunks fetch figi n \<lparr>merged = [], out = msgs\<rparr> (ra # rb # rc # rd # rs)
                = Raised (MergeError [n @ ''_x'']) \<lparr>merged = m, out = msgs\<rparr> \<and>
              columns m = [date_label, n @ ''_x'', n @ ''_y'', n]"
proof -
  have nd: "n \<noteq> date_label" using n by (simp add: date_label_def)
  obtain D1 C1 where t1: "D1 \<noteq> []" "chunk_table n ca = Inr [(date_label, D1), (n, C1)]"
    using chunk_table_shape [OF c(1) n] by blast
  obtain D2 C2 where t2: "chunk_table n cb = Inr [(date_label, D2), (n, C2)]"
    using chunk_table_shape [OF c(2) n] by blast
  obtain D3 C3 where t3: "chunk_table n cc = Inr [(date_label, D3), (n, C3)]"
    using chunk_table_shape [OF c(3) n] by blast
  obtain D4 C4 where t4: "chunk_table n cd = Inr [(date_label, D4), (n, C4)]"
    using chunk_table_shape [OF c(4) n] by blast
  obtain K2 P2 Q2 where m2: "K2 \<noteq> []"
    "merge_step [(date_label, D1), (n, C1)] [(date_label, D2), (n, C2)]
     = Inr [(date_label, K2), (n @ ''_x'', P2), (n @ ''_y'', Q2)]"
    using merge_second_chunk [OF nd t1(1)] by blast
  obtain K3 P3 Q3 Z3 where m3: "K3 \<noteq> []"
    "merge_step [(date_label, K2), (n @ ''_x'', P2), (n @ ''_y'', Q2)] [(date_label, D3), (n, C3)]
     = Inr [(date_label, K3), (n @ ''_x'', P3), (n @ ''_y'', Q3), (n, Z3)]"
    using merge_third_chunk [OF nd m2(1)] by blast
  have m4: "merge_step [(date_label, K3), (n @ ''_x'', P3), (n @ ''_y'', Q3), (n, Z3)] [(date_label, D4), (n, C4)]
            = Inl (MergeError [n @ ''_x''])"
    by (rule merge_fourth_chunk [OF nd m3(1)])
  have m1: "merge_step [] [(date_label, D1), (n, C1)] = Inr [(date_label, D1), (n, C1)]"
    by (simp add: merge_step_def frame_empty_def)
  show ?thesis
    using f t1 t2 t3 t4 m1 m2 m3 m4
    by (simp add: chunk_step_def get_candles_def columns_def)
qed

lemma date_ranges_empty: "\<not> s < e \<Longrightarrow> date_ranges (Some s) (Some e) = []"
  by (simp add: date_ranges_def split_date_range_ref chunks_ref_empty)

lemma run_tickers_no_ranges:
  assumes "date_ranges start_date end_date = []"
  shows "merged (run_tickers fetch start_date end_date df st ts) = merged st \<and>
         run_tickers fetch' start_date end_date df st ts = run_tickers fetch start_date end_date df st ts"
  using assms
  by (induction ts arbitrary: st) (simp_all add: ticker_step_def split: list.splits)

lemma length_date_ranges:
  "length (date_ranges (Some s) (Some e)) = nat ((e - s + 350) div 351)"
  by (simp add: date_ranges_def split_date_range_ref length_chunks_ref chunk_count_def span_days_def)

lemma date_ranges_400:
  "date_ranges (Some s) (Some (s + 400)) = [(Some s, Some (s + 350)), (Some (s + 351), Some (s + 400))]"
  by (simp add: date_ranges_def split_date_range_ref chunks_ref_def chunk_count_def span_days_def
      upt_rec)

lemma chunk_table_nonempty:
  assumes "\<forall>x y. \<exists>cs. cs \<noteq> [] \<and> fetch figi x y = Candles cs"
    and "n \<notin> set [''date'', ''volume'', ''open'', ''high'', ''low'']"
  obtains cs D C where "fetch figi x y = Candles cs" "D \<noteq> []"
    "chunk_table n cs = Inr [(date_label, D), (n, C)]"
  using assms chunk_table_shape by meson

lemma chunk_table_eq:
  assumes "candles \<noteq> []" "asset_name \<notin> set [''date'', ''volume'', ''open'', ''high'', ''low'']"
  shows "chunk_table asset_name candles =
         Inr [(date_label, map (\<lambda>c. Some (VDate (candle_date c))) candles),
              (asset_name, map (\<lambda>c. Some (VNum (cast_money (c_close c)))) candles)]"
  using assms by (auto simp: chunk_table_def get_columns_def missing_labels_def rename_col_def
      create_df_def columns_def date_label_def)

lemma merge_outer_left_series:
  assumes "distinct (key_cells L)" "distinct (key_cells R)" "merge_outer L R = Inr M"
    and "p < length L" "fst (L ! p) \<noteq> date_label"
  shows "cell_in (key_cells M) (snd (M ! p))
         = outer_extend (key_cells L) (key_cells R) (cell_in (key_cells L) (snd (L ! p)))"
  using merge_outer_left_values [OF assms] by (simp add: outer_extend_def fun_eq_iff)

lemma merge_outer_right_series:
  assumes "distinct (key_cells L)" "distinct (key_cells R)" "merge_outer L R = Inr M"
    and "q < length (value_columns R)"
  shows "cell_in (key_cells M) (snd (M ! (length L + q)))
         = outer_extend (key_cells R) (key_cells L) (cell_in (key_cells R) (snd (value_columns R ! q)))"
  using merge_outer_right_values [OF assms] by (simp add: outer_extend_def fun_eq_iff)

lemma merge_step_outer:
  "K \<noteq> [] \<Longrightarrow> merge_step ((date_label, K) # L) R = merge_outer ((date_label, K) # L) R"
  by (simp add: merge_step_def frame_empty_def nrows_def)

subsection \<open>Properties of the fetch and merge loop\<close>

text \<open>
  C12. A fetch that fails with \<^verbatim>\<open>RequestError\<close> is skipped: the accumulated table
  (and whether the loop ends normally) is exactly as if that chunk had not been in the
  list; the rows of the other chunks are merged in their order.
\<close>

theorem run_chunks_skips_request_error:
  assumes "fetch figi (fst rng) (snd rng) = RequestErr e"
  shows "outcome_map merged (run_chunks fetch figi asset_name st (xs @ rng # ys))
         = outcome_map merged (run_chunks fetch figi asset_name st (xs @ ys))"
proof (cases "run_chunks fetch figi asset_name st xs")
  case (Normal st')
  have "outcome_map merged (run_chunks fetch figi asset_name (st'\<lparr>out := out st' @ [Printed e]\<rparr>) ys)
        = outcome_map merged (run_chunks fetch figi asset_name st' ys)"
    by (rule run_chunks_merged_only) simp
  with Normal assms show ?thesis by (simp add: run_chunks_append chunk_step_RequestErr)
next
  case (Raised err st')
  then show ?thesis by (simp add: run_chunks_append)
qed

theorem run_chunks_skips_request_error_witness:
  "outcome_map merged (run_chunks (\<lambda>_ _ _. RequestErr ''timeout'') ''F1'' ''Sber''
      \<lparr>merged = [], out = []\<rparr> ([] @ (Some 0, Some 350) # []))
   = outcome_map merged (run_chunks (\<lambda>_ _ _. RequestErr ''timeout'') ''F1'' ''Sber''
      \<lparr>merged = [], out = []\<rparr> ([] @ []))"
  by (rule run_chunks_skips_request_error) simp

text \<open>
  C13. The specification's fetch example: chunk 2 of 3 fails with \<^verbatim>\<open>RequestError\<close>,
  chunks 1 and 3 succeed. The failure is printed, the instrument is kept, and its table
  holds the dates of chunks 1 and 3, sorted and each once, but in two columns
  \<open>n_x\<close> and \<open>n_y\<close> rather than one concatenated series.
\<close>

theorem run_chunks_spec_fetch_example:
  assumes n: "n \<notin> set [''date'', ''volume'', ''open'', ''high'', ''low'']"
    and f: "fetch figi (fst ra) (snd ra) = Candles ca" "fetch figi (fst rb) (snd rb) = RequestErr err"
      "fetch figi (fst rc) (snd rc) = Candles cc"
    and c: "ca \<noteq> []" "cc \<noteq> []" "distinct (map candle_date ca)" "distinct (map candle_date cc)"
  shows "\<exists>m. run_chunks fetch figi n \<lparr>merged = [], out = msgs\<rparr> [ra, rb, rc]
             = Normal \<lparr>merged = m, out = msgs @ [Printed err]\<rparr> \<and>
             columns m = [date_label, n @ ''_x'', n @ ''_y''] \<and>
             key_cells m = sort (remdups (map (\<lambda>c. Some (VDate (candle_date c))) (ca @ cc)))"
proof -
  have nd: "n \<noteq> date_label" using n by (simp add: date_label_def)
  obtain D1 C1 where t1: "D1 \<noteq> []" "chunk_table n ca = Inr [(date_label, D1), (n, C1)]"
    using chunk_table_shape [OF c(1) n] by blast
  obtain D3 C3 where t3: "chunk_table n cc = Inr [(date_label, D3), (n, C3)]"
    using chunk_table_shape [OF c(2) n] by blast
  have k1: "D1 = map (\<lambda>c. Some (VDate (candle_date c))) ca"
    using chunk_table_Inr [OF t1(2)] by simp
  have k3: "D3 = map (\<lambda>c. Some (VDate (candle_date c))) cc"
    using chunk_table_Inr [OF t3] by simp
  have d: "distinct D1" "distinct D3" using c(3,4) by (simp_all add: k1 k3 distinct_map inj_on_def)
  obtain K P Q where m: "K \<noteq> []"
      "merge_step [(date_label, D1), (n, C1)] [(date_label, D3), (n, C3)]
       = Inr [(date_label, K), (n @ ''_x'', P), (n @ ''_y'', Q)]"
    using merge_second_chunk [OF nd t1(1)] by blast
  have "merge_outer [(date_label, D1), (n, C1)] [(date_label, D3), (n, C3)]
        = Inr [(date_label, K), (n @ ''_x'', P), (n @ ''_y'', Q)]"
    using m(2) t1(1) by (simp add: merge_step_def frame_empty_def nrows_def)
  then have "K = sort (remdups (D1 @ D3))"
    using merge_outer_keys [of "[(date_label, D1), (n, C1)]" "[(date_label, D3), (n, C3)]"] d by simp
  moreover have "merge_step [] [(date_label, D1), (n, C1)] = Inr [(date_label, D1), (n, C1)]"
    by (simp add: merge_step_def frame_empty_def)
  ultimately show ?thesis
    using f t1(2) t3 m(2) by (simp add: chunk_step_def get_candles_def columns_def k1 k3)
qed

theorem run_chunks_spec_fetch_example_witness:
  "\<exists>m. run_chunks (\<lambda>_ s _. if s = Some 0 then Candles [\<lparr>c_open = \<lparr>units = 1, nano = 0\<rparr>,
            c_high = \<lparr>units = 1, nano = 0\<rparr>, c_low = \<lparr>units = 1, nano = 0\<rparr>, c_close = \<lparr>units = 1, nano = 0\<rparr>,
            volume = 1, time = 0\<rparr>]
          else if s = Some 351 then RequestErr ''timeout''
          else Candles [\<lparr>c_open = \<lparr>units = 2, nano = 0\<rparr>, c_high = \<lparr>units = 2, nano = 0\<rparr>,
            c_low = \<lparr>units = 2, nano = 0\<rparr>, c_close = \<lparr>units = 2, nano = 0\<rparr>, volume = 1, time = 60652800\<rparr>])
        ''F1'' ''Sber'' \<lparr>merged = [], out = []\<rparr>
        [(Some 0, Some 350), (Some 351, Some 701), (Some 702, Some 1000)]
      = Normal \<lparr>merged = m, out = [Printed ''timeout'']\<rparr> \<and>
      columns m = [''date'', ''Sber_x'', ''Sber_y''] \<and>
      key_cells m = [Some (VDate 0), Some (VDate 702)]"
  using run_chunks_spec_fetch_example [where n = "''Sber''" and figi = "''F1''" and msgs = "[]"
      and ra = "(Some 0, Some 350)" and rb = "(Some 351, Some 701)" and rc = "(Some 702, Some 1000)"
      and err = "''timeout''"
      and ca = "[\<lparr>c_open = \<lparr>units = 1, nano = 0\<rparr>, c_high = \<lparr>units = 1, nano = 0\<rparr>,
            c_low = \<lparr>units = 1, nano = 0\<rparr>, c_close = \<lparr>units = 1, nano = 0\<rparr>, volume = 1, time = 0\<rparr>]"
      and cc = "[\<lparr>c_open = \<lparr>units = 2, nano = 0\<rparr>, c_high = \<lparr>units = 2, nano = 0\<rparr>,
            c_low = \<lparr>units = 2, nano = 0\<rparr>, c_close = \<lparr>units = 2, nano = 0\<rparr>, volume = 1, time = 60652800\<rparr>]"
      and fetch = "\<lambda>_ s _. if s = Some 0 then Candles [\<lparr>c_open = \<lparr>units = 1, nano = 0\<rparr>,
            c_high = \<lparr>units = 1, nano = 0\<rparr>, c_low = \<lparr>units = 1, nano = 0\<rparr>, c_close = \<lparr>units = 1, nano = 0\<rparr>,
            volume = 1, time = 0\<rparr>]
          else if s = Some 351 then RequestErr ''timeout''
          else Candles [\<lparr>c_open = \<lparr>units = 2, nano = 0\<rparr>, c_high = \<lparr>units = 2, nano = 0\<rparr>,
            c_low = \<lparr>units = 2, nano = 0\<rparr>, c_close = \<lparr>units = 2, nano = 0\<rparr>, volume = 1, time = 60652800\<rparr>]"]
  by (simp add: date_label_def candle_date_def)

text \<open>
  C14. A chunk for which the API returns no candles (a range before the listing, or
  without trading) raises \<open>KeyError\<close> in \<^verbatim>\<open>temp_df[['date', asset_name]]\<close>: the
  remaining chunks of that instrument are never fetched.
\<close>

theorem run_chunks_empty_chunk_aborts:
  assumes "fetch figi (fst rng) (snd rng) = Candles []"
  shows "run_chunks fetch figi asset_name st (rng # rngs) = Raised (KeyError [''date'', asset_name]) st"
  using assms by (simp add: chunk_step_def get_candles_def chunk_table_Nil)

theorem run_chunks_empty_chunk_aborts_witness:
  "run_chunks (\<lambda>_ s _. if s = Some 0 then Candles [] else FetchFailed) ''F1'' ''Sber''
      \<lparr>merged = [], out = []\<rparr> [(Some 0, Some 350), (Some 351, Some 400)]
   = Raised (KeyError [''date'', ''Sber'']) \<lparr>merged = [], out = []\<rparr>"
  by (rule run_chunks_empty_chunk_aborts) simp

text \<open>
  C8. Invariant of the accumulator \<^verbatim>\<open>merged_df\<close> over the whole ticker loop: if the
  API never returns two candles of the same day in one response, the accumulated table
  stays rectangular and its dates stay unique, whatever fails on the way.
\<close>

theorem run_tickers_acc_inv:
  assumes "acc_inv (merged st)"
    and "\<forall>figi s e cs. fetch figi s e = Candles cs \<longrightarrow> distinct (map candle_date cs)"
  shows "acc_inv (merged (run_tickers fetch start_date end_date df st tickers))"
  using assms(1)
proof (induction tickers arbitrary: st)
  case Nil
  then show ?case by simp
next
  case (Cons t ts)
  then show ?case using assms(2) by (simp add: ticker_step_acc_inv)
qed

theorem run_tickers_acc_inv_witness:
  "acc_inv (merged (run_tickers (\<lambda>_ _ _. Candles [\<lparr>c_open = \<lparr>units = 1, nano = 0\<rparr>,
       c_high = \<lparr>units = 1, nano = 0\<rparr>, c_low = \<lparr>units = 1, nano = 0\<rparr>,
       c_close = \<lparr>units = 1, nano = 0\<rparr>, volume = 5, time = 0\<rparr>]) None None
     [\<lparr>row_ticker = ''MOEX'', row_figi = ''F1'', row_type = ''shares'', row_name = ''Moex''\<rparr>]
     \<lparr>merged = [], out = []\<rparr> [''MOEX'', ''SBER'']))"
  by (rule run_tickers_acc_inv) (simp_all add: acc_inv_def frame_wf_def key_cells_def)

text \<open>
  C32. A ticker with no catalog row is reported and skipped: the final table is the
  same as if it had not been requested.
\<close>

theorem run_tickers_skips_unknown:
  assumes "filter (\<lambda>r. row_ticker r = t) df = []"
  shows "merged (run_tickers fetch start_date end_date df st (xs @ t # ys))
         = merged (run_tickers fetch start_date end_date df st (xs @ ys))"
proof -
  let ?st = "run_tickers fetch start_date end_date df st xs"
  have "merged (ticker_step fetch start_date end_date df ?st t) = merged ?st"
    using assms by (simp add: ticker_step_def)
  then have "merged (run_tickers fetch start_date end_date df (ticker_step fetch start_date end_date df ?st t) ys)
             = merged (run_tickers fetch start_date end_date df ?st ys)"
    by (rule run_tickers_merged_only)
  then show ?thesis by (simp add: run_tickers_append)
qed

theorem run_tickers_skips_unknown_witness:
  "merged (run_tickers (\<lambda>_ _ _. FetchFailed) None None [] \<lparr>merged = [], out = []\<rparr> ([] @ ''XXXX'' # []))
   = merged (run_tickers (\<lambda>_ _ _. FetchFailed) None None [] \<lparr>merged = [], out = []\<rparr> ([] @ []))"
  by (rule run_tickers_skips_unknown) simp

text \<open>
  C5. Refinement of the SeriesMerger contract: when the accumulator is non-empty with
  unique dates and the incoming table has unique dates, \<open>merge_step\<close> yields the
  sorted union of the dates, and every value column of either side, read as a function
  of the date, is that side's column extended by NaN to the other side's dates.
\<close>

theorem merge_step_refines:
  assumes m: "acc_inv m" "\<not> frame_empty m" and t: "distinct (key_cells t)"
    and r: "merge_step m t = Inr r"
  shows "key_cells r = sort (remdups (key_cells m @ key_cells t)) \<and>
         (\<forall>p<length m. fst (m ! p) \<noteq> date_label \<longrightarrow>
            cell_in (key_cells r) (snd (r ! p))
            = outer_extend (key_cells m) (key_cells t) (cell_in (key_cells m) (snd (m ! p)))) \<and>
         (\<forall>q<length (value_columns t).
            cell_in (key_cells r) (snd (r ! (length m + q)))
            = outer_extend (key_cells t) (key_cells m) (cell_in (key_cells t) (snd (value_columns t ! q))))"
proof -
  from m r have M: "merge_outer m t = Inr r" by (simp add: merge_step_def)
  from m have dm: "distinct (key_cells m)" by (simp add: acc_inv_def)
  show ?thesis
    using merge_outer_keys [OF dm t M] merge_outer_left_series [OF dm t M]
      merge_outer_right_series [OF dm t M] by simp
qed

theorem merge_step_refines_witness:
  "cell_in [Some (VDate 1), Some (VDate 2), Some (VDate 3)] [Some (VNum 10), Some (VNum 20), None] (Some (VDate 3))
   = Some None"
proof -
  have "acc_inv ex_left" by (simp add: acc_inv_def frame_wf_def nrows_def)
  moreover have "\<not> frame_empty ex_left" by (simp add: frame_empty_def nrows_def)
  moreover have "distinct (key_cells ex_right)" by simp
  moreover have "merge_step ex_left ex_right =
     Inr [(''date'', [Some (VDate 1), Some (VDate 2), Some (VDate 3)]),
          (''A'', [Some (VNum 10), Some (VNum 20), None]),
          (''B'', [None, Some (VNum 21), Some (VNum 30)])]"
    using merge_outer_ex by (simp add: merge_step_def frame_empty_def nrows_def)
  ultimately have "\<forall>p<length ex_left. fst (ex_left ! p) \<noteq> date_label \<longrightarrow>
      cell_in [Some (VDate 1), Some (VDate 2), Some (VDate 3)] (snd ([(''date'', [Some (VDate 1), Some (VDate 2), Some (VDate 3)]),
          (''A'', [Some (VNum 10), Some (VNum 20), None]),
          (''B'', [None, Some (VNum 21), Some (VNum 30)])] ! p))
      = outer_extend (key_cells ex_left) (key_cells ex_right) (cell_in (key_cells ex_left) (snd (ex_left ! p)))"
    using merge_step_refines by fastforce
  then have "cell_in [Some (VDate 1), Some (VDate 2), Some (VDate 3)] [Some (VNum 10), Some (VNum 20), None]
      = outer_extend [Some (VDate 1), Some (VDate 2)] [Some (VDate 2), Some (VDate 3)]
          (cell_in [Some (VDate 1), Some (VDate 2)] [Some (VNum 10), Some (VNum 20)])"
    by (auto dest: spec [of _ 1] simp: date_label_def)
  then show ?thesis by (simp add: outer_extend_def fun_eq_iff)
qed

end
