(* ===== verification/Coalesce.thy ===== *)
theory Coalesce
  imports Frame
begin

text \<open>
  ColumnCoalescer: lines 117--124 of \<^verbatim>\<open>StockParser.run\<close> in \<^verbatim>\<open>src/main.py\<close>.
  \<^verbatim>\<open>columns\<close> is the label list of the merged frame, fixed before the loop;
  \<^verbatim>\<open>unique_columns\<close> is a Python \<^verbatim>\<open>set\<close>, whose iteration order the language
  does not fix (for strings it changes from run to run with hash randomisation). The
  loop therefore takes the iteration order as an argument \<open>order\<close>: any duplicate-free
  enumeration of the set (\<open>is_set_order\<close>). One iteration is \<open>coalesce_group\<close>:
  \<^item> \<open>relevant_columns\<close>: the labels that start with the group name (a prefix test,
    not an equality of stripped names);
  \<^item> \<^verbatim>\<open>combined_column\<close>: the stripped name of the last of them;
  \<^item> \<^verbatim>\<open>merged_df[relevant].bfill(axis=1).iloc[:, 0]\<close> is \<open>bfill_first\<close>: row by
    row, the first non-missing value among the relevant columns, left to right;
  \<^item> the result is stored under \<^verbatim>\<open>combined_column\<close> (in place when the label exists,
    appended otherwise) and all relevant labels but the last are dropped.
  Selecting or dropping a label an earlier iteration already dropped raises
  \<open>KeyError\<close>; these statements are outside the \<^verbatim>\<open>try\<close>, so the error ends
  \<^verbatim>\<open>run\<close>.

  The lemmas compute one iteration when every relevant label names one column
  (\<open>coalesce_group_eq\<close>, \<open>coalesce_group_append\<close>) and the whole loop from the
  iterations that act (\<open>coalesce_loop_one_effect\<close>, \<open>coalesce_loop_two_effects\<close>:
  the result of two acting groups depends on which the set yields first). On top of
  them, \<open>coalesce_instrument_eq\<close> and \<open>coalesce_suffixed_eq\<close> give the result for
  one instrument with any number of suffixed columns, with and without an unsuffixed
  one; the properties instantiate them with the tables the merge loop builds.
\<close>

fun first_valid :: "cell list \<Rightarrow> cell" where
  "first_valid [] = None"
| "first_valid (Some v # _) = Some v"
| "first_valid (None # cs) = first_valid cs"

definition bfill_first :: "frame \<Rightarrow> pyerr + cell list" where
  "bfill_first f =
     (if f = [] then Inl IndexError
      else Inr (map (\<lambda>i. first_valid (map (\<lambda>c. snd c ! i) f)) [0..<nrows f]))"

definition relevant_columns :: "string list \<Rightarrow> string \<Rightarrow> string list" where
  "relevant_columns cols column_name = filter (\<lambda>col. startswith col column_name) cols"

definition coalesce_group :: "string list \<Rightarrow> frame \<Rightarrow> string \<Rightarrow> pyerr + frame" where
  "coalesce_group cols merged_df column_name =
     (let relevant = relevant_columns cols column_name in
      if relevant = [] then Inl IndexError
      else
        let combined_column = rsplit_head (last relevant) in
        (case get_columns merged_df relevant of
           Inl e \<Rightarrow> Inl e
         | Inr sub \<Rightarrow>
             (case bfill_first sub of
                Inl e \<Rightarrow> Inl e
              | Inr vs \<Rightarrow> drop_columns (butlast relevant) (set_column combined_column vs merged_df))))"

fun coalesce_loop :: "string list \<Rightarrow> frame \<Rightarrow> string list \<Rightarrow> pyerr + frame" where
  "coalesce_loop cols merged_df [] = Inr merged_df"
| "coalesce_loop cols merged_df (column_name # rest) =
     (case coalesce_group cols merged_df column_name of
        Inl e \<Rightarrow> Inl e
      | Inr merged_df' \<Rightarrow> coalesce_loop cols merged_df' rest)"

text \<open>The contents of \<^verbatim>\<open>unique_columns\<close>, and what an iteration order of it is.\<close>

definition stripped_names :: "frame \<Rightarrow> string list" where
  "stripped_names f = map rsplit_head (columns f)"

definition is_set_order :: "string list \<Rightarrow> string list \<Rightarrow> bool" where
  "is_set_order xs order \<longleftrightarrow> distinct order \<and> set order = set xs"

definition coalesce_columns :: "string list \<Rightarrow> frame \<Rightarrow> pyerr + frame" where
  "coalesce_columns order merged_df = coalesce_loop (columns merged_df) merged_df order"

text \<open>Reading a frame by label, for stating what the loop computes.\<close>

definition column_of :: "frame \<Rightarrow> string \<Rightarrow> cell list" where
  "column_of f l = (case filter (\<lambda>c. fst c = l) f of [] \<Rightarrow> [] | c # _ \<Rightarrow> snd c)"

definition row_first_valid :: "frame \<Rightarrow> string list \<Rightarrow> cell list" where
  "row_first_valid f ls = map (\<lambda>i. first_valid (map (\<lambda>l. column_of f l ! i) ls)) [0..<nrows f]"

definition occurs_once :: "frame \<Rightarrow> string \<Rightarrow> bool" where
  "occurs_once f l \<longleftrightarrow> length (filter (\<lambda>c. fst c = l) f) = 1"

text \<open>
  Display names for which the prefix test of the loop behaves as an equality test: no
  underscore, and neither a prefix of \<^verbatim>\<open>date\<close> nor extended by it.
\<close>

definition plain_name :: "string \<Rightarrow> bool" where
  "plain_name n \<longleftrightarrow> CHR ''_'' \<notin> set n \<and> \<not> startswith n date_label \<and> \<not> startswith date_label n"

text \<open>The columns \<open>n_s\<close> that repeated merges give an instrument \<open>n\<close>.\<close>

abbreviation suffixed :: "string \<Rightarrow> (string \<times> cell list) list \<Rightarrow> frame" where
  "suffixed n SX \<equiv> map (\<lambda>p. (n @ CHR ''_'' # fst p, snd p)) SX"

subsection \<open>Lemmas\<close>

lemma first_valid_single [simp]: "first_valid [x] = x"
  by (cases x) simp_all

lemma date_label_chars [simp]: "CHR ''_'' \<notin> set date_label"
  by (simp add: date_label_def)

lemma rsplit_head_date [simp]: "rsplit_head date_label = date_label"
  by (simp add: date_label_def)

lemma not_startswith_suffix:
  "\<not> startswith n p \<Longrightarrow> CHR ''_'' \<notin> set p \<Longrightarrow> \<not> startswith (n @ CHR ''_'' # s) p"
  using startswith_underscore by blast

lemma occurs_once_filter:
  assumes "occurs_once f l"
  shows "filter (\<lambda>c. fst c = l) f = [(l, column_of f l)]"
proof -
  from assms obtain c where c: "filter (\<lambda>c. fst c = l) f = [c]"
    unfolding occurs_once_def by (metis One_nat_def length_0_conv length_Suc_conv)
  then have "c \<in> set (filter (\<lambda>c. fst c = l) f)" by simp
  then have "fst c = l" by simp
  with c show ?thesis by (cases c) (simp add: column_of_def)
qed

lemma occurs_once_mem: "occurs_once f l \<Longrightarrow> (l, column_of f l) \<in> set f"
proof -
  assume "occurs_once f l"
  then have "(l, column_of f l) \<in> set (filter (\<lambda>c. fst c = l) f)"
    by (simp add: occurs_once_filter)
  then show ?thesis by simp
qed

lemma occurs_once_in_columns: "occurs_once f l \<Longrightarrow> l \<in> set (columns f)"
  by (force simp: columns_def dest: occurs_once_mem)

lemma column_of_length:
  assumes "frame_wf f" "occurs_once f l"
  shows "length (column_of f l) = nrows f"
proof -
  from assms(2) have "(l, column_of f l) \<in> set f" by (rule occurs_once_mem)
  with assms(1) show ?thesis unfolding frame_wf_def list_all_iff by fastforce
qed

lemma get_columns_once:
  assumes "\<forall>l\<in>set ls. occurs_once f l"
  shows "get_columns f ls = Inr (map (\<lambda>l. (l, column_of f l)) ls)"
proof -
  have "missing_labels f ls = []"
    using assms by (auto simp: missing_labels_def occurs_once_in_columns)
  moreover have "concat (map (\<lambda>l. filter (\<lambda>c. fst c = l) f) ls) = map (\<lambda>l. (l, column_of f l)) ls"
    using assms by (intro concat_map_singleton) (simp add: occurs_once_filter)
  ultimately show ?thesis by (simp add: get_columns_def)
qed

lemma bfill_first_once:
  assumes "ls \<noteq> []" "\<forall>l\<in>set ls. occurs_once f l" "frame_wf f"
  shows "bfill_first (map (\<lambda>l. (l, column_of f l)) ls) = Inr (row_first_valid f ls)"
proof -
  have "nrows (map (\<lambda>l. (l, column_of f l)) ls) = nrows f"
    using assms by (cases ls) (auto simp: nrows_def column_of_length)
  with assms(1) show ?thesis by (simp add: bfill_first_def row_first_valid_def comp_def)
qed

text \<open>
  One iteration, when every relevant label names exactly one column: the combined
  column is the row-wise first valid value of the relevant columns, in their order.
\<close>

lemma coalesce_group_eq:
  assumes "relevant_columns cols u = rs" "rs \<noteq> []"
    and "\<forall>l\<in>set rs. occurs_once f l" "frame_wf f"
  shows "coalesce_group cols f u =
         drop_columns (butlast rs) (set_column (rsplit_head (last rs)) (row_first_valid f rs) f)"
  using assms by (simp add: coalesce_group_def get_columns_once bfill_first_once Let_def)

lemma row_first_valid_single:
  assumes "frame_wf f" "occurs_once f l"
  shows "row_first_valid f [l] = column_of f l"
  using column_of_length [OF assms, symmetric] by (simp add: row_first_valid_def map_nth)

lemma set_column_same:
  assumes "occurs_once f l"
  shows "set_column l (column_of f l) f = f"
proof -
  have "(\<lambda>(l', c). if l' = l then (l', column_of f l) else (l', c)) x = x" if "x \<in> set f" for x
  proof (cases "fst x = l")
    case True
    with that have "x \<in> set (filter (\<lambda>c. fst c = l) f)" by simp
    with assms have "x = (l, column_of f l)" by (simp add: occurs_once_filter)
    then show ?thesis by simp
  next
    case False
    then show ?thesis by (cases x) simp
  qed
  then show ?thesis
    using occurs_once_in_columns [OF assms] by (simp add: set_column_def map_idI)
qed

lemma coalesce_group_noop:
  assumes "relevant_columns cols u = [l]" "CHR ''_'' \<notin> set l" "occurs_once f l" "frame_wf f"
  shows "coalesce_group cols f u = Inr f"
  using assms
  by (simp add: coalesce_group_eq row_first_valid_single set_column_same drop_columns_def
      missing_labels_def)

lemma distinct_occurs_once:
  "distinct (columns f) \<Longrightarrow> l \<in> set (columns f) \<Longrightarrow> occurs_once f l"
  by (auto simp: occurs_once_def columns_def filter_fst_distinct)

lemma column_of_distinct:
  "distinct (columns f) \<Longrightarrow> (l, X) \<in> set f \<Longrightarrow> column_of f l = X"
  by (simp add: column_of_def columns_def filter_fst_distinct)

lemma plain_name_facts:
  assumes "plain_name n"
  shows "n \<noteq> date_label" "date_label \<noteq> n" "\<not> startswith date_label n" "\<not> startswith n date_label"
    "\<And>s. \<not> startswith (n @ CHR ''_'' # s) date_label" "\<And>s. date_label \<noteq> n @ CHR ''_'' # s"
    "CHR ''_'' \<notin> set n"
proof -
  show ns: "\<And>s. \<not> startswith (n @ CHR ''_'' # s) date_label"
    using assms not_startswith_suffix [of n date_label] by (simp add: plain_name_def)
  show "\<And>s. date_label \<noteq> n @ CHR ''_'' # s" using ns startswith_refl by metis
qed (use assms in \<open>auto simp: plain_name_def\<close>)

lemma coalesce_loop_noops:
  "\<forall>v\<in>set vs. coalesce_group cols f v = Inr f \<Longrightarrow> coalesce_loop cols f vs = Inr f"
  by (induction vs) simp_all

lemma coalesce_loop_one_effect:
  assumes "distinct order" "u \<in> set order" "coalesce_group cols f0 u = r"
    and "\<forall>v\<in>set order. v \<noteq> u \<longrightarrow>
           coalesce_group cols f0 v = Inr f0 \<and> (\<forall>h. r = Inr h \<longrightarrow> coalesce_group cols h v = Inr h)"
  shows "coalesce_loop cols f0 order = r"
  using assms
proof (induction order)
  case (Cons v vs)
  show ?case
  proof (cases "v = u")
    case True
    with Cons.prems show ?thesis by (cases r) (auto intro!: coalesce_loop_noops)
  next
    case False
    with Cons.prems Cons.IH show ?thesis by simp
  qed
qed simp

text \<open>
  Two groups with an effect: the result is the one of the group met second, after the
  one met first.
\<close>

lemma coalesce_loop_two_effects:
  assumes "distinct order" "a \<in> set order" "b \<in> set order" "a \<noteq> b"
    and "coalesce_group cols f0 a = Inr fa" "coalesce_group cols fa b = r1"
    and "coalesce_group cols f0 b = Inr fb" "coalesce_group cols fb a = r2"
    and "\<forall>v\<in>set order. v \<noteq> a \<and> v \<noteq> b \<longrightarrow>
           coalesce_group cols f0 v = Inr f0 \<and> coalesce_group cols fa v = Inr fa \<and>
           coalesce_group cols fb v = Inr fb \<and>
           (\<forall>h. r1 = Inr h \<or> r2 = Inr h \<longrightarrow> coalesce_group cols h v = Inr h)"
  shows "coalesce_loop cols f0 order = (if find (\<lambda>v. v = a \<or> v = b) order = Some a then r1 else r2)"
  using assms
proof (induction order)
  case (Cons v vs)
  consider "v = a" | "v = b" | "v \<noteq> a \<and> v \<noteq> b" by blast
  then show ?case
  proof cases
    case 1
    with Cons.prems have "coalesce_loop cols fa vs = r1"
      by (intro coalesce_loop_one_effect [where u = b]) auto
    with 1 Cons.prems show ?thesis by simp
  next
    case 2
    with Cons.prems have "coalesce_loop cols fb vs = r2"
      by (intro coalesce_loop_one_effect [where u = a]) auto
    with 2 Cons.prems show ?thesis by simp
  next
    case 3
    have "coalesce_loop cols f0 vs = (if find (\<lambda>v. v = a \<or> v = b) vs = Some a then r1 else r2)"
      by (rule Cons.IH) (use 3 Cons.prems in auto)
    with 3 Cons.prems show ?thesis by simp
  qed
qed simp

text \<open>A frame whose stripped labels are \<^verbatim>\<open>date\<close> and one name \<open>u\<close>: only the group of \<open>u\<close> acts.\<close>

lemma coalesce_columns_single_group:
  assumes ord: "is_set_order (stripped_names f0) order"
    and s: "set (stripped_names f0) = {date_label, u}"
    and g: "coalesce_group (columns f0) f0 u = Inr f1"
    and d: "coalesce_group (columns f0) f0 date_label = Inr f0" "coalesce_group (columns f0) f1 date_label = Inr f1"
  shows "coalesce_columns order f0 = Inr f1"
  unfolding coalesce_columns_def
proof (rule coalesce_loop_one_effect [where u = u])
  show "distinct order" "u \<in> set order" using ord s by (auto simp: is_set_order_def)
  show "coalesce_group (columns f0) f0 u = Inr f1" by (rule g)
  show "\<forall>v\<in>set order. v \<noteq> u \<longrightarrow> coalesce_group (columns f0) f0 v = Inr f0 \<and>
          (\<forall>h. Inr f1 = Inr h \<longrightarrow> coalesce_group (columns f0) h v = Inr h)"
    using ord s d by (auto simp: is_set_order_def)
qed

lemma date_group_noop:
  assumes "relevant_columns cols date_label = [date_label]" "distinct (columns f)"
    "date_label \<in> set (columns f)" "frame_wf f"
  shows "coalesce_group cols f date_label = Inr f"
  using assms by (intro coalesce_group_noop) (auto simp: distinct_occurs_once)


lemma suffixed_columns [simp]:
  "columns (suffixed n SX) = map (\<lambda>p. n @ CHR ''_'' # fst p) SX"
  by (simp add: columns_def)

lemma distinct_suffixed: "distinct (map fst SX) \<Longrightarrow> distinct (map (\<lambda>p. n @ CHR ''_'' # fst p) SX)"
  by (induction SX) auto

lemma coalesce_instrument_eq:
  assumes n: "plain_name n" and ds: "distinct (map fst SX)"
    and us: "\<forall>p\<in>set SX. CHR ''_'' \<notin> set (fst p)"
    and len: "\<forall>p\<in>set SX. length (snd p) = length D" "length Z = length D"
    and ord: "is_set_order (stripped_names ((date_label, D) # suffixed n SX @ [(n, Z)])) order"
  shows "coalesce_columns order ((date_label, D) # suffixed n SX @ [(n, Z)])
         = Inr [(date_label, D), (n, map (\<lambda>i. first_valid (map (\<lambda>p. snd p ! i) SX @ [Z ! i])) [0..<length D])]"
proof -
  let ?f0 = "(date_label, D) # suffixed n SX @ [(n, Z)]"
  let ?W = "map (\<lambda>i. first_valid (map (\<lambda>p. snd p ! i) SX @ [Z ! i])) [0..<length D]"
  let ?f1 = "[(date_label, D), (n, ?W)]"
  let ?rs = "map (\<lambda>p. n @ CHR ''_'' # fst p) SX @ [n]"
  note nf = plain_name_facts [OF n]
  have cols: "columns ?f0 = date_label # ?rs" by (simp add: columns_def)
  have dc: "distinct (columns ?f0)"
    using nf ds by (auto simp: cols distinct_suffixed)
  have wf: "frame_wf ?f0" "frame_wf ?f1" using len by (auto simp: frame_wf_def nrows_def list_all_iff)
  have rd: "relevant_columns (columns ?f0) date_label = [date_label]"
    using nf by (simp add: cols relevant_columns_def comp_def)
  have rn: "relevant_columns (columns ?f0) n = ?rs"
    using nf by (simp add: cols relevant_columns_def comp_def)
  have o: "\<forall>l\<in>set ?rs. occurs_once ?f0 l"
    unfolding Ball_def using distinct_occurs_once [OF dc] by (simp add: cols)
  have "column_of ?f0 (n @ CHR ''_'' # fst p) = snd p" if "p \<in> set SX" for p
    using that dc by (intro column_of_distinct) auto
  moreover have "column_of ?f0 n = Z" using dc by (intro column_of_distinct) auto
  ultimately have rfv: "row_first_valid ?f0 ?rs = ?W"
    by (simp add: row_first_valid_def nrows_def comp_def cong: map_cong)
  have nx: "n \<notin> (\<lambda>p. n @ CHR ''_'' # fst p) ` set SX" "date_label \<notin> (\<lambda>p. n @ CHR ''_'' # fst p) ` set SX"
    using nf by auto
  have fx: "filter (\<lambda>c. fst c \<notin> set (map (\<lambda>p. n @ CHR ''_'' # fst p) SX)) (suffixed n SX) = []"
    by (auto simp: filter_empty_conv)
  have g: "coalesce_group (columns ?f0) ?f0 n = Inr ?f1"
    using coalesce_group_eq [OF rn _ o wf(1)] nf rfv nx fx
    by (simp add: set_column_def drop_columns_def missing_labels_def columns_def comp_def)
  have s: "set (stripped_names ?f0) = {date_label, n}"
    using nf us by (auto simp: stripped_names_def columns_def)
  show ?thesis
    by (rule coalesce_columns_single_group [OF ord s g date_group_noop date_group_noop])
       (use rd dc wf nf in \<open>simp_all add: columns_def\<close>)
qed

lemma coalesce_suffixed_eq:
  assumes n: "plain_name n" and ds: "distinct (map fst (SX @ [p]))"
    and us: "\<forall>q\<in>set (SX @ [p]). CHR ''_'' \<notin> set (fst q)"
    and len: "\<forall>q\<in>set (SX @ [p]). length (snd q) = length D"
    and ord: "is_set_order (stripped_names ((date_label, D) # suffixed n (SX @ [p]))) order"
  shows "coalesce_columns order ((date_label, D) # suffixed n (SX @ [p]))
         = Inr [(date_label, D), (n @ CHR ''_'' # fst p, snd p),
                (n, map (\<lambda>i. first_valid (map (\<lambda>q. snd q ! i) (SX @ [p]))) [0..<length D])]"
proof -
  let ?f0 = "(date_label, D) # suffixed n (SX @ [p])"
  let ?W = "map (\<lambda>i. first_valid (map (\<lambda>q. snd q ! i) (SX @ [p]))) [0..<length D]"
  let ?f1 = "[(date_label, D), (n @ CHR ''_'' # fst p, snd p), (n, ?W)]"
  let ?rs = "map (\<lambda>q. n @ CHR ''_'' # fst q) (SX @ [p])"
  note nf = plain_name_facts [OF n]
  have cols: "columns ?f0 = date_label # ?rs" by (simp add: columns_def)
  have dc: "distinct (columns ?f0)"
    using nf ds by (auto simp: cols distinct_suffixed simp del: map_append)
  have wf: "frame_wf ?f0" "frame_wf ?f1" using len by (auto simp: frame_wf_def nrows_def list_all_iff)
  have rd: "relevant_columns (columns ?f0) date_label = [date_label]"
    using nf by (simp add: columns_def relevant_columns_def comp_def)
  have rn: "relevant_columns (columns ?f0) n = ?rs"
    using nf by (simp add: cols relevant_columns_def comp_def del: map_append)
  have o: "\<forall>l\<in>set ?rs. occurs_once ?f0 l"
    unfolding Ball_def using distinct_occurs_once [OF dc] by (simp add: cols del: map_append)
  have rfv: "row_first_valid ?f0 ?rs = ?W"
  proof -
    define SY where "SY = SX @ [p]"
    have "column_of ((date_label, D) # suffixed n SY) (n @ CHR ''_'' # fst q) = snd q"
      if "q \<in> set SY" for q
      using that dc unfolding SY_def by (intro column_of_distinct) (force simp del: map_append)+
    then show ?thesis unfolding SY_def [symmetric]
      by (simp add: row_first_valid_def nrows_def comp_def cong: map_cong)
  qed
  have nx: "n \<notin> (\<lambda>q. n @ CHR ''_'' # fst q) ` set (SX @ [p])"
    "date_label \<notin> (\<lambda>q. n @ CHR ''_'' # fst q) ` set (SX @ [p])"
    using nf by auto
  have rp: "rsplit_head (n @ CHR ''_'' # fst p) = n" using us by simp
  have px: "n @ CHR ''_'' # fst p \<notin> (\<lambda>q. n @ CHR ''_'' # fst q) ` set SX"
    using ds by auto
  have fx: "filter (\<lambda>c. fst c \<notin> set (map (\<lambda>q. n @ CHR ''_'' # fst q) SX)) (suffixed n SX) = []"
    by (auto simp: filter_empty_conv)
  have sc: "set_column n ?W ?f0 = ?f0 @ [(n, ?W)]"
    using nx nf by (simp add: set_column_def columns_def)
  have dr: "drop_columns (map (\<lambda>q. n @ CHR ''_'' # fst q) SX) (?f0 @ [(n, ?W)]) = Inr ?f1"
  proof -
    have "missing_labels (?f0 @ [(n, ?W)]) (map (\<lambda>q. n @ CHR ''_'' # fst q) SX) = []"
      by (force simp: missing_labels_def columns_def filter_empty_conv)
    with fx px nx nf show ?thesis by (simp add: drop_columns_def)
  qed
  have g: "coalesce_group (columns ?f0) ?f0 n = Inr ?f1"
    using coalesce_group_eq [OF rn _ o wf(1)] rfv rp sc dr by simp
  have s: "set (stripped_names ?f0) = {date_label, n}"
    using nf us by (auto simp: stripped_names_def columns_def)
  have d1: "distinct (columns ?f1)" using nf by (simp add: columns_def)
  show ?thesis
    by (rule coalesce_columns_single_group [OF ord s g date_group_noop date_group_noop])
       (use rd dc d1 wf nf in \<open>simp_all add: columns_def\<close>)
qed

text \<open>One group whose combined label is new: it is appended, the other relevant labels go.\<close>

lemma coalesce_group_append:
  assumes r: "relevant_columns cols u = rs @ [l]" and o: "\<forall>x\<in>set (rs @ [l]). occurs_once f x"
    and c: "rsplit_head l \<notin> set (columns f)" and wf: "frame_wf f"
  shows "coalesce_group cols f u =
         Inr (filter (\<lambda>c. fst c \<notin> set rs) f @ [(rsplit_head l, row_first_valid f (rs @ [l]))])"
proof -
  have m: "missing_labels (f @ [(rsplit_head l, row_first_valid f (rs @ [l]))]) rs = []"
    using o by (auto simp: missing_labels_def columns_def filter_empty_conv dest!: occurs_once_in_columns)
  have "rsplit_head l \<notin> set rs"
    using o c by (auto dest: occurs_once_in_columns)
  with m c show ?thesis
    using coalesce_group_eq [OF r _ o wf] by (simp add: set_column_def drop_columns_def)
qed

lemma coalesce_group_two_suffixes:
  assumes r: "relevant_columns cols u = [u @ ''_x'', u @ ''_y'']"
    and d: "distinct (columns g)" "u @ ''_x'' \<in> set (columns g)" "u @ ''_y'' \<in> set (columns g)"
    and u: "u \<notin> set (columns g)" and wf: "frame_wf g"
  shows "coalesce_group cols g u =
         Inr (filter (\<lambda>c. fst c \<noteq> u @ ''_x'') g @ [(u, row_first_valid g [u @ ''_x'', u @ ''_y''])])"
proof -
  have "\<forall>x\<in>set ([u @ ''_x''] @ [u @ ''_y'']). occurs_once g x"
    using d by (auto intro: distinct_occurs_once)
  moreover have "relevant_columns cols u = [u @ ''_x''] @ [u @ ''_y'']" using r by simp
  ultimately show ?thesis
    using coalesce_group_append [of cols u "[u @ ''_x'']" "u @ ''_y''" g] wf u
      rsplit_head_suffix [of "''y''" u] by simp
qed

lemma coalesce_two_instruments_eq:
  assumes a: "plain_name a" and b: "plain_name b"
    and ab: "\<not> startswith a b" "\<not> startswith b a"
    and len: "length X1 = length D" "length Y1 = length D" "length X2 = length D" "length Y2 = length D"
    and ord: "is_set_order (stripped_names [(date_label, D), (a @ ''_x'', X1), (a @ ''_y'', Y1),
                (b @ ''_x'', X2), (b @ ''_y'', Y2)]) order"
  shows "coalesce_columns order [(date_label, D), (a @ ''_x'', X1), (a @ ''_y'', Y1),
                (b @ ''_x'', X2), (b @ ''_y'', Y2)]
         = Inr ([(date_label, D), (a @ ''_y'', Y1), (b @ ''_y'', Y2)] @
                (if find (\<lambda>v. v = a \<or> v = b) order = Some a
                 then [(a, map (\<lambda>i. first_valid [X1 ! i, Y1 ! i]) [0..<length D]),
                       (b, map (\<lambda>i. first_valid [X2 ! i, Y2 ! i]) [0..<length D])]
                 else [(b, map (\<lambda>i. first_valid [X2 ! i, Y2 ! i]) [0..<length D]),
                       (a, map (\<lambda>i. first_valid [X1 ! i, Y1 ! i]) [0..<length D])]))"
proof -
  let ?Wa = "map (\<lambda>i. first_valid [X1 ! i, Y1 ! i]) [0..<length D]"
  let ?Wb = "map (\<lambda>i. first_valid [X2 ! i, Y2 ! i]) [0..<length D]"
  let ?f0 = "[(date_label, D), (a @ ''_x'', X1), (a @ ''_y'', Y1), (b @ ''_x'', X2), (b @ ''_y'', Y2)]"
  let ?fa = "[(date_label, D), (a @ ''_y'', Y1), (b @ ''_x'', X2), (b @ ''_y'', Y2), (a, ?Wa)]"
  let ?fb = "[(date_label, D), (a @ ''_x'', X1), (a @ ''_y'', Y1), (b @ ''_y'', Y2), (b, ?Wb)]"
  let ?fab = "[(date_label, D), (a @ ''_y'', Y1), (b @ ''_y'', Y2), (a, ?Wa), (b, ?Wb)]"
  let ?fba = "[(date_label, D), (a @ ''_y'', Y1), (b @ ''_y'', Y2), (b, ?Wb), (a, ?Wa)]"
  let ?cols = "columns ?f0"
  note af = plain_name_facts [OF a] and bf = plain_name_facts [OF b]
  have ne: "a \<noteq> b" "b \<noteq> a" using ab by auto
  have sx: "\<not> startswith (a @ CHR ''_'' # s) b" "\<not> startswith (b @ CHR ''_'' # s) a" for s
    using ab af bf not_startswith_suffix by blast+
  have lx: "a @ CHR ''_'' # s \<noteq> b @ CHR ''_'' # t" "a @ CHR ''_'' # s \<noteq> b" "b @ CHR ''_'' # s \<noteq> a"
    "b @ CHR ''_'' # s \<noteq> a @ CHR ''_'' # t" "a \<noteq> b @ CHR ''_'' # s" "b \<noteq> a @ CHR ''_'' # s" for s t
    using sx ab by (metis startswith_append)+
  have wf: "frame_wf ?f0" "frame_wf ?fa" "frame_wf ?fb"
    using len by (simp_all add: frame_wf_def nrows_def row_first_valid_def)
  have rd: "relevant_columns ?cols date_label = [date_label]"
    and ra: "relevant_columns ?cols a = [a @ ''_x'', a @ ''_y'']"
    and rb: "relevant_columns ?cols b = [b @ ''_x'', b @ ''_y'']"
    using af bf sx by (simp_all add: relevant_columns_def columns_def)
  have dist: "distinct (columns g)" "date_label \<in> set (columns g)"
    if "g \<in> {?f0, ?fa, ?fb, ?fab, ?fba}" for g
    using that af bf lx ne by (auto simp: columns_def)
  have wfab: "frame_wf ?fab" "frame_wf ?fba"
    using len by (simp_all add: frame_wf_def nrows_def)
  have gd: "coalesce_group ?cols g date_label = Inr g" if "g \<in> {?f0, ?fa, ?fb, ?fab, ?fba}" for g
  proof (rule date_group_noop [OF rd])
    show "distinct (columns g)" "date_label \<in> set (columns g)" using dist [OF that] by simp_all
    show "frame_wf g" using that wf wfab by auto
  qed
  have ga: "coalesce_group ?cols g a = Inr (filter (\<lambda>c. fst c \<noteq> a @ ''_x'') g @ [(a, ?Wa)])"
    if "g \<in> {?f0, ?fb}" for g
  proof -
    have "row_first_valid g [a @ ''_x'', a @ ''_y''] = ?Wa"
      using that af bf lx ne by (auto simp: row_first_valid_def column_of_def nrows_def)
    moreover have "a @ ''_x'' \<in> set (columns g)" "a @ ''_y'' \<in> set (columns g)" "a \<notin> set (columns g)"
      using that af bf lx ne by (auto simp: columns_def)
    ultimately show ?thesis using coalesce_group_two_suffixes [OF ra] dist [of g] that wf by auto
  qed
  have gb: "coalesce_group ?cols g b = Inr (filter (\<lambda>c. fst c \<noteq> b @ ''_x'') g @ [(b, ?Wb)])"
    if "g \<in> {?f0, ?fa}" for g
  proof -
    have "row_first_valid g [b @ ''_x'', b @ ''_y''] = ?Wb"
      using that af bf lx ne by (auto simp: row_first_valid_def column_of_def nrows_def)
    moreover have "b @ ''_x'' \<in> set (columns g)" "b @ ''_y'' \<in> set (columns g)" "b \<notin> set (columns g)"
      using that af bf lx ne by (auto simp: columns_def)
    ultimately show ?thesis using coalesce_group_two_suffixes [OF rb] dist [of g] that wf by auto
  qed
  have ga0: "coalesce_group ?cols ?f0 a = Inr ?fa" and gab: "coalesce_group ?cols ?fa b = Inr ?fab"
    and gb0: "coalesce_group ?cols ?f0 b = Inr ?fb" and gba: "coalesce_group ?cols ?fb a = Inr ?fba"
    using ga [of ?f0] ga [of ?fb] gb [of ?f0] gb [of ?fa] af bf lx ne by simp_all
  have sn: "stripped_names ?f0 = [date_label, a, a, b, b]"
    using af bf by (simp add: stripped_names_def columns_def)
  from ord have d: "distinct order" and s: "set order = {date_label, a, b}"
    unfolding is_set_order_def sn by auto
  show ?thesis unfolding coalesce_columns_def
    by (subst coalesce_loop_two_effects [OF d _ _ _ ga0 gab gb0 gba]) (use s ne af gd in auto)
qed

subsection \<open>Properties of the coalescing loop\<close>

text \<open>
  C7. An instrument fetched in three chunks has, after the merges, the columns
  \<^verbatim>\<open>n_x, n_y, n\<close>. Whatever the iteration order of the set, coalescing
  leaves \<^verbatim>\<open>date\<close> and one column \<open>n\<close> holding, row by row, the first non-missing
  price in chunk order.
\<close>

theorem coalesce_three_chunks:
  assumes "plain_name n" "length X = length D" "length Y = length D" "length Z = length D"
    and "is_set_order (stripped_names [(date_label, D), (n @ ''_x'', X), (n @ ''_y'', Y), (n, Z)]) order"
  shows "coalesce_columns order [(date_label, D), (n @ ''_x'', X), (n @ ''_y'', Y), (n, Z)]
         = Inr [(date_label, D), (n, map (\<lambda>i. first_valid [X ! i, Y ! i, Z ! i]) [0..<length D])]"
  using coalesce_instrument_eq [of n "[(''x'', X), (''y'', Y)]" D Z order] assms by simp

theorem coalesce_three_chunks_witness:
  "coalesce_columns [''date'', ''Sber'']
     [(''date'', [Some (VDate 1), Some (VDate 2), Some (VDate 3)]),
      (''Sber_x'', [Some (VNum 10), None, None]), (''Sber_y'', [None, Some (VNum 20), None]),
      (''Sber'', [None, None, Some (VNum 30)])]
   = Inr [(''date'', [Some (VDate 1), Some (VDate 2), Some (VDate 3)]),
          (''Sber'', [Some (VNum 10), Some (VNum 20), Some (VNum 30)])]"
  using coalesce_three_chunks [of "''Sber''" "[Some (VNum 10), None, None]"
      "[Some (VDate 1), Some (VDate 2), Some (VDate 3)]" "[None, Some (VNum 20), None]"
      "[None, None, Some (VNum 30)]" "[''date'', ''Sber'']"]
  by (simp add: plain_name_def startswith_def date_label_def is_set_order_def stripped_names_def
      columns_def rsplit_head_def upt_rec insert_commute)

text \<open>
  C15. The specification's coalescing example, for any two suffixes: columns
  \<^verbatim>\<open>AAA_1 = [10, NaN]\<close> and \<^verbatim>\<open>AAA_2 = [NaN, 20]\<close> do give a column
  \<^verbatim>\<open>AAA = [10, 20]\<close>, but the last suffixed column is kept beside it: only the
  relevant columns before the last one are dropped.
\<close>

theorem coalesce_two_chunks:
  assumes "plain_name n" "CHR ''_'' \<notin> set s1" "CHR ''_'' \<notin> set s2" "s1 \<noteq> s2"
    and "length X = length D" "length Y = length D"
    and "is_set_order (stripped_names [(date_label, D), (n @ CHR ''_'' # s1, X), (n @ CHR ''_'' # s2, Y)]) order"
  shows "coalesce_columns order [(date_label, D), (n @ CHR ''_'' # s1, X), (n @ CHR ''_'' # s2, Y)]
         = Inr [(date_label, D), (n @ CHR ''_'' # s2, Y), (n, map (\<lambda>i. first_valid [X ! i, Y ! i]) [0..<length D])]"
  using coalesce_suffixed_eq [of n "[(s1, X)]" "(s2, Y)" D order] assms by simp

theorem coalesce_two_chunks_witness:
  "coalesce_columns [''AAA'', ''date'']
     [(''date'', [Some (VDate 1), Some (VDate 2)]), (''AAA_1'', [Some (VNum 10), None]),
      (''AAA_2'', [None, Some (VNum 20)])]
   = Inr [(''date'', [Some (VDate 1), Some (VDate 2)]), (''AAA_2'', [None, Some (VNum 20)]),
          (''AAA'', [Some (VNum 10), Some (VNum 20)])]"
  using coalesce_two_chunks [of "''AAA''" "''1''" "''2''" "[Some (VNum 10), None]"
      "[Some (VDate 1), Some (VDate 2)]" "[None, Some (VNum 20)]" "[''AAA'', ''date'']"]
  by (simp add: plain_name_def startswith_def date_label_def is_set_order_def stripped_names_def
      columns_def rsplit_head_def upt_rec insert_commute)

text \<open>
  C16. Coalescing is not idempotent. A second pass over the table of C2 (with the
  suffixes the merge uses) drops the surviving \<^verbatim>\<open>n_y\<close> column and recomputes
  \<open>n\<close> with the later chunk first: where both chunks have a price, the second pass
  replaces the first chunk's price by the second's.
\<close>

theorem coalesce_second_pass:
  assumes "plain_name n" "length X = length D" "length Y = length D"
    and "is_set_order (stripped_names [(date_label, D), (n @ ''_y'', Y),
           (n, map (\<lambda>i. first_valid [X ! i, Y ! i]) [0..<length D])]) order"
  shows "coalesce_columns order [(date_label, D), (n @ ''_y'', Y),
           (n, map (\<lambda>i. first_valid [X ! i, Y ! i]) [0..<length D])]
         = Inr [(date_label, D), (n, map (\<lambda>i. first_valid [Y ! i, X ! i]) [0..<length D])]"
proof -
  have "first_valid [y, first_valid [x, y]] = first_valid [y, x]" for x y :: cell
    by (cases x; cases y) simp_all
  then show ?thesis
    using coalesce_instrument_eq [of n "[(''y'', Y)]" D "map (\<lambda>i. first_valid [X ! i, Y ! i]) [0..<length D]" order]
      assms by simp
qed

theorem coalesce_second_pass_witness:
  "coalesce_columns [''date'', ''Sber'']
     [(''date'', [Some (VDate 1)]), (''Sber_y'', [Some (VNum 2)]), (''Sber'', [Some (VNum 1)])]
   = Inr [(''date'', [Some (VDate 1)]), (''Sber'', [Some (VNum 2)])]"
  using coalesce_second_pass [of "''Sber''" "[Some (VNum 1)]" "[Some (VDate 1)]" "[Some (VNum 2)]"
      "[''date'', ''Sber'']"]
  by (simp add: plain_name_def startswith_def date_label_def is_set_order_def stripped_names_def
      columns_def rsplit_head_def)

text \<open>
  C17. When one display name \<open>a\<close> is a proper prefix of another \<open>b = a t\<close> and both
  instruments were fetched in two chunks, every iteration order ends in
  \<open>KeyError\<close>: the group of \<open>a\<close> also claims the columns of \<open>b\<close>, and whichever
  group runs second selects a column the first has dropped. The error escapes
  \<^verbatim>\<open>run\<close>, so no table is returned.
\<close>

theorem coalesce_prefix_crash:
  assumes a: "plain_name a" and b: "plain_name (a @ t)" and t: "t \<noteq> []"
    and len: "length X = length D" "length Y = length D" "length U = length D" "length V = length D"
    and ord: "is_set_order (stripped_names [(date_label, D), (a @ ''_x'', X), (a @ ''_y'', Y),
                (a @ t @ ''_x'', U), (a @ t @ ''_y'', V)]) order"
  shows "coalesce_columns order [(date_label, D), (a @ ''_x'', X), (a @ ''_y'', Y),
                (a @ t @ ''_x'', U), (a @ t @ ''_y'', V)] = Inl (KeyError [a @ t @ ''_x''])"
proof -
  let ?f0 = "[(date_label, D), (a @ ''_x'', X), (a @ ''_y'', Y), (a @ t @ ''_x'', U), (a @ t @ ''_y'', V)]"
  let ?W = "row_first_valid ?f0 [a @ ''_x'', a @ ''_y'', a @ t @ ''_x'', a @ t @ ''_y'']"
  let ?W' = "row_first_valid ?f0 [a @ t @ ''_x'', a @ t @ ''_y'']"
  let ?f1 = "[(date_label, D), (a @ t @ ''_y'', V), (a @ t, ?W)]"
  let ?f2 = "[(date_label, D), (a @ ''_x'', X), (a @ ''_y'', Y), (a @ t @ ''_y'', V), (a @ t, ?W')]"
  let ?cols = "columns ?f0"
  note af = plain_name_facts [OF a] and bf = plain_name_facts [OF b]
  have tu: "CHR ''_'' \<notin> set t" using bf by simp
  have tf: "\<not> startswith ''_x'' t" "\<not> startswith ''_y'' t"
    using t tu by (cases t; auto simp: startswith_def)+
  have ne: "a @ t \<noteq> a" "a \<noteq> a @ t" "t \<noteq> ''_x''" "t \<noteq> ''_y''"
    "t @ ''_x'' \<noteq> ''_x''" "t @ ''_y'' \<noteq> ''_y''" "t @ ''_x'' \<noteq> ''_y''" "t @ ''_y'' \<noteq> ''_x''"
    using t tu by auto
  have wf: "frame_wf ?f0" "frame_wf ?f1" "frame_wf ?f2"
    using len by (simp_all add: frame_wf_def nrows_def row_first_valid_def)
  have rd: "relevant_columns ?cols date_label = [date_label]"
    and ra: "relevant_columns ?cols a = [a @ ''_x'', a @ ''_y'', a @ t @ ''_x'', a @ t @ ''_y'']"
    and rb: "relevant_columns ?cols (a @ t) = [a @ t @ ''_x'', a @ t @ ''_y'']"
    using af bf tf by (simp_all add: relevant_columns_def columns_def startswith_def)
  have gd: "coalesce_group ?cols g date_label = Inr g" if "g \<in> {?f0, ?f1, ?f2}" for g
    using that af bf wf by (auto intro!: coalesce_group_noop [OF rd] simp: occurs_once_def)
  have rsb: "rsplit_head (a @ t @ ''_y'') = a @ t"
    using rsplit_head_suffix [of "''y''" "a @ t"] by simp
  have oa: "\<forall>l\<in>set [a @ ''_x'', a @ ''_y'', a @ t @ ''_x'', a @ t @ ''_y'']. occurs_once ?f0 l"
    using af bf ne by (simp add: occurs_once_def)
  have ob: "\<forall>l\<in>set [a @ t @ ''_x'', a @ t @ ''_y'']. occurs_once ?f0 l"
    using oa by simp
  have ga: "coalesce_group ?cols ?f0 a = Inr ?f1"
    using coalesce_group_eq [OF ra _ oa wf(1)] af bf ne rsb
    by (simp add: set_column_def drop_columns_def missing_labels_def columns_def)
  have gb: "coalesce_group ?cols ?f0 (a @ t) = Inr ?f2"
    using coalesce_group_eq [OF rb _ ob wf(1)] af bf ne rsb
    by (simp add: set_column_def drop_columns_def missing_labels_def columns_def)
  have gb1: "coalesce_group ?cols ?f1 (a @ t) = Inl (KeyError [a @ t @ ''_x''])"
    using rb af bf ne by (simp add: coalesce_group_def get_columns_def missing_labels_def columns_def)
  have ga2: "coalesce_group ?cols ?f2 a = Inl (KeyError [a @ t @ ''_x''])"
    using ra af bf ne by (simp add: coalesce_group_def get_columns_def missing_labels_def columns_def)
  have sn: "stripped_names ?f0 = [date_label, a, a, a @ t, a @ t]"
    using af rsb rsplit_head_suffix [of "''x''" "a @ t"] by (simp add: stripped_names_def columns_def)
  from ord have d: "distinct order" and s: "set order = {date_label, a, a @ t}"
    unfolding is_set_order_def sn by auto
  show ?thesis unfolding coalesce_columns_def
    by (subst coalesce_loop_two_effects [OF d _ _ _ ga gb1 gb ga2]) (use s ne gd in auto)
qed

theorem coalesce_prefix_crash_witness:
  "coalesce_columns [''date'', ''Ros'', ''Rosneft'']
     [(''date'', [Some (VDate 1)]), (''Ros_x'', [Some (VNum 1)]), (''Ros_y'', [None]),
      (''Rosneft_x'', [Some (VNum 2)]), (''Rosneft_y'', [None])]
   = Inl (KeyError [''Rosneft_x''])"
  using coalesce_prefix_crash [of "''Ros''" "''neft''" "[Some (VNum 1)]" "[Some (VDate 1)]" "[None]"
      "[Some (VNum 2)]" "[None]" "[''date'', ''Ros'', ''Rosneft'']"]
  by (simp add: plain_name_def startswith_def date_label_def is_set_order_def stripped_names_def
      columns_def rsplit_head_def insert_commute)




text \<open>
  C34. A display name that itself contains an underscore, \<open>p_q\<close>, is split by
  \<^verbatim>\<open>rsplit('_', 1)\<close> even when nothing was merged twice: the table gains a
  copy of the column under the name \<open>p\<close>, and keeps the original.
\<close>

theorem coalesce_underscore_name:
  assumes p: "plain_name p" and q: "CHR ''_'' \<notin> set q" and len: "length X = length D"
    and ord: "is_set_order (stripped_names [(date_label, D), (p @ CHR ''_'' # q, X)]) order"
  shows "coalesce_columns order [(date_label, D), (p @ CHR ''_'' # q, X)]
         = Inr [(date_label, D), (p @ CHR ''_'' # q, X), (p, X)]"
proof -
  have "map (\<lambda>i. first_valid [X ! i]) [0..<length D] = X"
    using len map_nth [of X] by simp
  then show ?thesis using coalesce_suffixed_eq [of p "[]" "(q, X)" D order] assms by simp
qed

theorem coalesce_underscore_name_witness:
  "coalesce_columns [''date'', ''Mech'']
     [(''date'', [Some (VDate 1)]), (''Mech_ao'', [Some (VNum 5)])]
   = Inr [(''date'', [Some (VDate 1)]), (''Mech_ao'', [Some (VNum 5)]), (''Mech'', [Some (VNum 5)])]"
  using coalesce_underscore_name [of "''Mech''" "''ao''" "[Some (VNum 5)]" "[Some (VDate 1)]" "[''date'', ''Mech'']"]
  by (simp add: plain_name_def startswith_def date_label_def is_set_order_def stripped_names_def
      columns_def rsplit_head_def)

text \<open>
  C35. The specification's no-collision case: a rectangular table whose labels are
  distinct, contain no underscore and are not prefixes of one another passes through
  unchanged, for every iteration order.
\<close>

theorem coalesce_plain_noop:
  assumes wf: "frame_wf f" and dc: "distinct (columns f)"
    and nu: "\<forall>l\<in>set (columns f). CHR ''_'' \<notin> set l"
    and pf: "\<forall>a\<in>set (columns f). \<forall>b\<in>set (columns f). startswith a b \<longrightarrow> a = b"
    and ord: "is_set_order (stripped_names f) order"
  shows "coalesce_columns order f = Inr f"
proof -
  have sn: "stripped_names f = columns f"
    using nu by (simp add: stripped_names_def map_idI)
  have "coalesce_group (columns f) f u = Inr f" if u: "u \<in> set (columns f)" for u
  proof -
    have "relevant_columns (columns f) u = filter (\<lambda>x. x = u) (columns f)"
      unfolding relevant_columns_def using pf u by (intro filter_cong) auto
    also have "\<dots> = [u]" using dc u by (rule filter_eq_single)
    finally have "relevant_columns (columns f) u = [u]" .
    with distinct_occurs_once [OF dc u] nu u wf show ?thesis by (intro coalesce_group_noop) auto
  qed
  with ord sn show ?thesis
    by (auto simp: coalesce_columns_def is_set_order_def intro!: coalesce_loop_noops)
qed

theorem coalesce_plain_noop_witness:
  "coalesce_columns [''Sber'', ''date'']
     [(''date'', [Some (VDate 1)]), (''Sber'', [Some (VNum 5)])]
   = Inr [(''date'', [Some (VDate 1)]), (''Sber'', [Some (VNum 5)])]"
  by (rule coalesce_plain_noop)
     (simp_all add: frame_wf_def nrows_def columns_def startswith_def stripped_names_def
       is_set_order_def rsplit_head_def insert_commute)

end
