(* ===== verification/Run.thy ===== *)
theory Run
  imports Pipeline Coalesce
begin

text \<open>
  The entry points of \<^verbatim>\<open>src/main.py\<close>: \<^verbatim>\<open>StockParser.run\<close> (lines 63--129) composed
  from the catalog lookup and the ticker loop (theory \<open>Pipeline\<close>) and the column
  coalescing (theory \<open>Coalesce\<close>), \<^verbatim>\<open>StockParser.main\<close> (lines 131--145), the
  instance \<^verbatim>\<open>__init__\<close> builds and the \<^verbatim>\<open>__main__\<close> block that calls \<^verbatim>\<open>main\<close> on it.
  The inputs \<^verbatim>\<open>input()\<close> returns are parameters: the token, the ticker line and the two
  date strings. \<^verbatim>\<open>datetime.strptime\<close> is a parameter \<open>strptime\<close> returning \<open>None\<close>
  where Python raises \<open>ValueError\<close>; the iteration order of the set
  \<^verbatim>\<open>unique_columns\<close> is a parameter \<open>set_order\<close> (an enumeration of the set built
  from a label list). What \<^verbatim>\<open>run\<close> prints is the message list; its value is
  \<open>Inr None\<close> for the bare \<^verbatim>\<open>return\<close>, \<open>Inr (Some df)\<close> for a table, and \<open>Inl e\<close>
  for an exception that escapes.
\<close>

definition run ::
  "fetcher \<Rightarrow> instrument list \<Rightarrow> instrument list \<Rightarrow> string \<Rightarrow> (string list \<Rightarrow> string list) \<Rightarrow>
   string list \<Rightarrow> day option \<Rightarrow> day option \<Rightarrow> message list \<times> (pyerr + frame option)" where
  "run fetch shares bonds token set_order tickers start_date end_date =
     (case select_tickers (catalog shares bonds) tickers of
        Inl e \<Rightarrow> ([], Inl e)
      | Inr df \<Rightarrow>
          if df = [] then ([NoTickers tickers], Inr None)
          else
            (let st = run_tickers fetch start_date end_date df \<lparr>merged = [], out = []\<rparr> tickers;
                 merged_df = merged st
             in case coalesce_columns (set_order (stripped_names merged_df)) merged_df of
                  Inl e \<Rightarrow> (out st, Inl e)
                | Inr f \<Rightarrow> (out st @ [FrameInfo, TokenEcho token], Inr (Some f))))"

text \<open>\<^verbatim>\<open>str.split(sep)\<close>: the fields between separators, empty ones included.\<close>

fun split_on :: "char \<Rightarrow> string \<Rightarrow> string list" where
  "split_on sep [] = [[]]"
| "split_on sep (c # cs) =
     (let ws = split_on sep cs in if c = sep then [] # ws else (c # hd ws) # tl ws)"

text \<open>\<^verbatim>\<open>sep.join(ws)\<close> for a one-character separator, to state what splitting undoes.\<close>

fun join_on :: "char \<Rightarrow> string list \<Rightarrow> string" where
  "join_on sep [] = []"
| "join_on sep [w] = w"
| "join_on sep (w # v # ws) = w @ sep # join_on sep (v # ws)"

text \<open>Lines 132--134: \<^verbatim>\<open>['MOEX'] + input(...).split(",")\<close>.\<close>

definition main_tickers :: "string \<Rightarrow> string list" where
  "main_tickers ticker_line = ''MOEX'' # split_on CHR '','' ticker_line"

text \<open>Lines 135--145; the result is what is printed and the exception that escapes, if any.\<close>

definition main ::
  "fetcher \<Rightarrow> instrument list \<Rightarrow> instrument list \<Rightarrow> string \<Rightarrow> (string list \<Rightarrow> string list) \<Rightarrow>
   (string \<Rightarrow> day option) \<Rightarrow> string \<Rightarrow> string \<Rightarrow> string \<Rightarrow> message list \<times> pyerr option" where
  "main fetch shares bonds token set_order strptime ticker_line start_line end_line =
     (let tickers = main_tickers ticker_line;
          finish = (\<lambda>(msgs, r). case r of
                       Inl e \<Rightarrow> (msgs, Some e)
                     | Inr df \<Rightarrow> (msgs @ [PrintedFrame df], None))
      in if start_line \<noteq> [] \<and> end_line \<noteq> [] then
           (case strptime start_line of
              None \<Rightarrow> ([], Some ValueError)
            | Some s \<Rightarrow>
                (case strptime end_line of
                   None \<Rightarrow> ([], Some ValueError)
                 | Some e \<Rightarrow> finish (run fetch shares bonds token set_order tickers (Some s) (Some e))))
         else finish (run fetch shares bonds token set_order tickers None None))"

text \<open>
  Lines 10--12: the \<^verbatim>\<open>StockParser\<close> instance and its only field, set to \<^verbatim>\<open>None\<close> by
  \<^verbatim>\<open>__init__\<close>. No method assigns it: \<^verbatim>\<open>run\<close> keeps the token it reads in a local.
\<close>

record stock_parser =
  sp_token :: "string option"

definition stock_parser_init :: stock_parser where
  "stock_parser_init = \<lparr>sp_token = None\<rparr>"

text \<open>
  Lines 148--150: the script builds a fresh instance and calls \<^verbatim>\<open>main\<close> on it; the
  result is the instance afterwards, what was printed and the exception that escaped.
\<close>

definition script_main ::
  "fetcher \<Rightarrow> instrument list \<Rightarrow> instrument list \<Rightarrow> string \<Rightarrow> (string list \<Rightarrow> string list) \<Rightarrow>
   (string \<Rightarrow> day option) \<Rightarrow> string \<Rightarrow> string \<Rightarrow> string \<Rightarrow> stock_parser \<times> message list \<times> pyerr option" where
  "script_main fetch shares bonds token set_order strptime ticker_line start_line end_line =
     (let analyzer = stock_parser_init
      in (analyzer, main fetch shares bonds token set_order strptime ticker_line start_line end_line))"

subsection \<open>Lemmas\<close>

lemma main_normal_end:
  assumes "main fetch shares bonds token set_order strptime ticker_line start_line end_line = (msgs, None)"
  obtains tickers sd ed ms df where "run fetch shares bonds token set_order tickers sd ed = (ms, Inr df)"
    "msgs = ms @ [PrintedFrame df]"
  using assms
  by (auto simp: main_def Let_def split: if_splits option.splits prod.splits sum.splits)

lemma run_normal_end:
  "run fetch shares bonds token set_order tickers s e = (msgs, Inr df) \<Longrightarrow>
   (df = None \<and> msgs = [NoTickers tickers]) \<or>
   (\<exists>ys f. df = Some f \<and> msgs = ys @ [FrameInfo, TokenEcho token])"
  by (auto simp: run_def Let_def split: sum.splits if_splits)

lemma split_on_nonempty [simp]: "split_on sep s \<noteq> []"
  by (induction s) (simp_all add: Let_def)

lemma split_on_roundtrip_aux:
  "join_on sep (split_on sep s) = s \<and> (\<forall>w\<in>set (split_on sep s). sep \<notin> set w)"
proof (induction s)
  case (Cons c cs)
  obtain w ws where "split_on sep cs = w # ws" using split_on_nonempty by (cases "split_on sep cs") auto
  with Cons show ?case by (cases ws) (auto simp: Let_def)
qed simp

lemma out_chunk_step: "\<exists>ys. out (outcome_state (chunk_step fetch figi n st rng)) = out st @ ys"
  by (auto simp: chunk_step_def get_candles_def split: fetch_result.splits sum.splits)

lemma out_run_chunks: "\<exists>ys. out (outcome_state (run_chunks fetch figi n st rngs)) = out st @ ys"
proof (induction rngs arbitrary: st)
  case (Cons rng rngs)
  obtain ys where ys: "out (outcome_state (chunk_step fetch figi n st rng)) = out st @ ys"
    using out_chunk_step by blast
  show ?case
  proof (cases "chunk_step fetch figi n st rng")
    case (Normal st')
    with ys Cons.IH [of st'] show ?thesis by auto
  next
    case (Raised e st')
    with ys show ?thesis by auto
  qed
qed simp

lemma out_ticker_step: "\<exists>ys. out (ticker_step fetch s e df st t) = out st @ ys"
proof -
  have "\<exists>ys. out (case run_chunks fetch figi n st rngs of Normal st' \<Rightarrow> st'
               | Raised e st' \<Rightarrow> st'\<lparr>out := out st' @ msgs\<rparr>) = out st @ ys" for figi n rngs msgs
    using out_run_chunks [of fetch figi n st rngs]
    by (cases "run_chunks fetch figi n st rngs") auto
  then show ?thesis by (auto simp: ticker_step_def split: list.splits)
qed

lemma out_run_tickers: "\<exists>ys. out (run_tickers fetch s e df st ts) = out st @ ys"
proof (induction ts arbitrary: st)
  case (Cons t ts)
  obtain ys where "out (ticker_step fetch s e df st t) = out st @ ys" using out_ticker_step by blast
  with Cons.IH [of "ticker_step fetch s e df st t"] show ?case by auto
qed simp

lemma run_tickers_unknown_reported:
  assumes "t \<in> set ts" "filter (\<lambda>r. row_ticker r = t) df = []"
  shows "TickerNotFound t \<in> set (out (run_tickers fetch s e df st ts))"
proof -
  obtain xs ys where ts: "ts = xs @ t # ys" using assms(1) by (meson split_list)
  let ?st = "ticker_step fetch s e df (run_tickers fetch s e df st xs) t"
  have "TickerNotFound t \<in> set (out ?st)" using assms(2) by (simp add: ticker_step_def)
  moreover obtain zs where "out (run_tickers fetch s e df ?st ys) = out ?st @ zs"
    using out_run_tickers by blast
  ultimately show ?thesis by (simp add: ts run_tickers_append)
qed

lemma select_tickers_catalog:
  "shares @ bonds \<noteq> [] \<Longrightarrow>
   select_tickers (catalog shares bonds) tickers = Inr (filter (\<lambda>r. row_ticker r \<in> set tickers) (catalog shares bonds))"
  by (simp add: select_tickers_def catalog_def)

lemma catalog_rows_ticker:
  "filter (\<lambda>r. row_ticker r = t) (catalog shares bonds) = [] \<longleftrightarrow> (\<forall>i\<in>set (shares @ bonds). inst_ticker i \<noteq> t)"
  by (auto simp: catalog_def filter_empty_conv)

subsection \<open>Properties of \<^verbatim>\<open>run\<close> and \<^verbatim>\<open>main\<close>\<close>

text \<open>
  With no instrument at all in the catalog (both listings empty) the frame built from
  the list has no \<^verbatim>\<open>ticker\<close> column and \<^verbatim>\<open>run\<close> fails with \<open>KeyError\<close> before
  printing anything, instead of reporting the tickers as not found.
\<close>

lemma run_no_instruments:
  "run fetch [] [] token set_order tickers start_date end_date = ([], Inl (KeyError [''ticker'']))"
  by (simp add: run_def select_tickers_def catalog_def)

text \<open>
  C36. When the catalog is not empty but lists none of the requested tickers, \<^verbatim>\<open>run\<close>
  prints the list of tickers and returns \<^verbatim>\<open>None\<close>, without fetching anything.
\<close>

theorem run_no_match:
  assumes "shares @ bonds \<noteq> []" "\<forall>i\<in>set (shares @ bonds). inst_ticker i \<notin> set tickers"
  shows "run fetch shares bonds token set_order tickers start_date end_date = ([NoTickers tickers], Inr None)"
proof -
  have "filter (\<lambda>r. row_ticker r \<in> set tickers) (catalog shares bonds) = []"
    using assms(2) by (auto simp: catalog_def filter_empty_conv)
  then show ?thesis using assms(1) by (simp add: run_def select_tickers_catalog)
qed

theorem run_no_match_witness:
  "run (\<lambda>_ _ _. FetchFailed) [\<lparr>inst_ticker = ''SBER'', inst_figi = ''F1'', inst_name = ''Sber''\<rparr>] [] ''t''
     (\<lambda>xs. xs) [''MOEX''] None None = ([NoTickers [''MOEX'']], Inr None)"
  by (rule run_no_match) simp_all

text \<open>
  C33. Every requested ticker that has no catalog row is reported: whatever happens to
  the other tickers, and even when the coalescing at the end raises, the output contains
  \<open>TickerNotFound\<close> for it, unless no requested ticker is listed at all.
\<close>

theorem run_reports_unknown:
  assumes "shares @ bonds \<noteq> []" "t \<in> set tickers" "\<forall>i\<in>set (shares @ bonds). inst_ticker i \<noteq> t"
  shows "TickerNotFound t \<in> set (fst (run fetch shares bonds token set_order tickers start_date end_date))
         \<or> fst (run fetch shares bonds token set_order tickers start_date end_date) = [NoTickers tickers]"
proof -
  let ?df = "filter (\<lambda>r. row_ticker r \<in> set tickers) (catalog shares bonds)"
  have "filter (\<lambda>r. row_ticker r = t) ?df = []"
    using assms(3) catalog_rows_ticker [of t shares bonds] by (simp add: filter_empty_conv)
  then have "TickerNotFound t \<in> set (out (run_tickers fetch start_date end_date ?df st tickers))" for st
    using assms(2) by (rule run_tickers_unknown_reported [rotated])
  then show ?thesis using assms(1)
    by (auto simp: run_def select_tickers_catalog Let_def split: sum.splits)
qed

theorem run_reports_unknown_witness:
  "TickerNotFound ''XXXX'' \<in> set (fst (run (\<lambda>_ _ _. FetchFailed)
     [\<lparr>inst_ticker = ''MOEX'', inst_figi = ''F1'', inst_name = ''Moex''\<rparr>] [] ''t'' (\<lambda>xs. xs)
     [''MOEX'', ''XXXX''] None None))"
proof -
  have "TickerNotFound ''XXXX'' \<in> set (fst (run (\<lambda>_ _ _. FetchFailed)
     [\<lparr>inst_ticker = ''MOEX'', inst_figi = ''F1'', inst_name = ''Moex''\<rparr>] [] ''t'' (\<lambda>xs. xs)
     [''MOEX'', ''XXXX''] None None)) \<or>
     fst (run (\<lambda>_ _ _. FetchFailed)
     [\<lparr>inst_ticker = ''MOEX'', inst_figi = ''F1'', inst_name = ''Moex''\<rparr>] [] ''t'' (\<lambda>xs. xs)
     [''MOEX'', ''XXXX''] None None) = [NoTickers [''MOEX'', ''XXXX'']]"
    by (rule run_reports_unknown) simp_all
  moreover have "fst (run (\<lambda>_ _ _. FetchFailed)
     [\<lparr>inst_ticker = ''MOEX'', inst_figi = ''F1'', inst_name = ''Moex''\<rparr>] [] ''t'' (\<lambda>xs. xs)
     [''MOEX'', ''XXXX''] None None) \<noteq> [NoTickers [''MOEX'', ''XXXX'']]"
    by (simp add: run_def select_tickers_def catalog_def ticker_step_def date_ranges_def
        chunk_step_def get_candles_def Let_def coalesce_columns_def stripped_names_def columns_def)
  ultimately show ?thesis by blast
qed

text \<open>
  C37. The ticker line is split at every comma and prefixed with \<^verbatim>\<open>MOEX\<close>: joining the
  fields with commas gives the line back, and no field contains a comma. The fields are
  not stripped, so \<^verbatim>\<open>"SBER, GAZP"\<close> requests \<^verbatim>\<open>" GAZP"\<close>, with its blank.
\<close>

theorem main_tickers_roundtrip:
  "hd (main_tickers line) = ''MOEX'' \<and> join_on CHR '','' (tl (main_tickers line)) = line \<and>
   (\<forall>w\<in>set (tl (main_tickers line)). CHR '','' \<notin> set w)"
  using split_on_roundtrip_aux [of "CHR '',''" line] by (simp add: main_tickers_def)

theorem main_tickers_roundtrip_witness:
  "tl (main_tickers ''SBER, GAZP'') = [''SBER'', '' GAZP''] \<and>
   join_on CHR '','' (tl (main_tickers ''SBER, GAZP'')) = ''SBER, GAZP''"
  using main_tickers_roundtrip [of "''SBER, GAZP''"] by (simp add: main_tickers_def)

text \<open>
  C38. Dates: when either date line is empty, \<^verbatim>\<open>main\<close> behaves as if both were, and
  requests the instruments' whole history; when both are given and the first does not
  parse, \<open>ValueError\<close> escapes before anything is printed.
\<close>

theorem main_date_handling:
  "(start_line = [] \<or> end_line = [] \<longrightarrow>
      main fetch shares bonds token set_order strptime ticker_line start_line end_line
      = main fetch shares bonds token set_order strptime ticker_line [] []) \<and>
   (start_line \<noteq> [] \<and> end_line \<noteq> [] \<and> strptime start_line = None \<longrightarrow>
      main fetch shares bonds token set_order strptime ticker_line start_line end_line = ([], Some ValueError))"
  by (auto simp: main_def Let_def)

theorem main_date_handling_witness:
  "main (\<lambda>_ _ _. FetchFailed) [] [] ''t'' (\<lambda>xs. xs) (\<lambda>_. None) ''SBER'' ''2024-01-01'' []
     = main (\<lambda>_ _ _. FetchFailed) [] [] ''t'' (\<lambda>xs. xs) (\<lambda>_. None) ''SBER'' [] [] \<and>
   main (\<lambda>_ _ _. FetchFailed) [] [] ''t'' (\<lambda>xs. xs) (\<lambda>_. None) ''SBER'' ''2024-13-01'' ''2024-01-01''
     = ([], Some ValueError)"
  using main_date_handling [of "''2024-01-01''" "[]" "\<lambda>_ _ _. FetchFailed" "[]" "[]" "''t''" "\<lambda>xs. xs"
      "\<lambda>_. None" "''SBER''"]
    main_date_handling [of "''2024-13-01''" "''2024-01-01''" "\<lambda>_ _ _. FetchFailed" "[]" "[]" "''t''"
      "\<lambda>xs. xs" "\<lambda>_. None" "''SBER''"]
  by simp

text \<open>
  C10. The credential is echoed: whenever the script ends without an exception, it has
  either reported that no ticker matched, or printed the table right after the frame
  info and the token typed at the prompt. The instance's \<^verbatim>\<open>token\<close> field is still
  \<^verbatim>\<open>None\<close> at the end.
\<close>

theorem script_echoes_token:
  assumes "script_main fetch shares bonds token set_order strptime ticker_line start_line end_line
           = (analyzer, msgs, None)"
  shows "sp_token analyzer = None \<and>
         ((\<exists>ts. msgs = [NoTickers ts, PrintedFrame None]) \<or>
          (\<exists>ys f. msgs = ys @ [FrameInfo, TokenEcho token, PrintedFrame (Some f)]))"
proof -
  from assms have a: "analyzer = stock_parser_init"
    and m: "main fetch shares bonds token set_order strptime ticker_line start_line end_line = (msgs, None)"
    by (simp_all add: script_main_def)
  from m obtain tickers sd ed ms df where "run fetch shares bonds token set_order tickers sd ed = (ms, Inr df)"
    "msgs = ms @ [PrintedFrame df]"
    by (rule main_normal_end)
  with a show ?thesis by (auto simp: stock_parser_init_def dest!: run_normal_end)
qed

theorem script_echoes_token_witness:
  "script_main (\<lambda>_ _ _. RequestErr ''timeout'') [\<lparr>inst_ticker = ''MOEX'', inst_figi = ''F0'', inst_name = ''Moex''\<rparr>] []
     ''tok'' remdups (\<lambda>_. None) ''SBER'' [] []
   = (\<lparr>sp_token = None\<rparr>, [Printed ''timeout'', TickerNotFound ''SBER'', FrameInfo, TokenEcho ''tok'', PrintedFrame (Some [])], None) \<and>
   sp_token \<lparr>sp_token = None\<rparr> = None"
proof -
  have r: "script_main (\<lambda>_ _ _. RequestErr ''timeout'') [\<lparr>inst_ticker = ''MOEX'', inst_figi = ''F0'', inst_name = ''Moex''\<rparr>] []
     ''tok'' remdups (\<lambda>_. None) ''SBER'' [] []
   = (\<lparr>sp_token = None\<rparr>, [Printed ''timeout'', TickerNotFound ''SBER'', FrameInfo, TokenEcho ''tok'', PrintedFrame (Some [])], None)"
    by (simp add: script_main_def stock_parser_init_def main_def main_tickers_def run_def select_tickers_def
        catalog_def ticker_step_def date_ranges_def chunk_step_def get_candles_def coalesce_columns_def
        stripped_names_def columns_def)
  then show ?thesis using script_echoes_token [OF r] by simp
qed

end
