(* ===== verification/InstrumentSeries.thy ===== *)
theory InstrumentSeries
  imports Run
begin

text \<open>
  The specification's InstrumentSeries contract, as an abstract model: a series is a
  partial map from a date cell to a price cell; a chunk's series maps each candle's date
  to its close price (\<open>chunk_series\<close>), and the series of an instrument is the
  concatenation of its chunks' series in which the earlier chunk wins a date
  (\<open>spec_concat\<close>). \<open>column_series\<close> reads a column of a frame in the same way.
  The theorems show that \<open>chunk_table\<close> (lines 105--107 of \<^verbatim>\<open>src/main.py\<close>) and the
  fetch/merge loop followed by the coalescing pass (lines 101--124) implement this
  contract for an instrument fetched in three chunks; that \<^verbatim>\<open>run\<close> in the
  specification's two-instrument, two-chunk scenario returns each instrument's series,
  NaN-padded to the other's dates, over the sorted union of all dates; and that a
  ticker requested twice, as \<^verbatim>\<open>main\<close> does when the user enters \<^verbatim>\<open>MOEX\<close>, leaves a
  suffixed copy column. The proofs follow a column through each merge with
  \<open>merge_outer_left_series\<close> and \<open>merge_outer_right_series\<close>, flatten the nested
  NaN-padding with \<open>outer_extend_nest\<close>, and compare the backfilled row with the
  contract one date at a time.
\<close>

type_synonym series = "cell \<Rightarrow> cell option"

definition chunk_series :: "candle list \<Rightarrow> series" where
  "chunk_series cs = map_of (map (\<lambda>c. (Some (VDate (candle_date c)), Some (VNum (cast_money (c_close c))))) cs)"

definition spec_concat :: "series list \<Rightarrow> series" where
  "spec_concat ss = foldr (\<lambda>s acc. acc ++ s) ss Map.empty"

definition column_series :: "frame \<Rightarrow> string \<Rightarrow> series" where
  "column_series f l = cell_in (key_cells f) (column_of f l)"

abbreviation candle_keys :: "candle list \<Rightarrow> cell list" where
  "candle_keys cs \<equiv> map (\<lambda>c. Some (VDate (candle_date c))) cs"

abbreviation candle_prices :: "candle list \<Rightarrow> cell list" where
  "candle_prices cs \<equiv> map (\<lambda>c. Some (VNum (cast_money (c_close c)))) cs"

text \<open>Three overlapping chunks of one instrument, fetched by the start of their range.\<close>

abbreviation ex_candle :: "int \<Rightarrow> int \<Rightarrow> candle" where
  "ex_candle p d \<equiv> \<lparr>c_open = \<lparr>units = p, nano = 0\<rparr>, c_high = \<lparr>units = p, nano = 0\<rparr>,
     c_low = \<lparr>units = p, nano = 0\<rparr>, c_close = \<lparr>units = p, nano = 0\<rparr>, volume = 1, time = d * 86400\<rparr>"

abbreviation ex_fetch :: fetcher where
  "ex_fetch \<equiv> \<lambda>_ s _. if s = Some 0 then Candles [ex_candle 1 0, ex_candle 2 1]
                    else if s = Some 1 then Candles [ex_candle 5 1, ex_candle 3 2]
                    else Candles [ex_candle 7 2]"

abbreviation ex_fetch2 :: fetcher where
  "ex_fetch2 \<equiv> \<lambda>figi s _. if figi = ''FA'' then (if s = Some 0 then Candles [ex_candle 1 0] else Candles [ex_candle 2 351])
                         else (if s = Some 0 then Candles [ex_candle 5 1] else Candles [ex_candle 6 351])"

subsection \<open>Lemmas\<close>

lemma cell_in_zip:
  assumes "distinct ks" "length vs = length ks"
  shows "cell_in ks vs = map_of (zip ks vs)"
proof
  fix k
  show "cell_in ks vs k = map_of (zip ks vs) k"
  proof (cases "k \<in> set ks")
    case True
    then obtain i where i: "i < length ks" "ks ! i = k" by (auto simp: in_set_conv_nth)
    with assms show ?thesis
      by (auto simp: cell_in_def key_index_nth_distinct map_of_zip_nth)
  next
    case False
    then have "key_index k ks = None" by simp
    moreover have "map_of (zip ks vs) k = None" using False assms by simp
    ultimately show ?thesis by (simp add: cell_in_def del: key_index_None)
  qed
qed

lemma cell_in_rowwise:
  assumes "distinct K" "\<forall>X\<in>set Xs. length X = length K"
  shows "cell_in K (map (\<lambda>i. first_valid (map (\<lambda>X. X ! i) Xs)) [0..<length K]) k =
         (if k \<in> set K then Some (first_valid (map (\<lambda>X. the (cell_in K X k)) Xs)) else None)"
proof (cases "k \<in> set K")
  case True
  then obtain i where i: "i < length K" "K ! i = k" by (auto simp: in_set_conv_nth)
  with assms(1) have ki: "key_index k K = Some i" using key_index_nth_distinct by blast
  with i True show ?thesis by (simp add: cell_in_def)
next
  case False
  then have "key_index k K = None" by simp
  with False show ?thesis by (simp add: cell_in_def del: key_index_None)
qed

lemma chunk_series_cell_in:
  "distinct (map candle_date cs) \<Longrightarrow>
   cell_in (map (\<lambda>c. Some (VDate (candle_date c))) cs) (map (\<lambda>c. Some (VNum (cast_money (c_close c)))) cs)
   = chunk_series cs"
proof -
  assume "distinct (map candle_date cs)"
  then have "cell_in (map (\<lambda>c. Some (VDate (candle_date c))) cs) (map (\<lambda>c. Some (VNum (cast_money (c_close c)))) cs)
    = map_of (zip (map (\<lambda>c. Some (VDate (candle_date c))) cs) (map (\<lambda>c. Some (VNum (cast_money (c_close c)))) cs))"
    by (intro cell_in_zip) (simp_all add: distinct_map inj_on_def)
  then show ?thesis by (simp add: chunk_series_def zip_map_map zip_same_conv_map comp_def)
qed

lemma chunk_series_dom:
  "chunk_series cs k = None \<longleftrightarrow> k \<notin> set (map (\<lambda>c. Some (VDate (candle_date c))) cs)"
  "k \<in> set (map (\<lambda>c. Some (VDate (candle_date c))) cs) \<Longrightarrow> \<exists>v. chunk_series cs k = Some (Some v)"
proof -
  show "chunk_series cs k = None \<longleftrightarrow> k \<notin> set (map (\<lambda>c. Some (VDate (candle_date c))) cs)"
    by (simp add: chunk_series_def map_of_eq_None_iff image_image)
  assume "k \<in> set (map (\<lambda>c. Some (VDate (candle_date c))) cs)"
  then obtain v where v: "chunk_series cs k = Some v"
    by (cases "chunk_series cs k") (simp_all add: chunk_series_def map_of_eq_None_iff image_image)
  then have "(k, v) \<in> set (map (\<lambda>c. (Some (VDate (candle_date c)), Some (VNum (cast_money (c_close c))))) cs)"
    unfolding chunk_series_def by (rule map_of_SomeD)
  with v show "\<exists>v. chunk_series cs k = Some (Some v)" by auto
qed

lemma three_chunks_first_valid:
  assumes K2: "set K2 = set (candle_keys ca) \<union> set (candle_keys cb)"
  shows "(if k \<in> set K2 \<union> set (candle_keys cc) then Some (first_valid
           [the (outer_extend K2 (candle_keys cc) (outer_extend (candle_keys ca) (candle_keys cb) (chunk_series ca)) k),
            the (outer_extend K2 (candle_keys cc) (outer_extend (candle_keys cb) (candle_keys ca) (chunk_series cb)) k),
            the (outer_extend (candle_keys cc) K2 (chunk_series cc) k)]) else None)
         = spec_concat [chunk_series ca, chunk_series cb, chunk_series cc] k"
proof -
  consider "k \<in> set (candle_keys ca)"
    | "k \<notin> set (candle_keys ca)" "k \<in> set (candle_keys cb)"
    | "k \<notin> set (candle_keys ca)" "k \<notin> set (candle_keys cb)" "k \<in> set (candle_keys cc)"
    | "k \<notin> set (candle_keys ca)" "k \<notin> set (candle_keys cb)" "k \<notin> set (candle_keys cc)"
    by blast
  then show ?thesis
  proof cases
    case 1
    then obtain v where "chunk_series ca k = Some (Some v)" using chunk_series_dom(2) by blast
    with 1 K2 show ?thesis by (simp add: outer_extend_def spec_concat_def)
  next
    case 2
    then obtain v where "chunk_series cb k = Some (Some v)" using chunk_series_dom(2) by blast
    moreover have "chunk_series ca k = None" using 2 chunk_series_dom(1) by blast
    ultimately show ?thesis using 2 K2 by (simp add: outer_extend_def spec_concat_def map_add_def)
  next
    case 3
    then obtain v where "chunk_series cc k = Some (Some v)" using chunk_series_dom(2) by blast
    moreover have "chunk_series ca k = None" "chunk_series cb k = None" using 3 chunk_series_dom(1) by blast+
    ultimately show ?thesis using 3 K2 by (simp add: outer_extend_def spec_concat_def map_add_def)
  next
    case 4
    then have "chunk_series ca k = None" "chunk_series cb k = None" "chunk_series cc k = None"
      using chunk_series_dom(1) by blast+
    then show ?thesis using 4 K2 by (simp add: spec_concat_def map_add_def)
  qed
qed

lemma outer_extend_same_keys [simp]:
  "outer_extend (candle_keys cs) (candle_keys cs) (chunk_series cs) = chunk_series cs"
proof
  fix k
  show "outer_extend (candle_keys cs) (candle_keys cs) (chunk_series cs) k = chunk_series cs k"
    using chunk_series_dom(1) [of cs k] by (auto simp: outer_extend_def)
qed

lemma first_valid_twice:
  "(if k \<in> set (candle_keys cs) then Some (first_valid [the (chunk_series cs k), the (chunk_series cs k)])
    else None) = chunk_series cs k"
proof (cases "k \<in> set (candle_keys cs)")
  case True
  then obtain v where "chunk_series cs k = Some (Some v)" using chunk_series_dom(2) by blast
  with True show ?thesis by simp
next
  case False
  then show ?thesis using chunk_series_dom(1) [of cs k] by simp
qed

lemma outer_extend_nest:
  "set A' = set A \<union> set B \<Longrightarrow> outer_extend A' B' (outer_extend A B s) = outer_extend A (B @ B') s"
  by (auto simp: outer_extend_def fun_eq_iff)

lemma sort_remdups_set_eq: "set xs = set ys \<Longrightarrow> sort (remdups xs) = sort (remdups ys)"
  by (metis sorted_list_of_set_sort_remdups)

lemma two_chunks_first_valid:
  assumes K: "k \<in> set K \<longleftrightarrow> k \<in> set (candle_keys ca) \<union> set (candle_keys cb) \<union> set Os"
    and B: "set Ba = set (candle_keys cb) \<union> set Os" "set Bb = set (candle_keys ca) \<union> set Os"
  shows "(if k \<in> set K then Some (first_valid
           [the (outer_extend (candle_keys ca) Ba (chunk_series ca) k),
            the (outer_extend (candle_keys cb) Bb (chunk_series cb) k)]) else None)
         = outer_extend (candle_keys ca @ candle_keys cb) Os (spec_concat [chunk_series ca, chunk_series cb]) k"
proof -
  consider "k \<in> set (candle_keys ca)"
    | "k \<notin> set (candle_keys ca)" "k \<in> set (candle_keys cb)"
    | "k \<notin> set (candle_keys ca)" "k \<notin> set (candle_keys cb)"
    by blast
  then show ?thesis
  proof cases
    case 1
    then obtain v where "chunk_series ca k = Some (Some v)" using chunk_series_dom(2) by blast
    with 1 K show ?thesis by (simp add: outer_extend_def spec_concat_def)
  next
    case 2
    then obtain v where "chunk_series cb k = Some (Some v)" using chunk_series_dom(2) by blast
    moreover have "chunk_series ca k = None" using 2 chunk_series_dom(1) by blast
    ultimately show ?thesis using 2 K B by (simp add: outer_extend_def spec_concat_def map_add_def)
  next
    case 3
    then show ?thesis using K B by (simp add: outer_extend_def)
  qed
qed

subsection \<open>Refinement of the per-instrument series\<close>

text \<open>
  C31. A chunk with candles becomes a two-column table whose dates are the candles'
  dates in order and whose price column, under the instrument's display name and read
  by date, is the chunk's series of close prices (provided the display name is not one
  of the other column labels of \<^verbatim>\<open>create_df\<close> and the candles have distinct dates).
\<close>

theorem chunk_table_refines:
  assumes "candles \<noteq> []" "n \<notin> set [''date'', ''volume'', ''open'', ''high'', ''low'']"
    and "distinct (map candle_date candles)"
  shows "\<exists>t. chunk_table n candles = Inr t \<and> columns t = [date_label, n] \<and>
             key_cells t = candle_keys candles \<and> column_series t n = chunk_series candles"
proof -
  have "n \<noteq> date_label" using assms(2) by (simp add: date_label_def)
  then show ?thesis
    using chunk_table_eq [OF assms(1,2)] chunk_series_cell_in [OF assms(3)]
    by (simp add: columns_def column_series_def column_of_def)
qed

theorem chunk_table_refines_witness:
  "\<exists>t. chunk_table ''Sber'' [ex_candle 2 0, ex_candle 3 1] = Inr t \<and> columns t = [''date'', ''Sber''] \<and>
       key_cells t = [Some (VDate 0), Some (VDate 1)] \<and>
       column_series t ''Sber'' (Some (VDate 1)) = Some (Some (VNum 3))"
  using chunk_table_refines [of "[ex_candle 2 0, ex_candle 3 1]" "''Sber''"]
  by (auto simp: candle_date_def chunk_series_def date_label_def)

text \<open>
  C6. Three chunks of one instrument, fetched, merged and coalesced by the code, give
  the column the specification's InstrumentSeries promises: read by date, it is the
  concatenation of the chunks' close prices in which a date seen in an earlier chunk
  keeps that chunk's price.
\<close>

theorem instrument_series_refines:
  assumes n: "n \<notin> set [''date'', ''volume'', ''open'', ''high'', ''low'']" "plain_name n"
    and f: "fetch figi (fst ra) (snd ra) = Candles ca" "fetch figi (fst rb) (snd rb) = Candles cb"
      "fetch figi (fst rc) (snd rc) = Candles cc"
    and c: "ca \<noteq> []" "cb \<noteq> []" "cc \<noteq> []"
    and d: "distinct (map candle_date ca)" "distinct (map candle_date cb)" "distinct (map candle_date cc)"
  shows "\<exists>m. run_chunks fetch figi n \<lparr>merged = [], out = msgs\<rparr> [ra, rb, rc] = Normal \<lparr>merged = m, out = msgs\<rparr> \<and>
             columns m = [date_label, n @ ''_x'', n @ ''_y'', n] \<and>
             (\<forall>order. is_set_order (stripped_names m) order \<longrightarrow>
                (\<exists>r. coalesce_columns order m = Inr r \<and> columns r = [date_label, n] \<and>
                     column_series r n = spec_concat [chunk_series ca, chunk_series cb, chunk_series cc]))"
proof -
  have nd: "n \<noteq> date_label" using n by (simp add: date_label_def)
  have dk: "distinct (candle_keys cs)" if "distinct (map candle_date cs)" for cs
    using that by (simp add: distinct_map inj_on_def)
  note t = chunk_table_eq [OF c(1) n(1)] chunk_table_eq [OF c(2) n(1)] chunk_table_eq [OF c(3) n(1)]
  note s = chunk_series_cell_in [OF d(1)] chunk_series_cell_in [OF d(2)] chunk_series_cell_in [OF d(3)]
  let ?T1 = "[(date_label, candle_keys ca), (n, candle_prices ca)]"
  let ?T2 = "[(date_label, candle_keys cb), (n, candle_prices cb)]"
  let ?T3 = "[(date_label, candle_keys cc), (n, candle_prices cc)]"
  have vc: "value_columns ?T2 = [(n, candle_prices cb)]" "value_columns ?T3 = [(n, candle_prices cc)]"
    using nd by (simp_all add: value_columns_def)
  obtain K2 P2 Q2 where m2: "K2 \<noteq> []" "merge_step ?T1 ?T2 = Inr [(date_label, K2), (n @ ''_x'', P2), (n @ ''_y'', Q2)]"
    using merge_second_chunk [OF nd] c(1) by blast
  have M2: "merge_outer ?T1 ?T2 = Inr [(date_label, K2), (n @ ''_x'', P2), (n @ ''_y'', Q2)]"
    using m2(2) merge_step_outer c(1) by simp
  obtain K3 P3 Q3 Z3 where m3: "K3 \<noteq> []"
    "merge_step [(date_label, K2), (n @ ''_x'', P2), (n @ ''_y'', Q2)] ?T3
     = Inr [(date_label, K3), (n @ ''_x'', P3), (n @ ''_y'', Q3), (n, Z3)]"
    using merge_third_chunk [OF nd m2(1)] by blast
  have M3: "merge_outer [(date_label, K2), (n @ ''_x'', P2), (n @ ''_y'', Q2)] ?T3
            = Inr [(date_label, K3), (n @ ''_x'', P3), (n @ ''_y'', Q3), (n, Z3)]"
    using m3(2) merge_step_outer m2(1) by simp
  have K2: "K2 = sort (remdups (candle_keys ca @ candle_keys cb))"
    using merge_outer_keys [OF _ _ M2] dk d by simp
  have dK2: "distinct K2" by (simp add: K2)
  have K3: "K3 = sort (remdups (K2 @ candle_keys cc))"
    using merge_outer_keys [OF _ _ M3] dK2 dk d by simp
  have dK3: "distinct K3" by (simp add: K3)
  have sP2: "cell_in K2 P2 = outer_extend (candle_keys ca) (candle_keys cb) (chunk_series ca)"
    using merge_outer_left_series [OF _ _ M2, of 1] dk d s nd by simp
  have sQ2: "cell_in K2 Q2 = outer_extend (candle_keys cb) (candle_keys ca) (chunk_series cb)"
    using merge_outer_right_series [OF _ _ M2, of 0] dk d s vc by simp
  have sP3: "cell_in K3 P3 = outer_extend K2 (candle_keys cc) (cell_in K2 P2)"
    using merge_outer_left_series [OF _ _ M3, of 1] dK2 dk d by simp
  have sQ3: "cell_in K3 Q3 = outer_extend K2 (candle_keys cc) (cell_in K2 Q2)"
    using merge_outer_left_series [OF _ _ M3, of 2] dK2 dk d by simp
  have sZ3: "cell_in K3 Z3 = outer_extend (candle_keys cc) K2 (chunk_series cc)"
    using merge_outer_right_series [OF _ _ M3, of 0] dK2 dk d s vc by simp
  have len: "length P3 = length K3" "length Q3 = length K3" "length Z3 = length K3"
    using merge_outer_frame_wf [OF M3] by (simp_all add: frame_wf_def nrows_def)
  have run: "run_chunks fetch figi n \<lparr>merged = [], out = msgs\<rparr> [ra, rb, rc]
             = Normal \<lparr>merged = [(date_label, K3), (n @ ''_x'', P3), (n @ ''_y'', Q3), (n, Z3)], out = msgs\<rparr>"
  proof -
    have "merge_step [] ?T1 = Inr ?T1" by (simp add: merge_step_def frame_empty_def)
    then show ?thesis using f t m2(2) m3(2) by (simp add: chunk_step_def get_candles_def)
  qed
  let ?W = "map (\<lambda>i. first_valid [P3 ! i, Q3 ! i, Z3 ! i]) [0..<length K3]"
  have col: "column_series [(date_label, K3), (n, ?W)] n
             = spec_concat [chunk_series ca, chunk_series cb, chunk_series cc]"
  proof
    fix k
    have "column_series [(date_label, K3), (n, ?W)] n k =
          (if k \<in> set K3 then Some (first_valid (map (\<lambda>X. the (cell_in K3 X k)) [P3, Q3, Z3])) else None)"
      using cell_in_rowwise [OF dK3, of "[P3, Q3, Z3]" k] len nd
      by (simp add: column_series_def column_of_def)
    also have "\<dots> = spec_concat [chunk_series ca, chunk_series cb, chunk_series cc] k"
    proof -
      have "set K2 = set (candle_keys ca) \<union> set (candle_keys cb)" by (simp add: K2)
      moreover have "set K3 = set K2 \<union> set (candle_keys cc)" by (simp add: K3)
      ultimately show ?thesis
        using three_chunks_first_valid [of K2 ca cb k cc] by (simp only: sP3 sQ3 sZ3 sP2 sQ2 list.map)
    qed
    finally show "column_series [(date_label, K3), (n, ?W)] n k = spec_concat [chunk_series ca, chunk_series cb, chunk_series cc] k" .
  qed
  have "coalesce_columns order [(date_label, K3), (n @ ''_x'', P3), (n @ ''_y'', Q3), (n, Z3)]
        = Inr [(date_label, K3), (n, ?W)]"
    if "is_set_order (stripped_names [(date_label, K3), (n @ ''_x'', P3), (n @ ''_y'', Q3), (n, Z3)]) order" for order
    using coalesce_instrument_eq [of n "[(''x'', P3), (''y'', Q3)]" K3 Z3 order] that n(2) len by simp
  with run col show ?thesis by (auto simp: columns_def)
qed

theorem instrument_series_refines_witness:
  "\<exists>m r. run_chunks ex_fetch ''F1'' ''Sber'' \<lparr>merged = [], out = []\<rparr>
            [(Some 0, Some 1), (Some 1, Some 2), (Some 2, Some 3)] = Normal \<lparr>merged = m, out = []\<rparr> \<and>
          coalesce_columns [''date'', ''Sber''] m = Inr r \<and> columns r = [''date'', ''Sber''] \<and>
          column_series r ''Sber'' (Some (VDate 0)) = Some (Some (VNum 1)) \<and>
          column_series r ''Sber'' (Some (VDate 1)) = Some (Some (VNum 2)) \<and>
          column_series r ''Sber'' (Some (VDate 2)) = Some (Some (VNum 3)) \<and>
          column_series r ''Sber'' (Some (VDate 3)) = None"
proof -
  have "\<exists>m. run_chunks ex_fetch ''F1'' ''Sber'' \<lparr>merged = [], out = []\<rparr>
            [(Some 0, Some 1), (Some 1, Some 2), (Some 2, Some 3)] = Normal \<lparr>merged = m, out = []\<rparr> \<and>
          columns m = [date_label, ''Sber'' @ ''_x'', ''Sber'' @ ''_y'', ''Sber''] \<and>
          (\<forall>order. is_set_order (stripped_names m) order \<longrightarrow>
             (\<exists>r. coalesce_columns order m = Inr r \<and> columns r = [date_label, ''Sber''] \<and>
                  column_series r ''Sber'' = spec_concat [chunk_series [ex_candle 1 0, ex_candle 2 1],
                     chunk_series [ex_candle 5 1, ex_candle 3 2], chunk_series [ex_candle 7 2]]))"
    by (rule instrument_series_refines [where ra = "(Some 0, Some 1)" and rb = "(Some 1, Some 2)"
          and rc = "(Some 2, Some 3)"])
      (simp_all add: plain_name_def candle_date_def startswith_def date_label_def)
  then obtain m where run: "run_chunks ex_fetch ''F1'' ''Sber'' \<lparr>merged = [], out = []\<rparr>
            [(Some 0, Some 1), (Some 1, Some 2), (Some 2, Some 3)] = Normal \<lparr>merged = m, out = []\<rparr>"
      and cols: "columns m = [date_label, ''Sber'' @ ''_x'', ''Sber'' @ ''_y'', ''Sber'']"
      and co: "\<forall>order. is_set_order (stripped_names m) order \<longrightarrow>
             (\<exists>r. coalesce_columns order m = Inr r \<and> columns r = [date_label, ''Sber''] \<and>
                  column_series r ''Sber'' = spec_concat [chunk_series [ex_candle 1 0, ex_candle 2 1],
                     chunk_series [ex_candle 5 1, ex_candle 3 2], chunk_series [ex_candle 7 2]])"
    by blast
  have "is_set_order (stripped_names m) [''date'', ''Sber'']"
    using cols by (simp add: stripped_names_def is_set_order_def rsplit_head_def date_label_def)
  with co obtain r where "coalesce_columns [''date'', ''Sber''] m = Inr r" "columns r = [date_label, ''Sber'']"
    "column_series r ''Sber'' = spec_concat [chunk_series [ex_candle 1 0, ex_candle 2 1],
       chunk_series [ex_candle 5 1, ex_candle 3 2], chunk_series [ex_candle 7 2]]"
    by blast
  with run show ?thesis
    by (simp add: spec_concat_def chunk_series_def candle_date_def date_label_def)
qed

text \<open>
  C25. A ticker requested twice is fetched and merged twice. \<^verbatim>\<open>main\<close> always puts
  \<^verbatim>\<open>MOEX\<close> first, so a user who also enters \<^verbatim>\<open>MOEX\<close> gets a result with two columns
  for it: the coalesced one and the leftover \<^verbatim>\<open>_y\<close> copy, both holding the same series
  (without dates, one chunk per request).
\<close>

theorem main_duplicate_ticker:
  assumes n: "plain_name n" "n \<notin> set [''date'', ''volume'', ''open'', ''high'', ''low'']"
    and f: "fetch figi None None = Candles cs" "cs \<noteq> []" "distinct (map candle_date cs)"
    and so: "\<forall>xs. is_set_order xs (set_order xs)"
  shows "\<exists>r. main fetch [\<lparr>inst_ticker = ''MOEX'', inst_figi = figi, inst_name = n\<rparr>] [] token set_order
                  strptime ''MOEX'' [] []
             = ([FrameInfo, TokenEcho token, PrintedFrame (Some r)], None) \<and>
             columns r = [date_label, n @ ''_y'', n] \<and>
             column_series r (n @ ''_y'') = chunk_series cs \<and> column_series r n = chunk_series cs"
proof -
  have nd: "n \<noteq> date_label" using n by (simp add: date_label_def)
  have dk: "distinct (candle_keys cs)" using f(3) by (simp add: distinct_map inj_on_def)
  note t = chunk_table_eq [OF f(2) n(2)] and s = chunk_series_cell_in [OF f(3)]
  let ?T = "[(date_label, candle_keys cs), (n, candle_prices cs)]"
  obtain K P Q where m2: "K \<noteq> []" "merge_step ?T ?T = Inr [(date_label, K), (n @ ''_x'', P), (n @ ''_y'', Q)]"
    using merge_second_chunk [OF nd] f(2) by blast
  have M2: "merge_outer ?T ?T = Inr [(date_label, K), (n @ ''_x'', P), (n @ ''_y'', Q)]"
    using m2(2) merge_step_outer f(2) by simp
  have K: "K = sort (remdups (candle_keys cs @ candle_keys cs))"
    using merge_outer_keys [OF _ _ M2] dk by simp
  have dK: "distinct K" and sK: "set K = set (candle_keys cs)" by (simp_all add: K)
  have sP: "cell_in K P = chunk_series cs"
    using merge_outer_left_series [OF _ _ M2, of 1] dk s nd by simp
  have sQ: "cell_in K Q = chunk_series cs"
    using merge_outer_right_series [OF _ _ M2, of 0] dk s nd by (simp add: value_columns_def)
  have len: "length P = length K" "length Q = length K"
    using merge_outer_frame_wf [OF M2] by (simp_all add: frame_wf_def nrows_def)
  let ?M = "[(date_label, K), (n @ ''_x'', P), (n @ ''_y'', Q)]"
  let ?W = "map (\<lambda>i. first_valid [P ! i, Q ! i]) [0..<length K]"
  have m1: "merge_step [] ?T = Inr ?T" by (simp add: merge_step_def frame_empty_def)
  let ?df = "[\<lparr>row_ticker = ''MOEX'', row_figi = figi, row_type = ''shares'', row_name = n\<rparr>]"
  have run: "run_tickers fetch None None ?df \<lparr>merged = [], out = []\<rparr> [''MOEX'', ''MOEX'']
             = \<lparr>merged = ?M, out = []\<rparr>"
    using f(1) t m1 m2(2) by (simp add: ticker_step_def date_ranges_def chunk_step_def get_candles_def)
  have co: "coalesce_columns (set_order (stripped_names ?M)) ?M = Inr [(date_label, K), (n @ ''_y'', Q), (n, ?W)]"
    using coalesce_suffixed_eq [of n "[(''x'', P)]" "(''y'', Q)" K "set_order (stripped_names ?M)"] n(1) len so
    by simp
  have cn: "column_series [(date_label, K), (n @ ''_y'', Q), (n, ?W)] n = chunk_series cs"
  proof
    fix k
    have "column_series [(date_label, K), (n @ ''_y'', Q), (n, ?W)] n k = cell_in K ?W k"
      using nd by (simp add: column_series_def column_of_def)
    also have "\<dots> = (if k \<in> set K then Some (first_valid (map (\<lambda>X. the (cell_in K X k)) [P, Q])) else None)"
      using cell_in_rowwise [OF dK, of "[P, Q]" k] len by simp
    also have "\<dots> = chunk_series cs k"
      using first_valid_twice [of k cs] by (simp only: sP sQ sK list.map)
    finally show "column_series [(date_label, K), (n @ ''_y'', Q), (n, ?W)] n k = chunk_series cs k" .
  qed
  have cy: "column_series [(date_label, K), (n @ ''_y'', Q), (n, ?W)] (n @ ''_y'') = chunk_series cs"
    using sQ by (simp add: column_series_def column_of_def)
  show ?thesis
    using run co cn cy
    by (simp add: main_def main_tickers_def run_def select_tickers_def catalog_def Let_def columns_def)
qed

theorem main_duplicate_ticker_witness:
  "\<exists>r. main (\<lambda>_ _ _. Candles [ex_candle 2 0, ex_candle 3 1]) [\<lparr>inst_ticker = ''MOEX'', inst_figi = ''F0'', inst_name = ''Moex''\<rparr>] []
         ''tok'' remdups (\<lambda>_. None) ''MOEX'' [] []
       = ([FrameInfo, TokenEcho ''tok'', PrintedFrame (Some r)], None) \<and>
       columns r = [''date'', ''Moex_y'', ''Moex''] \<and>
       column_series r ''Moex_y'' = [Some (VDate 1) \<mapsto> Some (VNum 3), Some (VDate 0) \<mapsto> Some (VNum 2)] \<and>
       column_series r ''Moex'' = [Some (VDate 1) \<mapsto> Some (VNum 3), Some (VDate 0) \<mapsto> Some (VNum 2)]"
  using main_duplicate_ticker [where n = "''Moex''" and figi = "''F0''" and cs = "[ex_candle 2 0, ex_candle 3 1]"
      and fetch = "\<lambda>_ _ _. Candles [ex_candle 2 0, ex_candle 3 1]" and set_order = remdups
      and token = "''tok''" and strptime = "\<lambda>_. None"]
  by (simp add: plain_name_def startswith_def date_label_def candle_date_def is_set_order_def
      chunk_series_def)

text \<open>
  C2. The specification's end-to-end scenario with its values: two instruments over
  400 days (two chunks each, with distinct dates), every fetch succeeding. The result
  has one row per distinct date of all four chunks, in sorted order, and each
  instrument's coalesced column, read by date, is its own concatenated series, missing
  at the dates only the other instrument has.
\<close>

theorem run_two_instruments_series:
  assumes a: "plain_name a" "a \<notin> set [''date'', ''volume'', ''open'', ''high'', ''low'']"
    and b: "plain_name b" "b \<notin> set [''date'', ''volume'', ''open'', ''high'', ''low'']"
    and ab: "\<not> startswith a b" "\<not> startswith b a" and t: "ta \<noteq> tb"
    and fa: "fetch figa (Some s) (Some (s + 350)) = Candles ca"
      "fetch figa (Some (s + 351)) (Some (s + 400)) = Candles ca'"
    and fb: "fetch figb (Some s) (Some (s + 350)) = Candles cb"
      "fetch figb (Some (s + 351)) (Some (s + 400)) = Candles cb'"
    and ne: "ca \<noteq> []" "ca' \<noteq> []" "cb \<noteq> []" "cb' \<noteq> []"
    and d: "distinct (map candle_date ca)" "distinct (map candle_date ca')"
      "distinct (map candle_date cb)" "distinct (map candle_date cb')"
    and so: "\<forall>xs. is_set_order xs (set_order xs)"
  shows "\<exists>f. run fetch [\<lparr>inst_ticker = ta, inst_figi = figa, inst_name = a\<rparr>,
                         \<lparr>inst_ticker = tb, inst_figi = figb, inst_name = b\<rparr>] [] token set_order
               [ta, tb] (Some s) (Some (s + 400))
             = ([FrameInfo, TokenEcho token], Inr (Some f)) \<and>
             key_cells f = sort (remdups (candle_keys ca @ candle_keys ca' @ candle_keys cb @ candle_keys cb')) \<and>
             column_series f a = outer_extend (candle_keys ca @ candle_keys ca') (candle_keys cb @ candle_keys cb')
                                   (spec_concat [chunk_series ca, chunk_series ca']) \<and>
             column_series f b = outer_extend (candle_keys cb @ candle_keys cb') (candle_keys ca @ candle_keys ca')
                                   (spec_concat [chunk_series cb, chunk_series cb'])"
proof -
  note af = plain_name_facts [OF a(1)] and bf = plain_name_facts [OF b(1)]
  have bx: "b \<noteq> a @ ''_x''" "b \<noteq> a @ ''_y''" "a \<noteq> b" using bf ab by auto
  have dk: "distinct (candle_keys cs)" if "distinct (map candle_date cs)" for cs
    using that by (simp add: distinct_map inj_on_def)
  note dd = dk [OF d(1)] dk [OF d(2)] dk [OF d(3)] dk [OF d(4)]
  note t1 = chunk_table_eq [OF ne(1) a(2)] chunk_table_eq [OF ne(2) a(2)]
  note t2 = chunk_table_eq [OF ne(3) b(2)] chunk_table_eq [OF ne(4) b(2)]
  note sr = chunk_series_cell_in [OF d(1)] chunk_series_cell_in [OF d(2)]
    chunk_series_cell_in [OF d(3)] chunk_series_cell_in [OF d(4)]
  let ?D1 = "candle_keys ca" and ?D2 = "candle_keys ca'" and ?D3 = "candle_keys cb" and ?D4 = "candle_keys cb'"
  let ?T1 = "[(date_label, ?D1), (a, candle_prices ca)]" and ?T2 = "[(date_label, ?D2), (a, candle_prices ca')]"
  let ?T3 = "[(date_label, ?D3), (b, candle_prices cb)]" and ?T4 = "[(date_label, ?D4), (b, candle_prices cb')]"
  have vc: "value_columns ?T2 = [(a, candle_prices ca')]" "value_columns ?T3 = [(b, candle_prices cb)]"
    "value_columns ?T4 = [(b, candle_prices cb')]"
    using af bf by (simp_all add: value_columns_def)
  obtain K2 P2 Q2 where m2: "K2 \<noteq> []" "merge_step ?T1 ?T2 = Inr [(date_label, K2), (a @ ''_x'', P2), (a @ ''_y'', Q2)]"
    using merge_second_chunk [OF af(1)] ne(1) by blast
  have M2: "merge_outer ?T1 ?T2 = Inr [(date_label, K2), (a @ ''_x'', P2), (a @ ''_y'', Q2)]"
    using m2(2) merge_step_outer ne(1) by simp
  obtain K3 P3 Q3 Z3 where m3: "K3 \<noteq> []"
    "merge_step [(date_label, K2), (a @ ''_x'', P2), (a @ ''_y'', Q2)] ?T3
     = Inr [(date_label, K3), (a @ ''_x'', P3), (a @ ''_y'', Q3), (b, Z3)]"
    using merge_new_instrument [OF bf(1) bx(1,2) m2(1)] by blast
  have M3: "merge_outer [(date_label, K2), (a @ ''_x'', P2), (a @ ''_y'', Q2)] ?T3
            = Inr [(date_label, K3), (a @ ''_x'', P3), (a @ ''_y'', Q3), (b, Z3)]"
    using m3(2) merge_step_outer m2(1) by simp
  obtain M where m4: "merge_step [(date_label, K3), (a @ ''_x'', P3), (a @ ''_y'', Q3), (b, Z3)] ?T4 = Inr M"
      "frame_wf M" "columns M = [date_label, a @ ''_x'', a @ ''_y'', b @ ''_x'', b @ ''_y'']"
    using merge_second_chunk_after [OF bf(1) bx m3(1)] by blast
  then obtain K X1 Y1 X2 Y2 where M: "M = [(date_label, K), (a @ ''_x'', X1), (a @ ''_y'', Y1),
      (b @ ''_x'', X2), (b @ ''_y'', Y2)]"
    using columns_five by blast
  have M4: "merge_outer [(date_label, K3), (a @ ''_x'', P3), (a @ ''_y'', Q3), (b, Z3)] ?T4 = Inr M"
    using m4(1) merge_step_outer m3(1) by simp
  have K2: "set K2 = set ?D1 \<union> set ?D2" "distinct K2"
    using merge_outer_keys [OF _ _ M2] dd by simp_all
  have K3: "set K3 = set K2 \<union> set ?D3" "distinct K3"
    using merge_outer_keys [OF _ _ M3] dd K2(2) by simp_all
  have K: "K = sort (remdups (K3 @ ?D4))"
    using merge_outer_keys [OF _ _ M4] dd K3(2) by (simp add: M)
  have len: "length X1 = length K" "length Y1 = length K" "length X2 = length K" "length Y2 = length K"
    using m4(2) by (simp_all add: M frame_wf_def nrows_def)
  have n3: "set K3 = set ?D1 \<union> set (?D2 @ ?D3)" "set K3 = set ?D2 \<union> set (?D1 @ ?D3)"
    "set K3 = set ?D3 \<union> set K2" "set K2 = set ?D2 \<union> set ?D1"
    using K2(1) K3(1) by auto
  have sX1: "cell_in K X1 = outer_extend ?D1 ((?D2 @ ?D3) @ ?D4) (chunk_series ca)"
  proof -
    have "cell_in K2 P2 = outer_extend ?D1 ?D2 (chunk_series ca)"
      using merge_outer_left_series [OF _ _ M2, of 1] dd sr af by simp
    then have "cell_in K3 P3 = outer_extend ?D1 (?D2 @ ?D3) (chunk_series ca)"
      using merge_outer_left_series [OF _ _ M3, of 1] K2(2) dd outer_extend_nest [OF K2(1)] by simp
    then show ?thesis
      using merge_outer_left_series [OF _ _ M4, of 1] K3(2) dd outer_extend_nest [OF n3(1)] by (simp add: M)
  qed
  have sY1: "cell_in K Y1 = outer_extend ?D2 ((?D1 @ ?D3) @ ?D4) (chunk_series ca')"
  proof -
    have "cell_in K2 Q2 = outer_extend ?D2 ?D1 (chunk_series ca')"
      using merge_outer_right_series [OF _ _ M2, of 0] dd sr vc by simp
    then have "cell_in K3 Q3 = outer_extend ?D2 (?D1 @ ?D3) (chunk_series ca')"
      using merge_outer_left_series [OF _ _ M3, of 2] K2(2) dd outer_extend_nest [OF n3(4)] by simp
    then show ?thesis
      using merge_outer_left_series [OF _ _ M4, of 2] K3(2) dd outer_extend_nest [OF n3(2)] by (simp add: M)
  qed
  have sX2: "cell_in K X2 = outer_extend ?D3 (K2 @ ?D4) (chunk_series cb)"
  proof -
    have "cell_in K3 Z3 = outer_extend ?D3 K2 (chunk_series cb)"
      using merge_outer_right_series [OF _ _ M3, of 0] K2(2) dd sr vc by simp
    then show ?thesis
      using merge_outer_left_series [OF _ _ M4, of 3] K3(2) dd outer_extend_nest [OF n3(3)] bf by (simp add: M)
  qed
  have sY2: "cell_in K Y2 = outer_extend ?D4 K3 (chunk_series cb')"
    using merge_outer_right_series [OF _ _ M4, of 0] K3(2) dd sr vc by (simp add: M)
  have sK: "set K = set ?D1 \<union> set ?D2 \<union> set ?D3 \<union> set ?D4" "distinct K"
    using K K2(1) K3(1) by auto
  let ?Wa = "map (\<lambda>i. first_valid [X1 ! i, Y1 ! i]) [0..<length K]"
  let ?Wb = "map (\<lambda>i. first_valid [X2 ! i, Y2 ! i]) [0..<length K]"
  have wa: "cell_in K ?Wa = outer_extend (?D1 @ ?D2) (?D3 @ ?D4) (spec_concat [chunk_series ca, chunk_series ca'])"
  proof
    fix k
    have "cell_in K ?Wa k = (if k \<in> set K then Some (first_valid (map (\<lambda>X. the (cell_in K X k)) [X1, Y1])) else None)"
      using cell_in_rowwise [OF sK(2), of "[X1, Y1]" k] len by simp
    also have "\<dots> = outer_extend (?D1 @ ?D2) (?D3 @ ?D4) (spec_concat [chunk_series ca, chunk_series ca']) k"
    proof -
      have "k \<in> set K \<longleftrightarrow> k \<in> set ?D1 \<union> set ?D2 \<union> set (?D3 @ ?D4)" using sK(1) by auto
      moreover have "set ((?D2 @ ?D3) @ ?D4) = set ?D2 \<union> set (?D3 @ ?D4)"
        "set ((?D1 @ ?D3) @ ?D4) = set ?D1 \<union> set (?D3 @ ?D4)" by auto
      ultimately show ?thesis using two_chunks_first_valid by (simp only: sX1 sY1 list.map)
    qed
    finally show "cell_in K ?Wa k = \<dots>" .
  qed
  have wb: "cell_in K ?Wb = outer_extend (?D3 @ ?D4) (?D1 @ ?D2) (spec_concat [chunk_series cb, chunk_series cb'])"
  proof
    fix k
    have "cell_in K ?Wb k = (if k \<in> set K then Some (first_valid (map (\<lambda>X. the (cell_in K X k)) [X2, Y2])) else None)"
      using cell_in_rowwise [OF sK(2), of "[X2, Y2]" k] len by simp
    also have "\<dots> = outer_extend (?D3 @ ?D4) (?D1 @ ?D2) (spec_concat [chunk_series cb, chunk_series cb']) k"
    proof -
      have "k \<in> set K \<longleftrightarrow> k \<in> set ?D3 \<union> set ?D4 \<union> set (?D1 @ ?D2)" using sK(1) by auto
      moreover have "set (K2 @ ?D4) = set ?D4 \<union> set (?D1 @ ?D2)" "set K3 = set ?D3 \<union> set (?D1 @ ?D2)"
        using K2(1) K3(1) by auto
      ultimately show ?thesis using two_chunks_first_valid by (simp only: sX2 sY2 list.map)
    qed
    finally show "cell_in K ?Wb k = \<dots>" .
  qed
  have m1: "merge_step [] ?T1 = Inr ?T1" by (simp add: merge_step_def frame_empty_def)
  let ?df = "[\<lparr>row_ticker = ta, row_figi = figa, row_type = ''shares'', row_name = a\<rparr>,
              \<lparr>row_ticker = tb, row_figi = figb, row_type = ''shares'', row_name = b\<rparr>]"
  have "run_tickers fetch (Some s) (Some (s + 400)) ?df \<lparr>merged = [], out = []\<rparr> [ta, tb]
        = \<lparr>merged = M, out = []\<rparr>"
    using t fa fb t1 t2 m1 m2(2) m3(2) m4(1)
    by (simp add: ticker_step_def date_ranges_400 chunk_step_def get_candles_def)
  moreover have "coalesce_columns (set_order (stripped_names M)) M
     = Inr ([(date_label, K), (a @ ''_y'', Y1), (b @ ''_y'', Y2)] @
            (if find (\<lambda>v. v = a \<or> v = b) (set_order (stripped_names M)) = Some a
             then [(a, ?Wa), (b, ?Wb)] else [(b, ?Wb), (a, ?Wa)]))"
    unfolding M using coalesce_two_instruments_eq [OF a(1) b(1) ab len] so by blast
  moreover have "a \<noteq> b @ ''_y''" "b \<noteq> a @ ''_y''" using ab startswith_append by metis+
  moreover have "K = sort (remdups (?D1 @ ?D2 @ ?D3 @ ?D4))"
    unfolding K using K2(1) K3(1) by (intro sort_remdups_set_eq) auto
  ultimately show ?thesis
    using t wa wb af bf bx
    by (simp add: run_def select_tickers_def catalog_def Let_def column_series_def column_of_def)
qed

theorem run_two_instruments_series_witness:
  "\<exists>f. run ex_fetch2 [\<lparr>inst_ticker = ''SBER'', inst_figi = ''FA'', inst_name = ''Sber''\<rparr>,
                      \<lparr>inst_ticker = ''GAZP'', inst_figi = ''FB'', inst_name = ''Gazp''\<rparr>] [] ''tok'' remdups
            [''SBER'', ''GAZP''] (Some 0) (Some 400)
          = ([FrameInfo, TokenEcho ''tok''], Inr (Some f)) \<and>
        key_cells f = [Some (VDate 0), Some (VDate 1), Some (VDate 351)] \<and>
        column_series f ''Sber'' (Some (VDate 0)) = Some (Some (VNum 1)) \<and>
        column_series f ''Sber'' (Some (VDate 1)) = Some None \<and>
        column_series f ''Gazp'' (Some (VDate 351)) = Some (Some (VNum 6))"
proof -
  obtain f where f: "run ex_fetch2 [\<lparr>inst_ticker = ''SBER'', inst_figi = ''FA'', inst_name = ''Sber''\<rparr>,
                      \<lparr>inst_ticker = ''GAZP'', inst_figi = ''FB'', inst_name = ''Gazp''\<rparr>] [] ''tok'' remdups
            [''SBER'', ''GAZP''] (Some 0) (Some (0 + 400))
          = ([FrameInfo, TokenEcho ''tok''], Inr (Some f))"
    "key_cells f = sort (remdups (candle_keys [ex_candle 1 0] @ candle_keys [ex_candle 2 351] @
                                  candle_keys [ex_candle 5 1] @ candle_keys [ex_candle 6 351]))"
    "column_series f ''Sber'' = outer_extend (candle_keys [ex_candle 1 0] @ candle_keys [ex_candle 2 351])
        (candle_keys [ex_candle 5 1] @ candle_keys [ex_candle 6 351])
        (spec_concat [chunk_series [ex_candle 1 0], chunk_series [ex_candle 2 351]])"
    "column_series f ''Gazp'' = outer_extend (candle_keys [ex_candle 5 1] @ candle_keys [ex_candle 6 351])
        (candle_keys [ex_candle 1 0] @ candle_keys [ex_candle 2 351])
        (spec_concat [chunk_series [ex_candle 5 1], chunk_series [ex_candle 6 351]])"
    using run_two_instruments_series [where a = "''Sber''" and b = "''Gazp''" and ta = "''SBER''" and tb = "''GAZP''"
        and figa = "''FA''" and figb = "''FB''" and fetch = ex_fetch2 and s = 0 and token = "''tok''"
        and set_order = remdups and ca = "[ex_candle 1 0]" and ca' = "[ex_candle 2 351]"
        and cb = "[ex_candle 5 1]" and cb' = "[ex_candle 6 351]"]
    by (auto simp: plain_name_def startswith_def date_label_def is_set_order_def)
  then show ?thesis
    by (intro exI [of _ f])
      (simp add: outer_extend_def spec_concat_def chunk_series_def candle_date_def)
qed

end
