(* ===== verification/Spec2Isabelle.thy ===== *)
theory Spec2Isabelle
  imports InstrumentSeries
begin

text \<open>
  \<^bold>\<open>A verification model of \<^verbatim>\<open>src/main.py\<close>\<close> (class \<^verbatim>\<open>StockParser\<close>), which fetches
  daily candles of Moscow-exchange instruments in chunks of at most 351 days, merges
  the closing prices of all instruments into one table keyed by date and then
  coalesces the columns that repeated merges produced.

  \<^bold>\<open>Parts and theories.\<close> Every operation is a HOL function of its inputs and returns
  its result, its printed lines and its exception as values.
  \<^item> \<open>Prelude\<close>: days as integers, the Python exceptions (\<open>pyerr\<close>), the
    \<open>outcome\<close> of statements inside \<^verbatim>\<open>try\<close> (normal end, or exception with the state
    reached), and \<^verbatim>\<open>str.startswith\<close> and \<^verbatim>\<open>str.rsplit('_', 1)[0]\<close>.
  \<^item> \<open>DateRange\<close> (RangeSplitter, \<^verbatim>\<open>split_date_range\<close>, lines 46--61): the loop as a
    terminating recursive function \<open>split_loop\<close>, the same loop with
    \<open>while_option\<close>, and a closed-form reference \<open>chunks_ref\<close> the loop is proved
    equal to.
  \<^item> \<open>Frame\<close>: the pandas operations the program calls, modelled from pandas'
    documented behaviour: column selection, rename, setitem, drop, and the outer merge
    on \<^verbatim>\<open>date\<close> with the \<^verbatim>\<open>_x\<close>/\<^verbatim>\<open>_y\<close> suffixes and the \<open>MergeError\<close> pandas 2
    raises when suffixing duplicates a label. A frame is a list of labelled columns,
    a missing value \<open>None\<close>.
  \<^item> \<open>Float64\<close>: Python's binary64 arithmetic, each operation rounded to the
    nearest double (ties to even), as an executable function \<open>round_double\<close> on
    rationals.
  \<^item> \<open>Candles\<close> (CandleConverter, \<^verbatim>\<open>cast_money\<close> and \<^verbatim>\<open>create_df\<close>, lines 14--29):
    \<^verbatim>\<open>units + nano / 1e9\<close> computed with the rounding of \<open>Float64\<close>.
  \<^item> \<open>Pipeline\<close> (SeriesFetcher and SeriesMerger, \<^verbatim>\<open>get_candles\<close> and lines 69--115 of
    \<^verbatim>\<open>run\<close>): the catalog of shares and bonds, the ticker loop \<open>run_tickers\<close> whose step
    catches every exception of an instrument, the chunk loop \<open>run_chunks\<close> that stops
    at the first exception, and the merge \<open>merge_step\<close> into the accumulator.
  \<^item> \<open>Coalesce\<close> (ColumnCoalescer, lines 117--124): the loop over the set of stripped
    labels, with the set's iteration order as an argument.
  \<^item> \<open>Run\<close>: \<^verbatim>\<open>run\<close> (lines 63--129) composing the above, \<^verbatim>\<open>main\<close>
    (lines 131--145) with \<^verbatim>\<open>input()\<close> and \<^verbatim>\<open>strptime\<close> as parameters, the
    \<^verbatim>\<open>StockParser\<close> instance as a record \<open>stock_parser\<close> with the \<^verbatim>\<open>token\<close> field
    \<^verbatim>\<open>__init__\<close> sets (lines 10--12), and the \<^verbatim>\<open>__main__\<close> block as \<open>script_main\<close>
    (lines 148--150).
  \<^item> \<open>InstrumentSeries\<close>: the specification's InstrumentSeries contract as an
    abstract model (a series is a partial map from a date to a price; an instrument's
    series is the concatenation of its chunks' series, the earlier chunk winning a
    date), and the refinement of the code's fetch, merge and coalescing steps against
    it.
  The brokerage API is a parameter \<open>fetch\<close> of type \<open>fetcher\<close>: for a FIGI and a
  range it returns candles, a \<^verbatim>\<open>RequestError\<close> or another exception; the two
  instrument listings are inputs.

  \<^bold>\<open>What is proved.\<close> RangeSplitter: the loop terminates, equals the closed form, its
  chunks are bounded, contiguous and disjoint, and their number and coverage are
  exactly characterised (the last day is lost when 351 divides the range; a range of
  one day gives no chunk). CandleConverter: the conversion in doubles lies in
  \<open>[units, units + 1]\<close> (the upper end is reached), is monotone in the nanos, and
  from \<open>2\<^sup>2\<^sup>4\<close> units upwards loses a nano and rounds 999999999 nanos up to the next
  unit; \<^verbatim>\<open>create_df\<close> has one row per candle. Fetch and
  merge: a chunk table is \<^verbatim>\<open>(date, price)\<close>; a \<^verbatim>\<open>RequestError\<close> skips one chunk while
  a chunk without candles, or a fourth chunk of one instrument, ends the instrument;
  \<open>merge_step\<close> refines the SeriesMerger contract (sorted union of dates, each side's
  values kept and NaN-padded); the accumulator stays rectangular with unique dates over
  the whole ticker loop. Coalescing, for every iteration order: the result for one
  instrument with any number of suffixed columns, with the last suffixed column kept
  when there is no unsuffixed one, non-idempotence, and the failures of the prefix test
  (mixed prices, \<open>KeyError\<close>) and of \<^verbatim>\<open>rsplit\<close> on names with an underscore.
  \<^verbatim>\<open>run\<close>/\<^verbatim>\<open>main\<close>: the early exits, the reporting of unknown tickers, the ticker
  line as a comma split, the date handling, and that every normal end of the script
  with a table prints the token typed at the prompt (the instance field stays unused).
  InstrumentSeries: a chunk table read by date is the chunk's price series, and three chunks of one instrument, fetched, merged
  and coalesced, give exactly the contract's concatenated series (so the code sorts and
  deduplicates dates across chunks, which the specification says SeriesFetcher does
  not); in the specification's end-to-end scenario the result has one row per date of
  any chunk and each instrument's column is its own concatenated series, NaN where only
  the other instrument has a row; a ticker requested twice (\<^verbatim>\<open>MOEX\<close>, which \<^verbatim>\<open>main\<close> always
  adds) leaves a suffixed copy column. Across components (this theory): the
  specification's end-to-end scenario, a one-day range, and a range of more than 1053
  days for the first instrument fetched.

  \<^bold>\<open>Bounds and choices.\<close> Dates are unbounded integers (day numbers), prices the exact
  value of the double Python computes; the bounds on \<^verbatim>\<open>cast_money\<close> assume
  \<open>units + 1 < 2\<^sup>5\<^sup>3\<close>, below which every integer is a double. No fuel is needed:
  every loop of the program is over a finite list except the \<^verbatim>\<open>while\<close> of
  \<^verbatim>\<open>split_date_range\<close>, whose termination is proved. The set iteration order is
  universally quantified (any duplicate-free enumeration), since CPython's string
  hashing is randomised per process. The series refinement is stated for three chunks
  of distinct dates each: three is the most chunks an instrument keeps (the fourth
  merge fails), and with two chunks the last suffixed column stays beside the
  coalesced one.

  \<^bold>\<open>Not modelled.\<close> The network client and authentication (\<^verbatim>\<open>Client(token)\<close>): a
  parameter. Console input and the text of printed lines: inputs and a message
  datatype. \<^verbatim>\<open>strptime\<close>: a parameter. Float overflow, subnormals and NaN (the
  converted values never reach them), pandas dtypes,
  the row index, and \<^verbatim>\<open>DataFrame.info()\<close>. The imports (lines 1--5) only bring
  in the library code above. The time zone of \<^verbatim>\<open>c.time.date()\<close> is UTC
  day arithmetic on a seconds timestamp.
\<close>

subsection \<open>Properties across components\<close>

text \<open>
  C1. The specification's end-to-end scenario: two instruments, a 400-day range (two
  chunks each), every fetch succeeding. \<^verbatim>\<open>run\<close> returns a table, prints only the
  frame info and the token, and the table's columns are \<^verbatim>\<open>date\<close>, the two
  surviving \<^verbatim>\<open>_y\<close> columns and the two coalesced columns, in the order the set yields
  them: not the three columns the specification promises.
\<close>

theorem run_two_instruments_400_days:
  assumes a: "plain_name a" "a \<notin> set [''date'', ''volume'', ''open'', ''high'', ''low'']"
    and b: "plain_name b" "b \<notin> set [''date'', ''volume'', ''open'', ''high'', ''low'']"
    and ab: "\<not> startswith a b" "\<not> startswith b a" and t: "ta \<noteq> tb"
    and fa: "\<forall>x y. \<exists>cs. cs \<noteq> [] \<and> fetch figa x y = Candles cs"
    and fb: "\<forall>x y. \<exists>cs. cs \<noteq> [] \<and> fetch figb x y = Candles cs"
    and so: "\<forall>xs. is_set_order xs (set_order xs)"
  shows "\<exists>f. run fetch [\<lparr>inst_ticker = ta, inst_figi = figa, inst_name = a\<rparr>,
                         \<lparr>inst_ticker = tb, inst_figi = figb, inst_name = b\<rparr>] [] token set_order
               [ta, tb] (Some s) (Some (s + 400))
             = ([FrameInfo, TokenEcho token], Inr (Some f)) \<and>
             columns f = [date_label, a @ ''_y'', b @ ''_y''] @
               (if find (\<lambda>v. v = a \<or> v = b) (set_order [date_label, a, a, b, b]) = Some a
                then [a, b] else [b, a])"
proof -
  let ?r1 = "(Some s, Some (s + 350))" and ?r2 = "(Some (s + 351), Some (s + 400))"
  note af = plain_name_facts [OF a(1)] and bf = plain_name_facts [OF b(1)]
  have bx: "b \<noteq> a @ ''_x''" "b \<noteq> a @ ''_y''" "a \<noteq> b" using bf ab by auto
  obtain c1 D1 C1 where c1: "fetch figa (fst ?r1) (snd ?r1) = Candles c1" "D1 \<noteq> []"
      "chunk_table a c1 = Inr [(date_label, D1), (a, C1)]"
    using chunk_table_nonempty [where fetch = fetch and figi = figa, OF fa a(2)] by blast
  obtain c2 D2 C2 where c2: "fetch figa (fst ?r2) (snd ?r2) = Candles c2"
      "chunk_table a c2 = Inr [(date_label, D2), (a, C2)]"
    using chunk_table_nonempty [where fetch = fetch and figi = figa, OF fa a(2)] by blast
  obtain c3 D3 C3 where c3: "fetch figb (fst ?r1) (snd ?r1) = Candles c3"
      "chunk_table b c3 = Inr [(date_label, D3), (b, C3)]"
    using chunk_table_nonempty [where fetch = fetch and figi = figb, OF fb b(2)] by blast
  obtain c4 D4 C4 where c4: "fetch figb (fst ?r2) (snd ?r2) = Candles c4"
      "chunk_table b c4 = Inr [(date_label, D4), (b, C4)]"
    using chunk_table_nonempty [where fetch = fetch and figi = figb, OF fb b(2)] by blast
  obtain K2 P2 Q2 where m2: "K2 \<noteq> []"
      "merge_step [(date_label, D1), (a, C1)] [(date_label, D2), (a, C2)]
       = Inr [(date_label, K2), (a @ ''_x'', P2), (a @ ''_y'', Q2)]"
    using merge_second_chunk [OF af(1) c1(2)] by blast
  obtain K3 P3 Q3 Z3 where m3: "K3 \<noteq> []"
      "merge_step [(date_label, K2), (a @ ''_x'', P2), (a @ ''_y'', Q2)] [(date_label, D3), (b, C3)]
       = Inr [(date_label, K3), (a @ ''_x'', P3), (a @ ''_y'', Q3), (b, Z3)]"
    using merge_new_instrument [OF bf(1) bx(1,2) m2(1)] by blast
  obtain M where m4: "merge_step [(date_label, K3), (a @ ''_x'', P3), (a @ ''_y'', Q3), (b, Z3)]
        [(date_label, D4), (b, C4)] = Inr M" "frame_wf M"
      "columns M = [date_label, a @ ''_x'', a @ ''_y'', b @ ''_x'', b @ ''_y'']"
    using merge_second_chunk_after [OF bf(1) bx m3(1)] by blast
  then obtain K X1 Y1 X2 Y2 where M: "M = [(date_label, K), (a @ ''_x'', X1), (a @ ''_y'', Y1),
      (b @ ''_x'', X2), (b @ ''_y'', Y2)]"
    using columns_five by blast
  have len: "length X1 = length K" "length Y1 = length K" "length X2 = length K" "length Y2 = length K"
    using m4(2) by (simp_all add: M frame_wf_def nrows_def)
  have m1: "merge_step [] [(date_label, D1), (a, C1)] = Inr [(date_label, D1), (a, C1)]"
    by (simp add: merge_step_def frame_empty_def)
  let ?df = "[\<lparr>row_ticker = ta, row_figi = figa, row_type = ''shares'', row_name = a\<rparr>,
              \<lparr>row_ticker = tb, row_figi = figb, row_type = ''shares'', row_name = b\<rparr>]"
  have "run_tickers fetch (Some s) (Some (s + 400)) ?df \<lparr>merged = [], out = []\<rparr> [ta, tb]
        = \<lparr>merged = M, out = []\<rparr>"
    using t c1 c2 c3 c4 m1 m2 m3 m4(1)
    by (simp add: ticker_step_def date_ranges_400 chunk_step_def get_candles_def)
  moreover have "coalesce_columns (set_order (stripped_names M)) M
     = Inr ([(date_label, K), (a @ ''_y'', Y1), (b @ ''_y'', Y2)] @
            (if find (\<lambda>v. v = a \<or> v = b) (set_order (stripped_names M)) = Some a
             then [(a, map (\<lambda>i. first_valid [X1 ! i, Y1 ! i]) [0..<length K]),
                   (b, map (\<lambda>i. first_valid [X2 ! i, Y2 ! i]) [0..<length K])]
             else [(b, map (\<lambda>i. first_valid [X2 ! i, Y2 ! i]) [0..<length K]),
                   (a, map (\<lambda>i. first_valid [X1 ! i, Y1 ! i]) [0..<length K])]))"
    unfolding M using coalesce_two_instruments_eq [OF a(1) b(1) ab len] so by blast
  moreover have "stripped_names M = [date_label, a, a, b, b]"
    using af bf by (simp add: M stripped_names_def columns_def)
  ultimately show ?thesis
    using t by (simp add: run_def select_tickers_def catalog_def Let_def columns_def)
qed

theorem run_two_instruments_400_days_witness:
  "\<exists>f. run (\<lambda>_ _ _. Candles [\<lparr>c_open = \<lparr>units = 1, nano = 0\<rparr>, c_high = \<lparr>units = 1, nano = 0\<rparr>,
             c_low = \<lparr>units = 1, nano = 0\<rparr>, c_close = \<lparr>units = 1, nano = 0\<rparr>, volume = 1, time = 0\<rparr>])
           [\<lparr>inst_ticker = ''SBER'', inst_figi = ''F1'', inst_name = ''Sber''\<rparr>,
            \<lparr>inst_ticker = ''GAZP'', inst_figi = ''F2'', inst_name = ''Gazp''\<rparr>] [] ''t'' remdups
           [''SBER'', ''GAZP''] (Some 0) (Some (0 + 400))
         = ([FrameInfo, TokenEcho ''t''], Inr (Some f)) \<and>
         columns f = [''date'', ''Sber_y'', ''Gazp_y'', ''Sber'', ''Gazp'']"
  using run_two_instruments_400_days [where a = "''Sber''" and b = "''Gazp''" and ta = "''SBER''"
      and tb = "''GAZP''" and figa = "''F1''" and figb = "''F2''" and set_order = remdups
      and token = "''t''" and s = 0
      and fetch = "\<lambda>_ _ _. Candles [\<lparr>c_open = \<lparr>units = 1, nano = 0\<rparr>, c_high = \<lparr>units = 1, nano = 0\<rparr>,
             c_low = \<lparr>units = 1, nano = 0\<rparr>, c_close = \<lparr>units = 1, nano = 0\<rparr>, volume = 1, time = 0\<rparr>]"]
  by (simp add: plain_name_def startswith_def date_label_def is_set_order_def)

text \<open>
  C24. A one-day range (or any range with \<open>end \<le> start\<close>) fetches nothing for any
  instrument: the result does not depend on the API at all, and \<^verbatim>\<open>run\<close> returns an
  empty table although the tickers were found.
\<close>

theorem run_empty_range:
  assumes "\<not> s < e" "is_set_order [] (set_order [])"
    and "filter (\<lambda>r. row_ticker r \<in> set tickers) (catalog shares bonds) \<noteq> []"
  shows "(\<exists>msgs. run fetch shares bonds token set_order tickers (Some s) (Some e) = (msgs, Inr (Some []))) \<and>
         (\<forall>fetch'. run fetch' shares bonds token set_order tickers (Some s) (Some e)
                   = run fetch shares bonds token set_order tickers (Some s) (Some e))"
proof -
  have dr: "date_ranges (Some s) (Some e) = []" using assms(1) by (rule date_ranges_empty)
  have so: "set_order [] = []" using assms(2) by (simp add: is_set_order_def)
  have ne: "shares @ bonds \<noteq> []" using assms(3) by (auto simp: catalog_def)
  let ?df = "filter (\<lambda>r. row_ticker r \<in> set tickers) (catalog shares bonds)"
  have m: "merged (run_tickers fetch (Some s) (Some e) ?df \<lparr>merged = [], out = []\<rparr> tickers) = []"
    using run_tickers_no_ranges [OF dr] by simp
  show ?thesis
  proof
    show "\<exists>msgs. run fetch shares bonds token set_order tickers (Some s) (Some e) = (msgs, Inr (Some []))"
      using m assms(3) ne so
      by (simp add: run_def select_tickers_catalog Let_def coalesce_columns_def stripped_names_def columns_def)
    show "\<forall>fetch'. run fetch' shares bonds token set_order tickers (Some s) (Some e)
                   = run fetch shares bonds token set_order tickers (Some s) (Some e)"
    proof
      fix fetch'
      have "run_tickers fetch' (Some s) (Some e) ?df \<lparr>merged = [], out = []\<rparr> tickers
            = run_tickers fetch (Some s) (Some e) ?df \<lparr>merged = [], out = []\<rparr> tickers"
        using run_tickers_no_ranges [OF dr] by blast
      then show "run fetch' shares bonds token set_order tickers (Some s) (Some e)
                 = run fetch shares bonds token set_order tickers (Some s) (Some e)"
        using ne by (simp add: run_def select_tickers_catalog)
    qed
  qed
qed

theorem run_empty_range_witness:
  "\<exists>msgs. run (\<lambda>_ _ _. FetchFailed) [\<lparr>inst_ticker = ''MOEX'', inst_figi = ''F1'', inst_name = ''Moex''\<rparr>] []
            ''t'' (\<lambda>xs. xs) [''MOEX''] (Some 5) (Some 5) = (msgs, Inr (Some []))"
  using run_empty_range [of 5 5 "\<lambda>xs. xs" "[''MOEX'']"
      "[\<lparr>inst_ticker = ''MOEX'', inst_figi = ''F1'', inst_name = ''Moex''\<rparr>]" "[]" "\<lambda>_ _ _. FetchFailed" "''t''"]
  by (simp add: is_set_order_def catalog_def)

text \<open>
  C9. A range of more than 1053 days needs at least four chunks, so the first
  instrument fetched (the accumulator still empty), if it returns candles for each
  chunk, fails at its fourth merge: \<^verbatim>\<open>run\<close> prints the failure for the ticker and
  keeps only its first three chunks.
\<close>

theorem ticker_long_range_fails:
  assumes "1053 < e - s" "filter (\<lambda>r. row_ticker r = t) df = asset # rest"
    and "row_name asset \<notin> set [''date'', ''volume'', ''open'', ''high'', ''low'']"
    and "\<forall>a b. \<exists>cs. cs \<noteq> [] \<and> fetch (row_figi asset) a b = Candles cs"
  shows "\<exists>m. ticker_step fetch (Some s) (Some e) df \<lparr>merged = [], out = msgs\<rparr> t
             = \<lparr>merged = m, out = msgs @ [TickerFailed (row_name asset), BlankLine]\<rparr> \<and>
             columns m = [date_label, row_name asset @ ''_x'', row_name asset @ ''_y'', row_name asset]"
proof -
  have "4 \<le> length (date_ranges (Some s) (Some e))"
    using assms(1) by (simp add: length_date_ranges)
  then obtain ra rb rc rd rs where rs: "date_ranges (Some s) (Some e) = ra # rb # rc # rd # rs"
    by (auto simp: Suc_le_length_iff numeral_eq_Suc)
  obtain ca cb cc cd where
    "ca \<noteq> []" "fetch (row_figi asset) (fst ra) (snd ra) = Candles ca"
    "cb \<noteq> []" "fetch (row_figi asset) (fst rb) (snd rb) = Candles cb"
    "cc \<noteq> []" "fetch (row_figi asset) (fst rc) (snd rc) = Candles cc"
    "cd \<noteq> []" "fetch (row_figi asset) (fst rd) (snd rd) = Candles cd"
    using assms(4) by meson
  then obtain m where
    "run_chunks fetch (row_figi asset) (row_name asset) \<lparr>merged = [], out = msgs\<rparr> (ra # rb # rc # rd # rs)
     = Raised (MergeError [row_name asset @ ''_x'']) \<lparr>merged = m, out = msgs\<rparr>"
    "columns m = [date_label, row_name asset @ ''_x'', row_name asset @ ''_y'', row_name asset]"
    using run_chunks_fourth_chunk [OF assms(3)] by meson
  with assms(2) rs show ?thesis by (simp add: ticker_step_def)
qed

theorem ticker_long_range_fails_witness:
  "\<exists>m. ticker_step (\<lambda>_ _ _. Candles [\<lparr>c_open = \<lparr>units = 1, nano = 0\<rparr>, c_high = \<lparr>units = 1, nano = 0\<rparr>,
             c_low = \<lparr>units = 1, nano = 0\<rparr>, c_close = \<lparr>units = 1, nano = 0\<rparr>, volume = 1, time = 0\<rparr>])
         (Some 0) (Some 1100) [\<lparr>row_ticker = ''MOEX'', row_figi = ''F1'', row_type = ''shares'', row_name = ''Moex''\<rparr>]
         \<lparr>merged = [], out = []\<rparr> ''MOEX''
       = \<lparr>merged = m, out = [TickerFailed ''Moex'', BlankLine]\<rparr> \<and>
       columns m = [''date'', ''Moex_x'', ''Moex_y'', ''Moex'']"
  using ticker_long_range_fails [where s = 0 and e = 1100 and t = "''MOEX''" and msgs = "[]"
      and df = "[\<lparr>row_ticker = ''MOEX'', row_figi = ''F1'', row_type = ''shares'', row_name = ''Moex''\<rparr>]"
      and asset = "\<lparr>row_ticker = ''MOEX'', row_figi = ''F1'', row_type = ''shares'', row_name = ''Moex''\<rparr>"
      and rest = "[]"
      and fetch = "\<lambda>_ _ _. Candles [\<lparr>c_open = \<lparr>units = 1, nano = 0\<rparr>, c_high = \<lparr>units = 1, nano = 0\<rparr>,
             c_low = \<lparr>units = 1, nano = 0\<rparr>, c_close = \<lparr>units = 1, nano = 0\<rparr>, volume = 1, time = 0\<rparr>]"]
  by (simp add: date_label_def)

end
